(* ===== verification/Kontiki_Prelude.thy ===== *)
theory Kontiki_Prelude
  imports Complex_Main "HOL-Library.AList" "HOL-Library.Word" "HOL-Library.List_Lexorder"
    "HOL-Library.Char_ord"
begin

text \<open>
  Shared vocabulary of the development: the Python values that travel through configuration
  files, AMQP headers and JSON bodies, the exceptions the runtime raises, dictionaries as
  association lists in insertion order, string helpers, and a small state-and-exception
  calculus in which the coroutines of the runtime are written. The last section holds the
  locale of systems with an invariant, interpreted by the component theories.
\<close>

named_theorems py_simps \<open>evaluation of the state-and-exception combinators\<close>
named_theorems dict_simps \<open>lookup laws of dictionaries\<close>

section \<open>Python values\<close>

datatype rpc_error_type = ET_NONE | ET_CLIENT | ET_SERVER

text \<open>
  \<open>VMissing\<close> is the sentinel object \<open>_MISSING\<close> of \<open>configuration/parameter.py\<close>. A float is
  the rational number it denotes. \<open>VTemporal\<close> is a datetime, date or time with its
  \<open>isoformat\<close> text, \<open>VModel\<close> an object with \<open>model_dump\<close> and its dump, \<open>VObject\<close> an
  instance with a \<open>__dict__\<close>, \<open>VMapping\<close> an object that only \<open>dict(...)\<close> can read and
  \<open>VOpaque\<close> any other object, with its type name. \<open>VRpc\<close> is the dataclass \<open>RpcReturn\<close>
  with its fields success, result, message, error type and error code. Dictionary keys are strings,
  as in JSON objects, AMQP headers and the configuration files.
\<close>

datatype pyval =
    VNone
  | VMissing
  | VBool bool
  | VInt int
  | VFloat rat
  | VStr string
  | VBytes "8 word list"
  | VTemporal string
  | VUuid string
  | VList "pyval list"
  | VTuple "pyval list"
  | VSet "pyval list"
  | VDict "(string \<times> pyval) list"
  | VRpc bool pyval pyval rpc_error_type pyval
  | VModel pyval
  | VObject "(string \<times> pyval) list"
  | VMapping "(string \<times> pyval) list"
  | VOpaque string

type_synonym pydict = "(string \<times> pyval) list"

fun truthy :: "pyval \<Rightarrow> bool" where
  "truthy VNone = False"
| "truthy (VBool b) = b"
| "truthy (VInt i) = (i \<noteq> 0)"
| "truthy (VFloat r) = (r \<noteq> 0)"
| "truthy (VStr s) = (s \<noteq> [])"
| "truthy (VBytes b) = (b \<noteq> [])"
| "truthy (VList xs) = (xs \<noteq> [])"
| "truthy (VTuple xs) = (xs \<noteq> [])"
| "truthy (VSet xs) = (xs \<noteq> [])"
| "truthy (VDict d) = (d \<noteq> [])"
| "truthy (VMapping d) = (d \<noteq> [])"
| "truthy _ = True"

fun is_dict :: "pyval \<Rightarrow> bool" where
  "is_dict (VDict d) = True"
| "is_dict _ = False"

fun is_str :: "pyval \<Rightarrow> bool" where
  "is_str (VStr s) = True"
| "is_str _ = False"

text \<open>\<open>type(v) in (int, float)\<close>: a bool is not one of them.\<close>

fun is_number :: "pyval \<Rightarrow> bool" where
  "is_number (VInt i) = True"
| "is_number (VFloat r) = True"
| "is_number _ = False"

text \<open>\<open>isinstance(v, str) and v\<close>: the test for a non-empty string.\<close>

definition nonempty_str :: "pyval \<Rightarrow> bool" where
  "nonempty_str v \<longleftrightarrow> is_str v \<and> truthy v"

lemma nonempty_str_simps [simp]:
  "nonempty_str (VStr s) \<longleftrightarrow> s \<noteq> []" "\<not> nonempty_str VNone" "\<not> nonempty_str VMissing"
  "\<not> nonempty_str (VBool b)" "\<not> nonempty_str (VInt i)" "\<not> nonempty_str (VFloat r)"
  "\<not> nonempty_str (VList xs)" "\<not> nonempty_str (VDict d)"
  by (auto simp: nonempty_str_def)

lemma nonempty_strE:
  assumes "nonempty_str v"
  obtains s where "v = VStr s" "s \<noteq> []"
  using assms by (cases v) (auto simp: nonempty_str_def)

section \<open>Equality of Python values\<close>

text \<open>
  \<open>==\<close> compares numbers by value, so \<open>1 == 1.0 == True\<close>, sequences elementwise and
  dictionaries by their keys whatever the order. All other values are compared as terms.
\<close>

fun number_value :: "pyval \<Rightarrow> rat option" where
  "number_value (VBool b) = Some (if b then 1 else 0)"
| "number_value (VInt i) = Some (of_int i)"
| "number_value (VFloat r) = Some r"
| "number_value _ = None"

lemma size_pyval_entry:
  "(k, v) \<in> set d \<Longrightarrow> size v < Suc (size_list (size_prod (\<lambda>_. 0) size) d)"
  by (induction d) auto

definition scalar_eq :: "pyval \<Rightarrow> pyval \<Rightarrow> bool" where
  "scalar_eq a b \<longleftrightarrow>
     (case (number_value a, number_value b) of (Some m, Some n) \<Rightarrow> m = n | _ \<Rightarrow> a = b)"

function py_eq :: "pyval \<Rightarrow> pyval \<Rightarrow> bool" where
  "py_eq a b \<longleftrightarrow>
     (case a of
        VList xs \<Rightarrow> (case b of
            VList ys \<Rightarrow> length xs = length ys \<and> list_all (\<lambda>(x, y). py_eq x y) (zip xs ys)
          | _ \<Rightarrow> False)
      | VTuple xs \<Rightarrow> (case b of
            VTuple ys \<Rightarrow> length xs = length ys \<and> list_all (\<lambda>(x, y). py_eq x y) (zip xs ys)
          | _ \<Rightarrow> False)
      | VDict d \<Rightarrow> (case b of
            VDict e \<Rightarrow> length d = length e \<and>
              list_all (\<lambda>(k, v). case map_of e k of None \<Rightarrow> False | Some w \<Rightarrow> py_eq v w) d
          | _ \<Rightarrow> False)
      | _ \<Rightarrow> scalar_eq a b)"
  by pat_completeness auto
termination
proof (relation "measure (\<lambda>(a, b). size a)", goal_cases)
  case 1
  then show ?case by simp
next
  case (2 a b xs ys z x y)
  then have "x \<in> set xs" by (auto dest: set_zip_leftD)
  then show ?case using 2(1) by (simp add: less_Suc_eq_le size_list_estimation')
next
  case (3 a b xs ys z x y)
  then have "x \<in> set xs" by (auto dest: set_zip_leftD)
  then show ?case using 3(1) by (simp add: less_Suc_eq_le size_list_estimation')
next
  case (4 a b d e z k v w)
  then show ?case using size_pyval_entry[of k v d] by auto
qed

declare py_eq.simps [simp del]

lemma py_eq_simps [simp]:
  "py_eq (VList xs) (VList ys) \<longleftrightarrow>
     length xs = length ys \<and> list_all (\<lambda>(x, y). py_eq x y) (zip xs ys)"
  "py_eq (VTuple xs) (VTuple ys) \<longleftrightarrow>
     length xs = length ys \<and> list_all (\<lambda>(x, y). py_eq x y) (zip xs ys)"
  "py_eq (VDict d) (VDict e) \<longleftrightarrow>
     length d = length e \<and>
     list_all (\<lambda>(k, v). case map_of e k of None \<Rightarrow> False | Some w \<Rightarrow> py_eq v w) d"
  "py_eq (VStr s) b \<longleftrightarrow> b = VStr s"
  "py_eq VNone b \<longleftrightarrow> b = VNone"
  "py_eq (VInt i) (VInt j) \<longleftrightarrow> i = j"
  "py_eq (VBool p) (VBool q) \<longleftrightarrow> p = q"
  "py_eq (VInt i) (VStr s) \<longleftrightarrow> False"
  "py_eq (VInt i) (VFloat r) \<longleftrightarrow> of_int i = r"
  "py_eq (VInt i) (VBool p) \<longleftrightarrow> i = (if p then 1 else 0)"
  by (subst py_eq.simps; auto simp: scalar_eq_def)+

lemma py_eq_refl_scalar:
  "number_value v = Some n \<Longrightarrow> py_eq v v"
  by (cases v) (auto simp: py_eq.simps scalar_eq_def)

text \<open>Dictionaries built by the interpreter have one entry per key, at every depth.\<close>

function wf_val :: "pyval \<Rightarrow> bool" where
  "wf_val v \<longleftrightarrow>
     (case v of
        VList xs \<Rightarrow> list_all wf_val xs
      | VTuple xs \<Rightarrow> list_all wf_val xs
      | VDict d \<Rightarrow> distinct (map fst d) \<and> list_all (\<lambda>(k, v). wf_val v) d
      | _ \<Rightarrow> True)"
  by pat_completeness auto
termination
proof (relation "measure size", goal_cases)
  case 1
  then show ?case by simp
next
  case (2 v xs x)
  then show ?case by (simp add: less_Suc_eq_le size_list_estimation')
next
  case (3 v xs x)
  then show ?case by (simp add: less_Suc_eq_le size_list_estimation')
next
  case (4 v d z k w)
  then show ?case using size_pyval_entry[of k w d] by auto
qed

declare wf_val.simps [simp del]

lemma wf_val_simps [simp]:
  "wf_val (VList xs) \<longleftrightarrow> list_all wf_val xs"
  "wf_val (VTuple xs) \<longleftrightarrow> list_all wf_val xs"
  "wf_val (VDict d) \<longleftrightarrow> distinct (map fst d) \<and> list_all (\<lambda>(k, v). wf_val v) d"
  "wf_val (VStr s)" "wf_val (VInt i)" "wf_val (VBool b)" "wf_val (VFloat r)" "wf_val VNone"
  by (subst wf_val.simps; simp)+

abbreviation wf_dict :: "pydict \<Rightarrow> bool" where
  "wf_dict d \<equiv> wf_val (VDict d)"

lemma wf_dict_entry: "wf_dict d \<Longrightarrow> (k, v) \<in> set d \<Longrightarrow> wf_val v"
  by (auto simp: list_all_iff)

lemma wf_dict_lookup: "wf_dict d \<Longrightarrow> map_of d k = Some v \<Longrightarrow> wf_val v"
  by (meson map_of_SomeD wf_dict_entry)

lemma list_all_zip_same: "list_all (\<lambda>(x, y). P x y) (zip xs xs) \<longleftrightarrow> list_all (\<lambda>x. P x x) xs"
  by (induction xs) auto

lemma py_eq_refl: "wf_val v \<Longrightarrow> py_eq v v"
proof (induction v rule: wf_val.induct)
  case (1 v)
  show ?case
  proof (cases v)
    case (VList xs)
    with 1 have "list_all (\<lambda>x. py_eq x x) xs" by (auto simp: list_all_iff)
    with VList show ?thesis by (simp add: list_all_zip_same)
  next
    case (VTuple xs)
    with 1 have "list_all (\<lambda>x. py_eq x x) xs" by (auto simp: list_all_iff)
    with VTuple show ?thesis by (simp add: list_all_zip_same)
  next
    case (VDict d)
    with 1 have "py_eq w w" if "(k, w) \<in> set d" for k w
      using that by (auto simp: list_all_iff)
    with 1 VDict show ?thesis by (auto simp: list_all_iff)
  qed (auto simp: py_eq.simps scalar_eq_def split: option.splits)
qed

section \<open>Exceptions\<close>

text \<open>
  One constructor per exception class the runtime raises or catches by name; the string is the
  fixed part of the message. \<open>OtherError\<close> is an exception of a service, a library or the broker
  client, by class name and text. Only \<open>CancelledError\<close> lies outside \<open>Exception\<close>.
\<close>

datatype exn =
    is_KeyError: KeyError string
  | is_TypeError: TypeError string
  | is_ValueError: ValueError string
  | is_AttributeError: AttributeError string
  | is_RuntimeError: RuntimeError string
  | TimeoutError
  | CancelledError
  | ConfigParameterError string
  | ConfigMergeError string
  | AmqpDisconnectedError
  | ChannelInvalidStateError
  | RpcTimeoutError string
  | RpcClientError string pyval pyval
  | RpcServerError string pyval pyval
  | OtherError string string

definition is_Exception :: "exn \<Rightarrow> bool" where
  "is_Exception e \<longleftrightarrow> e \<noteq> CancelledError"

lemma is_Exception_simps [simp]:
  "\<not> is_Exception CancelledError" "is_Exception (KeyError m)" "is_Exception (TypeError m)"
  "is_Exception (ValueError m)" "is_Exception (AttributeError m)" "is_Exception (RuntimeError m)"
  "is_Exception TimeoutError" "is_Exception AmqpDisconnectedError"
  "is_Exception ChannelInvalidStateError" "is_Exception (OtherError c m)"
  "is_Exception (ConfigParameterError m)" "is_Exception (ConfigMergeError m)"
  "is_Exception (RpcTimeoutError m)" "is_Exception (RpcClientError m v w)"
  "is_Exception (RpcServerError m v w)"
  by (auto simp: is_Exception_def)

text \<open>Iterating over a value: \<open>for x in v\<close>, \<open>*v\<close> and unpacking.\<close>

definition iterate :: "pyval \<Rightarrow> exn + pyval list" where
  "iterate v =
     (case v of
        VList xs \<Rightarrow> Inr xs
      | VTuple xs \<Rightarrow> Inr xs
      | VSet xs \<Rightarrow> Inr xs
      | VStr s \<Rightarrow> Inr (map (\<lambda>c. VStr [c]) s)
      | VBytes bs \<Rightarrow> Inr (map (\<lambda>b. VInt (uint b)) bs)
      | VDict d \<Rightarrow> Inr (map (\<lambda>p. VStr (fst p)) d)
      | _ \<Rightarrow> Inl (TypeError ''object is not iterable''))"

section \<open>Dictionaries\<close>

text \<open>
  A dictionary keeps its insertion order. \<open>d[k] = v\<close> overwrites in place or appends,
  \<open>d.pop(k, None)\<close> removes, \<open>d | e\<close> inserts the entries of \<open>e\<close> one by one.
\<close>

abbreviation dget :: "('k \<times> 'v) list \<Rightarrow> 'k \<Rightarrow> 'v option" where
  "dget \<equiv> map_of"

abbreviation dset :: "'k \<Rightarrow> 'v \<Rightarrow> ('k \<times> 'v) list \<Rightarrow> ('k \<times> 'v) list" where
  "dset \<equiv> AList.update"

abbreviation dpop :: "'k \<Rightarrow> ('k \<times> 'v) list \<Rightarrow> ('k \<times> 'v) list" where
  "dpop \<equiv> AList.delete"

definition dget_default :: "pydict \<Rightarrow> string \<Rightarrow> pyval \<Rightarrow> pyval" where
  "dget_default d k v = (case dget d k of None \<Rightarrow> v | Some w \<Rightarrow> w)"

fun dunion :: "('k \<times> 'v) list \<Rightarrow> ('k \<times> 'v) list \<Rightarrow> ('k \<times> 'v) list" where
  "dunion d [] = d"
| "dunion d ((k, v) # e) = dunion (dset k v d) e"

lemma dget_dset [dict_simps]: "dget (dset k v d) j = (if j = k then Some v else dget d j)"
  by (simp add: update_conv')

lemma dget_dpop [dict_simps]: "dget (dpop k d) j = (if j = k then None else dget d j)"
  by (simp add: delete_conv')

lemma dget_dunion [dict_simps]:
  "distinct (map fst e) \<Longrightarrow>
     dget (dunion d e) j = (case dget e j of None \<Rightarrow> dget d j | Some v \<Rightarrow> Some v)"
proof (induction d e rule: dunion.induct)
  case (2 d k v e)
  then have "dget e k = None" by (auto simp: map_of_eq_None_iff)
  with 2 show ?case by (auto simp: dget_dset split: option.splits)
qed simp

lemma dget_dset_same [simp]: "dget (dset k v d) k = Some v"
  by (simp add: update_conv')

lemma dget_dset_other [simp]: "j \<noteq> k \<Longrightarrow> dget (dset k v d) j = dget d j"
  by (simp add: update_conv')

lemma dget_dpop_same [simp]: "dget (dpop k d) k = None"
  by (simp add: delete_conv')

lemma distinct_dset: "distinct (map fst d) \<Longrightarrow> distinct (map fst (dset k v d))"
  by (rule distinct_update)

lemma distinct_dpop: "distinct (map fst d) \<Longrightarrow> distinct (map fst (dpop k d))"
  by (rule distinct_delete)

lemma distinct_dunion: "distinct (map fst d) \<Longrightarrow> distinct (map fst (dunion d e))"
  by (induction d e rule: dunion.induct) (auto simp: distinct_dset)

lemma keys_dset: "set (map fst (dset k v d)) = insert k (set (map fst d))"
  using dom_update[of k v d] by simp

lemma dget_iff_mem: "distinct (map fst d) \<Longrightarrow> dget d k = Some v \<longleftrightarrow> (k, v) \<in> set d"
  by (auto dest: map_of_SomeD)

text \<open>
  The interface of a key-value store: what a lookup returns after an insert or a removal. The
  Python dictionary above is one, and so is the two-level table of the registry server.
\<close>

locale kv_store =
  fixes lookup :: "'m \<Rightarrow> 'k \<Rightarrow> 'v option"
    and insert_entry :: "'k \<Rightarrow> 'v \<Rightarrow> 'm \<Rightarrow> 'm"
    and remove_entry :: "'k \<Rightarrow> 'm \<Rightarrow> 'm"
    and good :: "'m \<Rightarrow> bool"
  assumes lookup_insert:
      "good m \<Longrightarrow> lookup (insert_entry k v m) j = (if j = k then Some v else lookup m j)"
    and lookup_remove:
      "good m \<Longrightarrow> lookup (remove_entry k m) j = (if j = k then None else lookup m j)"
    and good_insert: "good m \<Longrightarrow> good (insert_entry k v m)"
    and good_remove: "good m \<Longrightarrow> good (remove_entry k m)"
begin

lemma insert_then_lookup: "good m \<Longrightarrow> lookup (insert_entry k v m) k = Some v"
  by (simp add: lookup_insert)

lemma remove_then_lookup: "good m \<Longrightarrow> lookup (remove_entry k m) k = None"
  by (simp add: lookup_remove)

lemma remove_insert_restores:
  "good m \<Longrightarrow> lookup m k = None \<Longrightarrow> lookup (remove_entry k (insert_entry k v m)) j = lookup m j"
  by (simp add: lookup_remove lookup_insert good_insert)

lemma dom_insert: "good m \<Longrightarrow> dom (lookup (insert_entry k v m)) = insert k (dom (lookup m))"
  by (auto simp: lookup_insert split: if_splits)

lemma dom_remove: "good m \<Longrightarrow> dom (lookup (remove_entry k m)) = dom (lookup m) - {k}"
  by (auto simp: lookup_remove split: if_splits)

end

interpretation py_dict: kv_store dget dset dpop "\<lambda>d. distinct (map fst d)"
  by unfold_locales (auto simp: dict_simps distinct_dset distinct_dpop)

section \<open>Strings\<close>

text \<open>\<open>s.split(c)\<close> for a one-character separator, and \<open>c.join(ws)\<close>.\<close>

fun split_on :: "char \<Rightarrow> string \<Rightarrow> string list" where
  "split_on c [] = [[]]"
| "split_on c (x # xs) =
     (if x = c then [] # split_on c xs
      else (case split_on c xs of [] \<Rightarrow> [[x]] | w # ws \<Rightarrow> (x # w) # ws))"

fun join_with :: "string \<Rightarrow> string list \<Rightarrow> string" where
  "join_with c [] = []"
| "join_with c [w] = w"
| "join_with c (w # v # ws) = w @ c @ join_with c (v # ws)"

lemma split_on_nonempty [simp]: "split_on c s \<noteq> []"
  by (induction s) (auto split: list.splits)

lemma join_split: "join_with [c] (split_on c s) = s"
proof (induction s)
  case (Cons x s)
  obtain w ws where "split_on c s = w # ws"
    by (cases "split_on c s") auto
  with Cons show ?case by (cases ws) auto
qed simp

lemma split_on_word: "c \<notin> set w \<Longrightarrow> split_on c w = [w]"
  by (induction w) auto

lemma split_on_append: "c \<notin> set w \<Longrightarrow> split_on c (w @ c # s) = w # split_on c s"
  by (induction w) auto

text \<open>\<open>s.strip()\<close> and \<open>s.split()\<close> with the ASCII white space of Python.\<close>

definition is_space :: "char \<Rightarrow> bool" where
  "is_space c \<longleftrightarrow> c \<in> {CHR '' '', CHR 0x09, CHR 0x0A, CHR 0x0B, CHR 0x0C, CHR 0x0D,
     CHR 0x1C, CHR 0x1D, CHR 0x1E, CHR 0x1F}"

definition strip :: "string \<Rightarrow> string" where
  "strip s = rev (dropWhile is_space (rev (dropWhile is_space s)))"

fun fields_aux :: "string \<Rightarrow> string \<Rightarrow> string list" where
  "fields_aux w [] = (if w = [] then [] else [rev w])"
| "fields_aux w (c # s) =
     (if is_space c then (if w = [] then fields_aux [] s else rev w # fields_aux [] s)
      else fields_aux (c # w) s)"

definition fields :: "string \<Rightarrow> string list" where
  "fields s = fields_aux [] s"

lemma strip_empty_iff: "strip s = [] \<longleftrightarrow> (\<forall>c \<in> set s. is_space c)"
proof -
  have "strip s = [] \<longleftrightarrow> (\<forall>c \<in> set (dropWhile is_space s). is_space c)"
    by (simp add: strip_def)
  also have "\<dots> \<longleftrightarrow> (\<forall>c \<in> set s. is_space c)"
    by (metis dropWhile_eq_Nil_conv hd_dropWhile hd_in_set set_dropWhileD)
  finally show ?thesis .
qed

lemma strip_no_outer_space:
  "strip s \<noteq> [] \<Longrightarrow> \<not> is_space (hd (strip s)) \<and> \<not> is_space (last (strip s))"
proof
  assume ne: "strip s \<noteq> []"
  define u where "u = dropWhile is_space (rev (dropWhile is_space s))"
  have st: "strip s = rev u" by (simp add: strip_def u_def)
  with ne have u: "u \<noteq> []" by simp
  show "\<not> is_space (last (strip s))"
    using u hd_dropWhile[of is_space "rev (dropWhile is_space s)"]
    by (simp add: st last_rev u_def)
  have "last u = last (rev (dropWhile is_space s))"
  proof -
    have "rev (dropWhile is_space s) = takeWhile is_space (rev (dropWhile is_space s)) @ u"
      by (simp add: u_def)
    with u show ?thesis by (metis last_appendR)
  qed
  moreover have "dropWhile is_space s \<noteq> []"
    using u unfolding u_def by (metis dropWhile.simps(1) rev.simps(1))
  ultimately have "last u = hd (dropWhile is_space s)"
    by (simp add: last_rev)
  with \<open>dropWhile is_space s \<noteq> []\<close> show "\<not> is_space (hd (strip s))"
    using u hd_dropWhile[of is_space s] by (simp add: st hd_rev)
qed

end
