(* ===== verification/Python_Effects.thy ===== *)
theory Python_Effects
  imports Kontiki_Prelude
begin

text \<open>
  The calculus the coroutines are written in: a computation takes the component's state and
  returns a result or an exception together with the state it leaves behind, so a raised
  exception keeps every assignment made before it. Awaited calls to the outside (broker, clock,
  user code) go through \<open>io\<close>: the \<open>script\<close> field of the state holds what the outside answers,
  call by call, and \<open>trace\<close> records every call made and whether it completed. Theorems
  quantify over the script, that is over every behaviour of the outside.
\<close>

section \<open>Computations with state and exceptions\<close>

type_synonym ('s, 'a) py = "'s \<Rightarrow> (exn + 'a) \<times> 's"

definition py_return :: "'a \<Rightarrow> ('s, 'a) py" where
  "py_return x = (\<lambda>s. (Inr x, s))"

definition py_raise :: "exn \<Rightarrow> ('s, 'a) py" where
  "py_raise e = (\<lambda>s. (Inl e, s))"

definition py_bind :: "('s, 'a) py \<Rightarrow> ('a \<Rightarrow> ('s, 'b) py) \<Rightarrow> ('s, 'b) py" where
  "py_bind m f = (\<lambda>s. case m s of (Inl e, t) \<Rightarrow> (Inl e, t) | (Inr x, t) \<Rightarrow> f x t)"

definition py_then :: "('s, 'a) py \<Rightarrow> ('s, 'b) py \<Rightarrow> ('s, 'b) py" where
  "py_then m n = py_bind m (\<lambda>_. n)"

definition py_read :: "('s \<Rightarrow> 'a) \<Rightarrow> ('s, 'a) py" where
  "py_read f = (\<lambda>s. (Inr (f s), s))"

definition py_modify :: "('s \<Rightarrow> 's) \<Rightarrow> ('s, unit) py" where
  "py_modify f = (\<lambda>s. (Inr (), f s))"

definition py_lift :: "exn + 'a \<Rightarrow> ('s, 'a) py" where
  "py_lift r = (\<lambda>s. (r, s))"

definition py_if :: "('s \<Rightarrow> bool) \<Rightarrow> ('s, 'a) py \<Rightarrow> ('s, 'a) py \<Rightarrow> ('s, 'a) py" where
  "py_if b m n = (\<lambda>s. if b s then m s else n s)"

abbreviation py_when :: "('s \<Rightarrow> bool) \<Rightarrow> ('s, unit) py \<Rightarrow> ('s, unit) py" where
  "py_when b m \<equiv> py_if b m (py_return ())"

text \<open>
  \<open>try: m except ...\<close> with a handler that says which exceptions it takes (\<open>None\<close> lets the
  exception through), and \<open>try: m finally: f\<close>, where an exception of \<open>f\<close> replaces the
  outcome of \<open>m\<close>.
\<close>

definition py_try :: "('s, 'a) py \<Rightarrow> (exn \<Rightarrow> ('s, 'a) py option) \<Rightarrow> ('s, 'a) py" where
  "py_try m h = (\<lambda>s. case m s of
      (Inl e, t) \<Rightarrow> (case h e of None \<Rightarrow> (Inl e, t) | Some n \<Rightarrow> n t)
    | (Inr x, t) \<Rightarrow> (Inr x, t))"

abbreviation py_except :: "('s, 'a) py \<Rightarrow> (exn \<Rightarrow> ('s, 'a) py) \<Rightarrow> ('s, 'a) py" where
  "py_except m h \<equiv> py_try m (\<lambda>e. if is_Exception e then Some (h e) else None)"

definition py_finally :: "('s, 'a) py \<Rightarrow> ('s, unit) py \<Rightarrow> ('s, 'a) py" where
  "py_finally m f = (\<lambda>s. case m s of
      (r, t) \<Rightarrow> (case f t of (Inl e, u) \<Rightarrow> (Inl e, u) | (Inr _, u) \<Rightarrow> (r, u)))"

fun py_each :: "('a \<Rightarrow> ('s, unit) py) \<Rightarrow> 'a list \<Rightarrow> ('s, unit) py" where
  "py_each f [] = py_return ()"
| "py_each f (x # xs) = py_then (f x) (py_each f xs)"

lemma py_return_run [py_simps]: "py_return x s = (Inr x, s)"
  by (simp add: py_return_def)

lemma py_raise_run [py_simps]: "py_raise e s = (Inl e, s)"
  by (simp add: py_raise_def)

lemma py_bind_run [py_simps]:
  "py_bind m f s = (case m s of (Inl e, t) \<Rightarrow> (Inl e, t) | (Inr x, t) \<Rightarrow> f x t)"
  by (simp add: py_bind_def)

lemma py_then_run [py_simps]:
  "py_then m n s = (case m s of (Inl e, t) \<Rightarrow> (Inl e, t) | (Inr x, t) \<Rightarrow> n t)"
  by (simp add: py_then_def py_bind_def)

lemma py_read_run [py_simps]: "py_read f s = (Inr (f s), s)"
  by (simp add: py_read_def)

lemma py_modify_run [py_simps]: "py_modify f s = (Inr (), f s)"
  by (simp add: py_modify_def)

lemma py_lift_run [py_simps]: "py_lift r s = (r, s)"
  by (simp add: py_lift_def)

lemma py_if_run [py_simps]: "py_if b m n s = (if b s then m s else n s)"
  by (simp add: py_if_def)

lemma py_try_run [py_simps]:
  "py_try m h s = (case m s of
      (Inl e, t) \<Rightarrow> (case h e of None \<Rightarrow> (Inl e, t) | Some n \<Rightarrow> n t)
    | (Inr x, t) \<Rightarrow> (Inr x, t))"
  by (simp add: py_try_def)

lemma py_finally_run [py_simps]:
  "py_finally m f s = (case m s of
      (r, t) \<Rightarrow> (case f t of (Inl e, u) \<Rightarrow> (Inl e, u) | (Inr _, u) \<Rightarrow> (r, u)))"
  by (simp add: py_finally_def)

lemma py_each_run_Nil [py_simps]: "py_each f [] s = (Inr (), s)"
  by (simp add: py_simps)

lemma py_each_run_Cons [py_simps]:
  "py_each f (x # xs) s = (case f x s of (Inl e, t) \<Rightarrow> (Inl e, t) | (Inr _, t) \<Rightarrow> py_each f xs t)"
  by (simp add: py_simps)

declare py_each.simps [simp del]

text \<open>A cleanup that cannot raise runs on every path and keeps the outcome.\<close>

lemma py_finally_outcome:
  assumes "\<And>t. f t = (Inr (), c t)"
  shows "py_finally m f s = (fst (m s), c (snd (m s)))"
  using assms by (simp add: py_simps split: prod.split)

section \<open>The outside: scripted answers and the trace of calls\<close>

datatype reply = Returns pyval | Raises exn

record 'e world =
  script :: "reply list"
  trace :: "('e \<times> bool) list"

text \<open>
  An awaited call consumes the next answer; with an exhausted script it completes and returns
  \<open>None\<close>. The trace marks a call \<open>True\<close> when it completed and \<open>False\<close> when it raised.
\<close>

definition io :: "'e \<Rightarrow> (('e, 'z) world_scheme, pyval) py" where
  "io e = (\<lambda>s. case script s of
      [] \<Rightarrow> (Inr VNone, s\<lparr>trace := trace s @ [(e, True)]\<rparr>)
    | Returns v # r \<Rightarrow> (Inr v, s\<lparr>script := r, trace := trace s @ [(e, True)]\<rparr>)
    | Raises x # r \<Rightarrow> (Inl x, s\<lparr>script := r, trace := trace s @ [(e, False)]\<rparr>))"

text \<open>A local action worth recording, which cannot fail.\<close>

definition record_effect :: "'e \<Rightarrow> (('e, 'z) world_scheme, unit) py" where
  "record_effect e = py_modify (\<lambda>s. s\<lparr>trace := trace s @ [(e, True)]\<rparr>)"

definition completed :: "('e, 'z) world_scheme \<Rightarrow> 'e list" where
  "completed s = map fst (filter snd (trace s))"

definition attempted :: "('e, 'z) world_scheme \<Rightarrow> 'e list" where
  "attempted s = map fst (trace s)"

lemma io_run [py_simps]:
  "io e s = (case script s of
      [] \<Rightarrow> (Inr VNone, s\<lparr>trace := trace s @ [(e, True)]\<rparr>)
    | Returns v # r \<Rightarrow> (Inr v, s\<lparr>script := r, trace := trace s @ [(e, True)]\<rparr>)
    | Raises x # r \<Rightarrow> (Inl x, s\<lparr>script := r, trace := trace s @ [(e, False)]\<rparr>))"
  by (simp add: io_def)

lemma record_effect_run [py_simps]:
  "record_effect e s = (Inr (), s\<lparr>trace := trace s @ [(e, True)]\<rparr>)"
  by (simp add: record_effect_def py_simps)

lemma completed_simps [simp]:
  "completed (s\<lparr>script := r\<rparr>) = completed s"
  "completed (s\<lparr>trace := t @ [(e, b)]\<rparr>) = completed (s\<lparr>trace := t\<rparr>) @ (if b then [e] else [])"
  "completed (s\<lparr>trace := trace s\<rparr>) = completed s"
  by (simp_all add: completed_def)

text \<open>The outside answers every remaining call without an exception.\<close>

definition no_failure :: "('e, 'z) world_scheme \<Rightarrow> bool" where
  "no_failure s \<longleftrightarrow> (\<forall>x. Raises x \<notin> set (script s))"

lemma io_cases:
  obtains (ok) v r where "io e s = (Inr v, s\<lparr>script := r, trace := trace s @ [(e, True)]\<rparr>)"
      "set r \<subseteq> set (script s)"
  | (fail) x r where "io e s = (Inl x, s\<lparr>script := r, trace := trace s @ [(e, False)]\<rparr>)"
      "script s = Raises x # r"
proof (cases "script s")
  case Nil
  then have "io e s = (Inr VNone, s\<lparr>script := [], trace := trace s @ [(e, True)]\<rparr>)"
    by (simp add: io_def)
  with ok show ?thesis by auto
next
  case (Cons a r)
  with ok fail show ?thesis by (cases a) (auto simp: io_def)
qed

text \<open>
  \<open>async with message.process(requeue=...)\<close> of aio-pika: the context manager is handed the
  outcome of its body on leaving and settles the message with the broker. The model records the
  flag and the exception it is handed (\<open>None\<close> for a normal exit); settling may itself raise.
\<close>

definition process_message ::
  "(bool \<Rightarrow> exn option \<Rightarrow> 'e) \<Rightarrow> bool \<Rightarrow> (('e, 'z) world_scheme, 'a) py \<Rightarrow>
   (('e, 'z) world_scheme, 'a) py" where
  "process_message settle requeue body = (\<lambda>s. case body s of
     (r, t) \<Rightarrow> (case io (settle requeue (case r of Inl e \<Rightarrow> Some e | Inr _ \<Rightarrow> None)) t of
        (Inl x, u) \<Rightarrow> (Inl x, u) | (Inr _, u) \<Rightarrow> (r, u)))"

lemma process_message_run [py_simps]:
  "process_message settle requeue body s = (case body s of
     (r, t) \<Rightarrow> (case io (settle requeue (case r of Inl e \<Rightarrow> Some e | Inr _ \<Rightarrow> None)) t of
        (Inl x, u) \<Rightarrow> (Inl x, u) | (Inr _, u) \<Rightarrow> (r, u)))"
  by (simp add: process_message_def)

section \<open>The calls a computation can make\<close>

text \<open>
  \<open>emits P m\<close>: from every state, whatever the outside answers, \<open>m\<close> only adds calls satisfying
  \<open>P\<close> to the trace. The rules follow the structure of the computation.
\<close>

named_theorems emits_rules

definition emits :: "('e \<Rightarrow> bool) \<Rightarrow> (('e, 'z) world_scheme, 'a) py \<Rightarrow> bool" where
  "emits P m \<longleftrightarrow>
     (\<forall>s. \<exists>es. trace (snd (m s)) = trace s @ es \<and> list_all (\<lambda>p. P (fst p)) es)"

lemma emitsD:
  assumes "emits P m"
  obtains es where "trace (snd (m s)) = trace s @ es" "list_all (\<lambda>p. P (fst p)) es"
  using assms unfolding emits_def by blast

lemma emits_silent:
  "(\<And>s. trace (snd (m s)) = trace s) \<Longrightarrow> emits P m"
  by (simp add: emits_def)

lemma emits_return [emits_rules]: "emits P (py_return x)"
  and emits_raise [emits_rules]: "emits P (py_raise e)"
  and emits_read [emits_rules]: "emits P (py_read f)"
  and emits_lift [emits_rules]: "emits P (py_lift r)"
  by (simp_all add: emits_silent py_simps)

lemma emits_modify [emits_rules]: "(\<And>s. trace (f s) = trace s) \<Longrightarrow> emits P (py_modify f)"
  by (simp add: emits_silent py_simps)

lemma emits_io [emits_rules]: "P e \<Longrightarrow> emits P (io e)"
  unfolding emits_def
proof
  fix s
  assume "P e"
  then show "\<exists>es. trace (snd (io e s)) = trace s @ es \<and> list_all (\<lambda>p. P (fst p)) es"
    by (cases rule: io_cases[of e s]) auto
qed

lemma emits_run_append:
  assumes "trace t = trace s @ es" "list_all (\<lambda>p. P (fst p)) es" "emits P n"
  shows "\<exists>fs. trace (snd (n t)) = trace s @ fs \<and> list_all (\<lambda>p. P (fst p)) fs"
proof -
  from assms(3) obtain gs where "trace (snd (n t)) = trace t @ gs" "list_all (\<lambda>p. P (fst p)) gs"
    by (rule emitsD)
  with assms show ?thesis by (intro exI[of _ "es @ gs"]) simp
qed

lemma emits_bind [emits_rules]:
  assumes m: "emits P m" and f: "\<And>x. emits P (f x)"
  shows "emits P (py_bind m f)"
  unfolding emits_def
proof
  fix s
  obtain r t where run: "m s = (r, t)" by fastforce
  from m obtain es where es: "trace (snd (m s)) = trace s @ es" "list_all (\<lambda>p. P (fst p)) es"
    by (rule emitsD)
  show "\<exists>es. trace (snd (py_bind m f s)) = trace s @ es \<and> list_all (\<lambda>p. P (fst p)) es"
  proof (cases r)
    case (Inr x)
    with run es emits_run_append[OF _ es(2) f[of x], of t s] show ?thesis by (simp add: py_bind_run)
  qed (use run es in \<open>auto simp: py_bind_run\<close>)
qed

lemma emits_then [emits_rules]: "emits P m \<Longrightarrow> emits P n \<Longrightarrow> emits P (py_then m n)"
  unfolding py_then_def by (rule emits_bind)

lemma emits_if [emits_rules]: "emits P m \<Longrightarrow> emits P n \<Longrightarrow> emits P (py_if b m n)"
  by (simp add: emits_def py_if_run)

lemma emits_try [emits_rules]:
  assumes m: "emits P m" and h: "\<And>e n. h e = Some n \<Longrightarrow> emits P n"
  shows "emits P (py_try m h)"
  unfolding emits_def
proof
  fix s
  obtain r t where run: "m s = (r, t)" by fastforce
  from m obtain es where es: "trace (snd (m s)) = trace s @ es" "list_all (\<lambda>p. P (fst p)) es"
    by (rule emitsD)
  show "\<exists>es. trace (snd (py_try m h s)) = trace s @ es \<and> list_all (\<lambda>p. P (fst p)) es"
  proof (cases r)
    case (Inl e)
    show ?thesis
    proof (cases "h e")
      case (Some n)
      with Inl run es emits_run_append[OF _ es(2) h[of e n], of t s] show ?thesis
        by (simp add: py_try_run)
    qed (use Inl run es in \<open>auto simp: py_try_run\<close>)
  qed (use run es in \<open>auto simp: py_try_run\<close>)
qed

lemma emits_finally [emits_rules]:
  assumes m: "emits P m" and f: "emits P f"
  shows "emits P (py_finally m f)"
  unfolding emits_def
proof
  fix s
  obtain r t where run: "m s = (r, t)" by fastforce
  from m obtain es where es: "trace (snd (m s)) = trace s @ es" "list_all (\<lambda>p. P (fst p)) es"
    by (rule emitsD)
  have "snd (py_finally m f s) = snd (f t)"
    using run by (simp add: py_finally_run split: prod.splits sum.splits)
  with run es emits_run_append[OF _ es(2) f, of t s]
  show "\<exists>es. trace (snd (py_finally m f s)) = trace s @ es \<and> list_all (\<lambda>p. P (fst p)) es" by simp
qed

lemma emits_each [emits_rules]: "(\<And>x. emits P (f x)) \<Longrightarrow> emits P (py_each f xs)"
  by (induction xs) (simp_all add: py_each.simps emits_rules)

lemma emits_state: "(\<And>t. emits P (m t)) \<Longrightarrow> emits P (\<lambda>s. m s s)"
  by (simp add: emits_def)

section \<open>What a computation leaves alone\<close>

text \<open>\<open>keeps f m\<close>: \<open>m\<close> does not change the part \<open>f\<close> of the state, on any path.\<close>

named_theorems keeps_rules

definition keeps :: "('s \<Rightarrow> 'x) \<Rightarrow> ('s, 'a) py \<Rightarrow> bool" where
  "keeps f m \<longleftrightarrow> (\<forall>s. f (snd (m s)) = f s)"

lemma keepsD: "keeps f m \<Longrightarrow> f (snd (m s)) = f s"
  by (simp add: keeps_def)

lemma keepsI: "(\<And>s. f (snd (m s)) = f s) \<Longrightarrow> keeps f m"
  by (simp add: keeps_def)

lemma keeps_return [keeps_rules]: "keeps f (py_return x)"
  and keeps_raise [keeps_rules]: "keeps f (py_raise e)"
  and keeps_read [keeps_rules]: "keeps f (py_read g)"
  and keeps_lift [keeps_rules]: "keeps f (py_lift r)"
  by (simp_all add: keeps_def py_simps)

lemma keeps_modify [keeps_rules]: "(\<And>s. f (g s) = f s) \<Longrightarrow> keeps f (py_modify g)"
  by (simp add: keeps_def py_simps)

lemma keeps_io [keeps_rules]:
  "(\<And>s r t. f (s\<lparr>script := r, trace := t\<rparr>) = f s) \<Longrightarrow> (\<And>s t. f (s\<lparr>trace := t\<rparr>) = f s) \<Longrightarrow> keeps f (io e)"
  by (auto simp: keeps_def io_def split: list.split reply.split)

lemma keeps_bind [keeps_rules]:
  assumes "keeps f m" "\<And>x. keeps f (n x)"
  shows "keeps f (py_bind m n)"
proof (rule keepsI)
  fix s
  obtain r t where "m s = (r, t)" by fastforce
  with keepsD[OF assms(1), of s] keepsD[OF assms(2)] show "f (snd (py_bind m n s)) = f s"
    by (cases r) (simp_all add: py_bind_run)
qed

lemma keeps_then [keeps_rules]: "keeps f m \<Longrightarrow> keeps f n \<Longrightarrow> keeps f (py_then m n)"
  unfolding py_then_def by (rule keeps_bind)

lemma keeps_if [keeps_rules]: "keeps f m \<Longrightarrow> keeps f n \<Longrightarrow> keeps f (py_if b m n)"
  by (simp add: keeps_def py_if_run)

lemma keeps_try [keeps_rules]:
  assumes "keeps f m" "\<And>e n. h e = Some n \<Longrightarrow> keeps f n"
  shows "keeps f (py_try m h)"
proof (rule keepsI)
  fix s
  obtain r t where "m s = (r, t)" by fastforce
  with keepsD[OF assms(1), of s] keepsD[OF assms(2)] show "f (snd (py_try m h s)) = f s"
    by (auto simp: py_try_run split: sum.splits option.splits)
qed

lemma keeps_except [keeps_rules]:
  "keeps f m \<Longrightarrow> (\<And>e. keeps f (h e)) \<Longrightarrow> keeps f (py_except m h)"
  by (rule keeps_try) (auto split: if_splits)

lemma keeps_finally [keeps_rules]:
  assumes "keeps f m" "keeps f n"
  shows "keeps f (py_finally m n)"
proof (rule keepsI)
  fix s
  obtain r t where "m s = (r, t)" by fastforce
  moreover obtain q u where "n t = (q, u)" by fastforce
  ultimately show "f (snd (py_finally m n s)) = f s"
    using keepsD[OF assms(1), of s] keepsD[OF assms(2), of t]
    by (cases q) (simp_all add: py_finally_run)
qed

lemma keeps_each [keeps_rules]: "(\<And>x. keeps f (g x)) \<Longrightarrow> keeps f (py_each g xs)"
  by (induction xs) (simp_all add: py_each.simps keeps_rules)

lemma keeps_process [keeps_rules]:
  assumes "\<And>e. keeps f (io e)" "keeps f m"
  shows "keeps f (process_message settle rq m)"
proof (rule keepsI)
  fix s
  obtain r t where m: "m s = (r, t)" by fastforce
  let ?e = "settle rq (case r of Inl e \<Rightarrow> Some e | Inr _ \<Rightarrow> None)"
  obtain q u where "io ?e t = (q, u)" by fastforce
  with m keepsD[OF assms(2), of s] keepsD[OF assms(1), of ?e t]
  show "f (snd (process_message settle rq m s)) = f s"
    by (cases q) (simp_all add: process_message_run)
qed

section \<open>What a computation preserves\<close>

text \<open>\<open>preserves I m\<close>: \<open>m\<close> leads from states satisfying \<open>I\<close> to such states, on any path.\<close>

named_theorems preserves_rules

definition preserves :: "('s \<Rightarrow> bool) \<Rightarrow> ('s, 'a) py \<Rightarrow> bool" where
  "preserves I m \<longleftrightarrow> (\<forall>s. I s \<longrightarrow> I (snd (m s)))"

lemma preservesD: "preserves I m \<Longrightarrow> I s \<Longrightarrow> I (snd (m s))"
  by (simp add: preserves_def)

lemma preservesI: "(\<And>s. I s \<Longrightarrow> I (snd (m s))) \<Longrightarrow> preserves I m"
  by (simp add: preserves_def)

lemma keeps_preserves: "keeps I m \<Longrightarrow> preserves I m"
  by (simp add: keeps_def preserves_def)

lemma preserves_return [preserves_rules]: "preserves I (py_return x)"
  and preserves_raise [preserves_rules]: "preserves I (py_raise e)"
  and preserves_read [preserves_rules]: "preserves I (py_read g)"
  and preserves_lift [preserves_rules]: "preserves I (py_lift r)"
  by (simp_all add: preserves_def py_simps)

lemma preserves_modify [preserves_rules]: "(\<And>s. I s \<Longrightarrow> I (g s)) \<Longrightarrow> preserves I (py_modify g)"
  by (simp add: preserves_def py_simps)

lemma preserves_bind [preserves_rules]:
  assumes "preserves I m" "\<And>x. preserves I (n x)"
  shows "preserves I (py_bind m n)"
proof (rule preservesI)
  fix s
  assume "I s"
  obtain r t where "m s = (r, t)" by fastforce
  with preservesD[OF assms(1) \<open>I s\<close>] preservesD[OF assms(2), of t] show "I (snd (py_bind m n s))"
    by (cases r) (simp_all add: py_bind_run)
qed

lemma preserves_then [preserves_rules]: "preserves I m \<Longrightarrow> preserves I n \<Longrightarrow> preserves I (py_then m n)"
  unfolding py_then_def by (rule preserves_bind)

lemma preserves_if [preserves_rules]: "preserves I m \<Longrightarrow> preserves I n \<Longrightarrow> preserves I (py_if b m n)"
  by (simp add: preserves_def py_if_run)

lemma preserves_try [preserves_rules]:
  assumes "preserves I m" "\<And>e n. h e = Some n \<Longrightarrow> preserves I n"
  shows "preserves I (py_try m h)"
proof (rule preservesI)
  fix s
  assume "I s"
  obtain r t where "m s = (r, t)" by fastforce
  with preservesD[OF assms(1) \<open>I s\<close>] preservesD[OF assms(2), of _ _ t] show "I (snd (py_try m h s))"
    by (auto simp: py_try_run split: sum.splits option.splits)
qed

lemma preserves_except [preserves_rules]:
  "preserves I m \<Longrightarrow> (\<And>e. preserves I (h e)) \<Longrightarrow> preserves I (py_except m h)"
  by (rule preserves_try) (auto split: if_splits)

lemma preserves_finally [preserves_rules]:
  assumes "preserves I m" "preserves I n"
  shows "preserves I (py_finally m n)"
proof (rule preservesI)
  fix s
  assume "I s"
  obtain r t where "m s = (r, t)" by fastforce
  moreover obtain q u where "n t = (q, u)" by fastforce
  ultimately show "I (snd (py_finally m n s))"
    using preservesD[OF assms(1) \<open>I s\<close>] preservesD[OF assms(2), of t]
    by (cases q) (simp_all add: py_finally_run)
qed

lemma preserves_each [preserves_rules]: "(\<And>x. preserves I (g x)) \<Longrightarrow> preserves I (py_each g xs)"
  by (induction xs) (simp_all add: py_each.simps preserves_rules)

lemma preserves_process [preserves_rules]:
  assumes "\<And>e. preserves I (io e)" "preserves I m"
  shows "preserves I (process_message settle rq m)"
proof (rule preservesI)
  fix s
  assume "I s"
  obtain r t where m: "m s = (r, t)" by fastforce
  let ?e = "settle rq (case r of Inl e \<Rightarrow> Some e | Inr _ \<Rightarrow> None)"
  obtain q u where "io ?e t = (q, u)" by fastforce
  with m preservesD[OF assms(2) \<open>I s\<close>] preservesD[OF assms(1), of t ?e]
  show "I (snd (process_message settle rq m s))"
    by (cases q) (simp_all add: process_message_run)
qed

section \<open>Systems that keep an invariant\<close>

text \<open>
  A component driven by events: a step function and an invariant every step keeps, hence kept
  over every sequence of events, whatever their order. Each stateful component interprets it.
\<close>

definition run_events :: "('s \<Rightarrow> 'l \<Rightarrow> 's) \<Rightarrow> 's \<Rightarrow> 'l list \<Rightarrow> 's" where
  "run_events step s ls = foldl step s ls"

lemma run_events_Nil [simp]: "run_events step s [] = s"
  by (simp add: run_events_def)

lemma run_events_Cons [simp]: "run_events step s (l # ls) = run_events step (step s l) ls"
  by (simp add: run_events_def)

lemma run_events_append [simp]:
  "run_events step s (ls @ ms) = run_events step (run_events step s ls) ms"
  by (simp add: run_events_def)

locale invariant_system =
  fixes step :: "'s \<Rightarrow> 'l \<Rightarrow> 's"
    and inv :: "'s \<Rightarrow> bool"
  assumes step_inv: "inv s \<Longrightarrow> inv (step s l)"
begin

lemma run_inv: "inv s \<Longrightarrow> inv (run_events step s ls)"
  by (induction ls arbitrary: s) (auto intro: step_inv)

lemma run_prefix_inv: "inv s \<Longrightarrow> inv (run_events step s (take n ls))"
  by (rule run_inv)

end

end
