(* ===== verification/Merge_In_Place.thy ===== *)
theory Merge_In_Place
  imports Configuration
begin

text \<open>
  The merge of configuration files as the interpreter runs it (\<open>configuration/merge.py\<close>): \<open>_smart_merge\<close>
  assigns entries of a dictionary that is an object in a store, and puts objects of the later document
  into the earlier one. Configuration has the merge as a function on trees; here both are related.

  A document without YAML aliases is a tree of dictionaries, none of which is reached twice
  (\<open>represents\<close>); on such documents the merge in place computes the merge of trees. An alias
  (\<open>*name\<close>) makes one object appear in two places, and then a merge into one of them shows in the
  other.
\<close>

section \<open>Objects\<close>

datatype object = ODict "(string \<times> nat) list" | OList "nat list" | OLeaf pyval

type_synonym store = "nat \<Rightarrow> object option"

definition dict_at :: "store \<Rightarrow> nat \<Rightarrow> (string \<times> nat) list option" where
  "dict_at h a = (case h a of Some (ODict d) \<Rightarrow> Some d | _ \<Rightarrow> None)"

text \<open>The value an object stands for, followed to a depth.\<close>

fun read_object :: "nat \<Rightarrow> store \<Rightarrow> nat \<Rightarrow> pyval option" where
  "read_object 0 h a = None"
| "read_object (Suc n) h a =
     (case h a of
        None \<Rightarrow> None
      | Some (OLeaf v) \<Rightarrow> Some v
      | Some (OList xs) \<Rightarrow> map_option VList (those (map (read_object n h) xs))
      | Some (ODict d) \<Rightarrow>
          map_option VDict (those (map (\<lambda>(k, x). map_option (Pair k) (read_object n h x)) d)))"

section \<open>The merge\<close>

text \<open>
  \<open>n\<close> is the recursion the interpreter allows; beyond it there is no answer (\<open>None\<close>). The entries of the
  first dictionary are read again for every key, since an earlier key may have changed them.
\<close>

definition only_entries :: "(string \<times> nat) list \<Rightarrow> (string \<times> nat) list \<Rightarrow> (string \<times> nat) list" where
  "only_entries d1 d2 = filter (\<lambda>(k, x). dget d1 k = None) d2"

definition shared_keys :: "(string \<times> nat) list \<Rightarrow> (string \<times> nat) list \<Rightarrow> string list" where
  "shared_keys d1 d2 = filter (\<lambda>k. dget d2 k \<noteq> None) (map fst d1)"

type_synonym merge_state = "store \<times> string list \<times> string list"

function (sequential) merge_object :: "nat \<Rightarrow> store \<Rightarrow> nat \<Rightarrow> nat \<Rightarrow> merge_state option"
  and merge_shared :: "nat \<Rightarrow> nat \<Rightarrow> nat \<Rightarrow> string list \<Rightarrow> merge_state \<Rightarrow> merge_state option" where
  "merge_object 0 h a b = None"
| "merge_object (Suc n) h a b =
     (case (dict_at h a, dict_at h b) of
        (Some d1, Some d2) \<Rightarrow>
          merge_shared n a b (shared_keys d1 d2) (h(a \<mapsto> ODict (d1 @ only_entries d1 d2)), [], [])
      | _ \<Rightarrow> None)"
| "merge_shared n a b [] st = Some st"
| "merge_shared n a b (k # ks) (h, errors, warnings) =
     (case (Option.bind (dict_at h a) (\<lambda>d. dget d k), Option.bind (dict_at h b) (\<lambda>d. dget d k)) of
        (Some x, Some y) \<Rightarrow>
          if dict_at h x \<noteq> None \<and> dict_at h y \<noteq> None then
            (case merge_object n h x y of
               None \<Rightarrow> None
             | Some (h1, e, w) \<Rightarrow>
                 merge_shared n a b ks (h1, errors @ under_key k e, warnings @ under_key k w))
          else (case (read_object n h x, read_object n h y) of
             (Some v, Some u) \<Rightarrow>
               if py_eq v u then merge_shared n a b ks (h, errors, warnings @ [k])
               else merge_shared n a b ks (h, errors @ [k], warnings)
           | _ \<Rightarrow> None)
      | _ \<Rightarrow> None)"
  by pat_completeness auto
termination
  by (relation "measures [\<lambda>x. case x of Inl (n, _) \<Rightarrow> n | Inr (n, _) \<Rightarrow> n,
      \<lambda>x. case x of Inl _ \<Rightarrow> 0 | Inr (n, a, b, ks, _) \<Rightarrow> Suc (length ks)]") auto

text \<open>\<open>merge(config_files)\<close>: every document has been loaded into the store, or loading it raised.\<close>

fun merge_files :: "nat \<Rightarrow> nat \<Rightarrow> (exn + nat) list \<Rightarrow> store \<Rightarrow> (exn + store) option" where
  "merge_files n config [] h = Some (Inr h)"
| "merge_files n config (Inl e # docs) h = Some (Inl e)"
| "merge_files n config (Inr doc # docs) h =
     (case h doc of
        Some (OLeaf VNone) \<Rightarrow> merge_files n config docs h
      | Some (ODict d) \<Rightarrow>
          (case merge_object n h config doc of
             None \<Rightarrow> None
           | Some (h1, errors, warnings) \<Rightarrow>
               if errors \<noteq> [] then
                 Some (Inl (ConfigMergeError ''Configuration file merge has failed due to param definition inconsistency.''))
               else merge_files n config docs h1)
      | _ \<Rightarrow> Some (Inl (AttributeError ''keys'')))"

section \<open>Documents without aliases\<close>

fun is_list :: "pyval \<Rightarrow> bool" where
  "is_list (VList xs) = True"
| "is_list _ = False"

text \<open>
  \<open>represents h a v F\<close>: the object \<open>a\<close> stands for \<open>v\<close>, and \<open>F\<close> are the dictionaries it is made of; the
  entries of a dictionary have no dictionary in common with each other or with itself. Scalars and
  lists of them are never changed by the merge, so they may be shared, as \<open>None\<close> and small integers are.
\<close>

inductive represents :: "store \<Rightarrow> nat \<Rightarrow> pyval \<Rightarrow> nat set \<Rightarrow> bool" for h where
  leaf: "h a = Some (OLeaf v) \<Longrightarrow> \<not> is_dict v \<Longrightarrow> \<not> is_list v \<Longrightarrow> represents h a v {}"
| list: "h a = Some (OList xs) \<Longrightarrow> length vs = length xs \<Longrightarrow>
    (\<forall>i < length xs. represents h (xs ! i) (vs ! i) (F i)) \<Longrightarrow>
    represents h a (VList vs) (\<Union>i < length xs. F i)"
| dict: "h a = Some (ODict d) \<Longrightarrow> map fst d = map fst D \<Longrightarrow> distinct (map fst D) \<Longrightarrow>
    (\<forall>k x v. dget d k = Some x \<longrightarrow> dget D k = Some v \<longrightarrow> represents h x v (F k)) \<Longrightarrow>
    (\<forall>k k'. k \<noteq> k' \<longrightarrow> F k \<inter> F k' = {}) \<Longrightarrow> (\<forall>k. k \<notin> fst ` set D \<longrightarrow> F k = {}) \<Longrightarrow> (\<forall>k. a \<notin> F k) \<Longrightarrow>
    represents h a (VDict D) (insert a (\<Union>k. F k))"

lemma represents_dict_at: "represents h a v F \<Longrightarrow> (dict_at h a \<noteq> None) = is_dict v"
  by (erule represents.cases) (auto simp: dict_at_def)

lemma same_keys_dget: "map fst d = map fst D \<Longrightarrow> dget d k = None \<longleftrightarrow> dget D k = None"
  by (metis list.set_map map_of_eq_None_iff)

lemma represents_dicts: "represents h a v F \<Longrightarrow> x \<in> F \<Longrightarrow> dict_at h x \<noteq> None"
proof (induction rule: represents.induct)
  case (dict a d D F)
  show ?case
  proof (cases "x = a")
    case True
    with dict.hyps(1) show ?thesis by (simp add: dict_at_def)
  next
    case False
    with dict.prems obtain k where k: "x \<in> F k" by auto
    with dict.hyps(5) have "dget D k \<noteq> None" by (auto simp: map_of_eq_None_iff)
    then obtain y v where "dget d k = Some y" "dget D k = Some v"
      using same_keys_dget[OF dict.hyps(2), of k] by (metis not_Some_eq)
    with dict.IH k show ?thesis by blast
  qed
qed auto

text \<open>Only dictionaries are changed.\<close>

definition same_others :: "store \<Rightarrow> store \<Rightarrow> bool" where
  "same_others h h' \<longleftrightarrow> (\<forall>x. dict_at h x = None \<longrightarrow> h' x = h x)"

lemma same_othersI: "represents h a v F \<Longrightarrow> \<forall>z. z \<notin> F \<longrightarrow> h' z = h z \<Longrightarrow> same_others h h'"
  unfolding same_others_def using represents_dicts by blast

lemma represents_frame:
  "represents h a v F \<Longrightarrow> \<forall>x \<in> F. h' x = h x \<Longrightarrow> same_others h h' \<Longrightarrow> represents h' a v F"
proof (induction rule: represents.induct)
  case (list a xs vs F)
  have "h' a = h a" using list.prems(2) list.hyps(1) by (simp add: same_others_def dict_at_def)
  with list show ?case by (intro represents.list) auto
next
  case (dict a d D F)
  have "represents h' x v (F k)" if "dget d k = Some x" "dget D k = Some v" for k x v
    using dict.IH dict.prems that by blast
  with dict show ?case by (intro represents.dict) auto
qed (simp add: represents.leaf same_others_def dict_at_def)

definition entries_rep :: "store \<Rightarrow> (string \<times> nat) list \<Rightarrow> pydict \<Rightarrow> (string \<Rightarrow> nat set) \<Rightarrow> bool" where
  "entries_rep h d D F \<longleftrightarrow> map fst d = map fst D \<and> distinct (map fst D) \<and>
     (\<forall>k x v. dget d k = Some x \<longrightarrow> dget D k = Some v \<longrightarrow> represents h x v (F k)) \<and>
     (\<forall>k k'. k \<noteq> k' \<longrightarrow> F k \<inter> F k' = {}) \<and> (\<forall>k. k \<notin> fst ` set D \<longrightarrow> F k = {})"

lemma represents_dict_iff:
  "represents h a (VDict D) P \<longleftrightarrow>
     (\<exists>d F. h a = Some (ODict d) \<and> entries_rep h d D F \<and> (\<forall>k. a \<notin> F k) \<and> P = insert a (\<Union>k. F k))"
proof
  assume "represents h a (VDict D) P"
  then show "\<exists>d F. h a = Some (ODict d) \<and> entries_rep h d D F \<and> (\<forall>k. a \<notin> F k) \<and> P = insert a (\<Union>k. F k)"
    by (cases rule: represents.cases) (auto simp: entries_rep_def)
next
  assume "\<exists>d F. h a = Some (ODict d) \<and> entries_rep h d D F \<and> (\<forall>k. a \<notin> F k) \<and> P = insert a (\<Union>k. F k)"
  then show "represents h a (VDict D) P" by (auto simp: entries_rep_def intro: represents.dict)
qed

lemma entries_rep_get:
  assumes "entries_rep h d D F" "dget D k = Some v"
  obtains x where "dget d k = Some x" "represents h x v (F k)"
  using assms same_keys_dget[of d D k] unfolding entries_rep_def by (metis not_Some_eq)

lemma entries_rep_frame:
  "entries_rep h d D F \<Longrightarrow> \<forall>k. \<forall>x \<in> F k. h' x = h x \<Longrightarrow> same_others h h' \<Longrightarrow> entries_rep h' d D F"
  unfolding entries_rep_def by (metis represents_frame)

text \<open>Changing what is under one key, within objects no other entry is made of.\<close>

lemma dset_keys: "k \<in> fst ` set D \<Longrightarrow> map fst (dset k w D) = map fst D"
  by (induction D) auto

lemma entries_rep_update:
  assumes "entries_rep h d D F" "dget d k = Some x" "represents h' x w S"
    and "\<forall>j. j \<noteq> k \<longrightarrow> F j \<inter> S = {} \<and> (\<forall>z \<in> F j. h' z = h z)" and "same_others h h'"
  shows "entries_rep h' d (dset k w D) (F(k := S))"
proof -
  have k: "k \<in> fst ` set D"
    using assms(1,2) by (metis entries_rep_def list.set_map map_of_SomeD option.distinct(1) map_of_eq_None_iff)
  have "represents h' y v ((F(k := S)) j)" if "dget d j = Some y" "dget (dset k w D) j = Some v" for j y v
  proof (cases "j = k")
    case False
    with that assms(1) have "represents h y v (F j)" by (auto simp: entries_rep_def dict_simps)
    with False assms(4,5) show ?thesis by (auto intro: represents_frame)
  qed (use that assms(2,3) in \<open>simp add: dict_simps\<close>)
  note rep = this
  have keys: "map fst (dset k w D) = map fst D" by (rule dset_keys[OF k])
  then have keyset: "fst ` set (dset k w D) = fst ` set D" by (metis list.set_map)
  from assms(1) have base: "map fst d = map fst D" "distinct (map fst D)"
    "\<forall>j j'. j \<noteq> j' \<longrightarrow> F j \<inter> F j' = {}" "\<forall>j. j \<notin> fst ` set D \<longrightarrow> F j = {}"
    by (simp_all add: entries_rep_def)
  show ?thesis
    unfolding entries_rep_def keys keyset
    using base rep assms(4) k by (intro conjI allI impI) (simp_all, blast+)
qed


section \<open>Reading back\<close>

lemma those_map_Some: "those (map Some xs) = Some xs"
  by (induction xs) simp_all

lemma read_entries:
  assumes "map fst d = map fst D" "distinct (map fst D)"
    and "\<forall>k \<in> fst ` set D. \<forall>x v. dget d k = Some x \<longrightarrow> dget D k = Some v \<longrightarrow> read_object n h x = Some v"
  shows "those (map (\<lambda>(k, x). map_option (Pair k) (read_object n h x)) d) = Some D"
proof -
  have len: "length d = length D" using assms(1) by (metis length_map)
  have "(case d ! i of (k, x) \<Rightarrow> map_option (Pair k) (read_object n h x)) = Some (D ! i)"
    if "i < length D" for i
  proof -
    have "fst (d ! i) = fst (D ! i)" using arg_cong[OF assms(1), of "\<lambda>ks. ks ! i"] len that by simp
    then obtain k x v where p: "d ! i = (k, x)" "D ! i = (k, v)"
      by (cases "d ! i"; cases "D ! i") simp
    have "(k, x) \<in> set d" "(k, v) \<in> set D" using p len that by (metis nth_mem)+
    moreover from this have "k \<in> fst ` set D" by force
    ultimately have "dget d k = Some x" "dget D k = Some v" "k \<in> fst ` set D"
      using assms(1,2) by (simp_all add: map_of_eq_Some_iff)
    from assms(3)[rule_format, OF this(3,1,2)] p show ?thesis by simp
  qed
  then have "map (\<lambda>(k, x). map_option (Pair k) (read_object n h x)) d = map Some D"
    using len by (intro nth_equalityI) simp_all
  then show ?thesis by (simp add: those_map_Some)
qed

lemma from_Suc: "eventually (\<lambda>n. P (Suc n)) sequentially \<Longrightarrow> eventually P sequentially"
  by (simp only: eventually_sequentially_Suc[where P = P])

lemma represents_reads:
  "represents h a v F \<Longrightarrow> eventually (\<lambda>n. read_object n h a = Some v) sequentially"
proof (induction rule: represents.induct)
  case (leaf a v)
  have "eventually (\<lambda>n. read_object (Suc n) h a = Some v) sequentially" using leaf by simp
  then show ?case by (rule from_Suc)
next
  case (list a xs vs F)
  have "eventually (\<lambda>n. \<forall>i \<in> {..<length xs}. read_object n h (xs ! i) = Some (vs ! i)) sequentially"
    using list.IH by (intro eventually_ball_finite) auto
  then have "eventually (\<lambda>n. read_object (Suc n) h a = Some (VList vs)) sequentially"
  proof (rule eventually_mono)
    fix n
    assume "\<forall>i \<in> {..<length xs}. read_object n h (xs ! i) = Some (vs ! i)"
    then have "map (read_object n h) xs = map Some vs"
      using list.hyps(2) by (intro nth_equalityI) simp_all
    then show "read_object (Suc n) h a = Some (VList vs)" using list.hyps(1) by (simp add: those_map_Some)
  qed
  then show ?case by (rule from_Suc)
next
  case (dict a d D F)
  have "eventually (\<lambda>n. \<forall>k \<in> fst ` set D. \<forall>x v. dget d k = Some x \<longrightarrow> dget D k = Some v \<longrightarrow>
      read_object n h x = Some v) sequentially"
  proof (intro eventually_ball_finite ballI)
    fix k
    assume "k \<in> fst ` set D"
    then obtain x v where "dget d k = Some x" "dget D k = Some v"
      using same_keys_dget[OF dict.hyps(2)] by (metis map_of_eq_None_iff not_Some_eq)
    with dict.IH show "eventually (\<lambda>n. \<forall>x v. dget d k = Some x \<longrightarrow> dget D k = Some v \<longrightarrow>
        read_object n h x = Some v) sequentially" by auto
  qed simp
  then have "eventually (\<lambda>n. read_object (Suc n) h a = Some (VDict D)) sequentially"
    by (rule eventually_mono) (use dict.hyps in \<open>simp add: read_entries\<close>)
  then show ?case by (rule from_Suc)
qed

section \<open>The merge in place computes the merge of trees\<close>

text \<open>What is proved of the merge into a dictionary, and what the merge of its entries relies on.\<close>

definition merges_in_place :: "pydict \<Rightarrow> bool" where
  "merges_in_place A \<longleftrightarrow> (\<forall>h x y B F G.
     represents h x (VDict A) F \<longrightarrow> represents h y (VDict B) G \<longrightarrow> F \<inter> G = {} \<longrightarrow>
     (\<exists>h' F'. eventually (\<lambda>n. merge_object n h x y = Some (h', merge_errors A B, merge_warnings A B)) sequentially \<and>
        represents h' x (VDict (merged A B)) F' \<and> F' \<subseteq> F \<union> G \<and> (\<forall>z. z \<notin> F \<longrightarrow> h' z = h z)))"

lemma merges_in_placeE:
  assumes "merges_in_place A" "represents h x (VDict A) F" "represents h y (VDict B) G" "F \<inter> G = {}"
  obtains h' F' where
    "eventually (\<lambda>n. merge_object n h x y = Some (h', merge_errors A B, merge_warnings A B)) sequentially"
    "represents h' x (VDict (merged A B)) F'" "F' \<subseteq> F \<union> G" "\<forall>z. z \<notin> F \<longrightarrow> h' z = h z"
  using assms(1)[unfolded merges_in_place_def, rule_format, OF assms(2-4)] by blast

text \<open>The effect of merging \<open>v2\<close> into the object of \<open>v1\<close>, for two values under a shared key \<open>k\<close>.\<close>

lemma merge_one_key:
  assumes rep: "represents h x v1 F" "represents h y v2 G" "F \<inter> G = {}"
    and at: "Option.bind (dict_at h a) (\<lambda>d. dget d k) = Some x" "Option.bind (dict_at h b) (\<lambda>d. dget d k) = Some y"
    and "dget D2 k = Some v2"
    and IH: "\<forall>A. v1 = VDict A \<longrightarrow> merges_in_place A"
  shows "\<exists>h' F'. eventually (\<lambda>n. merge_shared n a b (k # ks) (h, es, ws) =
        merge_shared n a b ks (h', es @ fst (snd (merge_entry D2 (k, v1))),
          ws @ snd (snd (merge_entry D2 (k, v1))))) sequentially \<and>
      represents h' x (snd (fst (merge_entry D2 (k, v1)))) F' \<and> F' \<subseteq> F \<union> G \<and> (\<forall>z. z \<notin> F \<longrightarrow> h' z = h z)"
proof (cases "both_dict v1 v2")
  case True
  then obtain A B where v: "v1 = VDict A" "v2 = VDict B"
    by (cases v1; cases v2) (auto simp: both_dict_def)
  then have dicts: "dict_at h x \<noteq> None" "dict_at h y \<noteq> None"
    using represents_dict_at[OF rep(1)] represents_dict_at[OF rep(2)] v by simp_all
  obtain h' F' where h': "eventually (\<lambda>n. merge_object n h x y =
      Some (h', merge_errors A B, merge_warnings A B)) sequentially"
    "represents h' x (VDict (merged A B)) F'" "F' \<subseteq> F \<union> G" "\<forall>z. z \<notin> F \<longrightarrow> h' z = h z"
    using merges_in_placeE[OF IH[rule_format, OF v(1)] rep(1)[unfolded v] rep(2)[unfolded v] rep(3)] .
  have "eventually (\<lambda>n. merge_shared n a b (k # ks) (h, es, ws) =
      merge_shared n a b ks (h', es @ under_key k (merge_errors A B), ws @ under_key k (merge_warnings A B)))
      sequentially"
    using h'(1) by (rule eventually_mono) (use at dicts in simp)
  with h'(2-4) assms(6) v show ?thesis
    by (intro exI[of _ h'] exI[of _ F']) (simp add: merge_entry_dicts)
next
  case False
  then have kinds: "\<not> (dict_at h x \<noteq> None \<and> dict_at h y \<noteq> None)"
    using represents_dict_at[OF rep(1)] represents_dict_at[OF rep(2)]
    by (cases v1; cases v2) (auto simp: both_dict_def)
  have "eventually (\<lambda>n. read_object n h x = Some v1 \<and> read_object n h y = Some v2) sequentially"
    using represents_reads[OF rep(1)] represents_reads[OF rep(2)] by (rule eventually_conj)
  then have "eventually (\<lambda>n. merge_shared n a b (k # ks) (h, es, ws) =
      merge_shared n a b ks (h, es @ fst (snd (merge_entry D2 (k, v1))),
        ws @ snd (snd (merge_entry D2 (k, v1))))) sequentially"
    by (rule eventually_mono) (use at kinds assms(6) False in \<open>auto simp: merge_entry_leaf\<close>)
  moreover have "snd (fst (merge_entry D2 (k, v1))) = v1"
    using assms(6) False by (simp add: merge_entry_leaf)
  ultimately show ?thesis using rep(1) by (intro exI[of _ h] exI[of _ F]) simp
qed

text \<open>The dictionary once the keys \<open>ks\<close> have been merged.\<close>

definition merged_on :: "pydict \<Rightarrow> string set \<Rightarrow> pydict \<Rightarrow> pydict" where
  "merged_on D2 K V = map (\<lambda>(k, v). if k \<in> K then fst (merge_entry D2 (k, v)) else (k, v)) V"

lemma merged_on_none: "merged_on D2 {} V = V"
  by (simp add: merged_on_def)

lemma merged_on_step:
  assumes "distinct (map fst V)" "dget V k = Some v" "k \<notin> K"
  shows "merged_on D2 K (dset k (snd (fst (merge_entry D2 (k, v)))) V) = merged_on D2 (insert k K) V"
  using assms
proof (induction V)
  case (Cons p V)
  obtain j u where p: "p = (j, u)" by (cases p)
  show ?case
  proof (cases "j = k")
    case True
    with Cons.prems p have v: "u = v" "k \<notin> fst ` set V" by auto
    then have "merged_on D2 K V = merged_on D2 (insert k K) V"
      unfolding merged_on_def by (intro map_cong refl) force
    moreover obtain w where "fst (merge_entry D2 (k, v)) = (k, w)"
      using merge_entry_key[of D2 "(k, v)"] by (metis fst_conv prod.collapse)
    ultimately show ?thesis using p True v Cons.prems(3) by (simp add: merged_on_def)
  next
    case False
    with Cons p show ?thesis by (simp add: merged_on_def)
  qed
qed simp

lemma merged_is_merged_on:
  "merged D1 D2 = merged_on D2 {k \<in> fst ` set D1. dget D2 k \<noteq> None} (D1 @ only_keys D1 D2)"
proof -
  let ?K = "{k \<in> fst ` set D1. dget D2 k \<noteq> None}"
  have "merged_on D2 ?K D1 = map (\<lambda>p. fst (merge_entry D2 p)) D1"
    unfolding merged_on_def by (intro map_cong refl) (force simp: merge_entry_absent)
  moreover have "merged_on D2 ?K (only_keys D1 D2) = only_keys D1 D2"
    unfolding merged_on_def
    by (rule map_idI) (auto simp: only_keys_def map_of_eq_None_iff)
  ultimately show ?thesis by (simp add: merged_def smart_merge_unfold merged_on_def)
qed

text \<open>The reports of the shared keys are all there is to report.\<close>

lemma concat_over_keys:
  assumes "distinct (map fst D)" and "\<And>k v. \<not> P k \<Longrightarrow> g (k, v) = []"
  shows "concat (map (\<lambda>k. g (k :: string, the (dget D k)) :: 'b list) (filter P (map fst D))) = concat (map g D)"
proof -
  let ?g = "\<lambda>k. g (k, the (dget D k))"
  have "concat (map f (filter P ks)) = concat (map f ks)"
    if "\<And>k. \<not> P k \<Longrightarrow> f k = []" for f :: "string \<Rightarrow> 'b list" and ks
    using that by (induction ks) auto
  then have "concat (map ?g (filter P (map fst D))) = concat (map ?g (map fst D))"
    using assms(2) by simp
  also have "map ?g (map fst D) = map g D" using assms(1) by (auto simp: comp_def)
  finally show ?thesis .
qed

text \<open>
  The loop over the shared keys. \<open>F\<close> and \<open>G\<close> are the objects under the keys of the two dictionaries; those
  of the keys still to come are in no other entry.
\<close>

lemma merge_shared_refines:
  assumes "distinct ks"
    and "dict_at h a = Some d" "dict_at h b = Some e"
    and "entries_rep h d V F" "entries_rep h e D2 G"
    and "\<forall>k \<in> set ks. dget V k \<noteq> None \<and> dget D2 k \<noteq> None"
    and "\<forall>k \<in> set ks. a \<notin> F k \<and> b \<notin> F k \<and> (\<forall>j. F k \<inter> G j = {}) \<and> (\<forall>j. j \<noteq> k \<longrightarrow> F j \<inter> G k = {})"
    and "\<forall>k \<in> set ks. \<forall>A. dget V k = Some (VDict A) \<longrightarrow> merges_in_place A"
  shows "\<exists>h' F'. eventually (\<lambda>n. merge_shared n a b ks (h, es, ws) = Some (h',
        es @ concat (map (\<lambda>k. fst (snd (merge_entry D2 (k, the (dget V k))))) ks),
        ws @ concat (map (\<lambda>k. snd (snd (merge_entry D2 (k, the (dget V k))))) ks))) sequentially \<and>
      entries_rep h' d (merged_on D2 (set ks) V) F' \<and>
      (\<forall>k. F' k \<subseteq> F k \<union> (if k \<in> set ks then G k else {})) \<and>
      (\<forall>z. z \<notin> (\<Union>k \<in> set ks. F k) \<longrightarrow> h' z = h z)"
  using assms
proof (induction ks arbitrary: h V F es ws)
  case Nil
  then show ?case by (intro exI[of _ h] exI[of _ F]) (simp add: merged_on_none)
next
  case (Cons k ks)
  obtain v1 v2 where v: "dget V k = Some v1" "dget D2 k = Some v2" using Cons.prems(6) by auto
  obtain x where x: "dget d k = Some x" "represents h x v1 (F k)"
    using entries_rep_get[OF Cons.prems(4) v(1)] .
  obtain y where y: "dget e k = Some y" "represents h y v2 (G k)"
    using entries_rep_get[OF Cons.prems(5) v(2)] .
  have apart: "a \<notin> F k" "b \<notin> F k" "\<forall>j. F k \<inter> G j = {}" "\<forall>j. j \<noteq> k \<longrightarrow> F j \<inter> G k = {}"
    using Cons.prems(7) by simp_all
  let ?m = "merge_entry D2 (k, v1)"
  let ?w = "snd (fst ?m)"
  have disj: "\<forall>i j. i \<noteq> j \<longrightarrow> F i \<inter> F j = {}" "\<forall>i j. i \<noteq> j \<longrightarrow> G i \<inter> G j = {}"
    and dV: "distinct (map fst V)"
    using Cons.prems(4,5) by (simp_all add: entries_rep_def)
  have under: "Option.bind (dict_at h a) (\<lambda>d. dget d k) = Some x" "Option.bind (dict_at h b) (\<lambda>d. dget d k) = Some y"
    using Cons.prems(2,3) x(1) y(1) by simp_all
  have ih: "\<forall>A. v1 = VDict A \<longrightarrow> merges_in_place A" using Cons.prems(8) v(1) by simp
  have "F k \<inter> G k = {}" using apart by blast
  note key = merge_one_key[OF x(2) y(2) this under v(2) ih, of ks es ws]
  obtain h1 S where step: "eventually (\<lambda>n. merge_shared n a b (k # ks) (h, es, ws) =
      merge_shared n a b ks (h1, es @ fst (snd ?m), ws @ snd (snd ?m))) sequentially"
    and S: "represents h1 x ?w S" "S \<subseteq> F k \<union> G k" and frame: "\<forall>z. z \<notin> F k \<longrightarrow> h1 z = h z"
    using key by (elim exE conjE) (rule that)
  let ?V = "dset k ?w V"
  let ?F = "F(k := S)"
  have k: "k \<notin> set ks" and dks: "distinct ks" using Cons.prems(1) by simp_all
  have other: "dget ?V j = dget V j" "?F j = F j" if "j \<in> set ks" for j
    using that k by (auto simp: dict_simps)
  have same: "same_others h h1" using x(2) frame by (rule same_othersI)
  have "F j \<inter> S = {} \<and> (\<forall>z \<in> F j. h1 z = h z)" if "j \<noteq> k" for j
  proof -
    have "F j \<inter> F k = {}" "F j \<inter> G k = {}" using that disj(1) apart(4) by simp_all
    with S(2) frame show ?thesis by blast
  qed
  then have entries: "entries_rep h1 d ?V ?F"
    using entries_rep_update[OF Cons.prems(4) x(1) S(1)] same by simp
  have entries2: "entries_rep h1 e D2 G"
    using Cons.prems(5) by (rule entries_rep_frame) (use frame apart(3) same in blast)+
  have ats: "dict_at h1 a = Some d" "dict_at h1 b = Some e"
    using Cons.prems(2,3) frame apart by (simp_all add: dict_at_def)
  have rest: "\<forall>j \<in> set ks. a \<notin> ?F j \<and> b \<notin> ?F j \<and> (\<forall>i. ?F j \<inter> G i = {}) \<and> (\<forall>i. i \<noteq> j \<longrightarrow> ?F i \<inter> G j = {})"
  proof
    fix j
    assume j: "j \<in> set ks"
    then have "j \<noteq> k" using k by auto
    then have "F k \<inter> G j = {}" "G k \<inter> G j = {}" using apart(3) disj(2) by simp_all
    then have "S \<inter> G j = {}" using S(2) by blast
    with \<open>j \<noteq> k\<close> Cons.prems(7) j show "a \<notin> ?F j \<and> b \<notin> ?F j \<and> (\<forall>i. ?F j \<inter> G i = {}) \<and> (\<forall>i. i \<noteq> j \<longrightarrow> ?F i \<inter> G j = {})"
      by simp
  qed
  have later: "\<forall>j \<in> set ks. dget ?V j \<noteq> None \<and> dget D2 j \<noteq> None"
    "\<forall>j \<in> set ks. \<forall>A. dget ?V j = Some (VDict A) \<longrightarrow> merges_in_place A"
    using Cons.prems(6,8) other(1) by simp_all
  obtain h2 F2 where ih: "eventually (\<lambda>n. merge_shared n a b ks (h1, es @ fst (snd ?m), ws @ snd (snd ?m)) =
      Some (h2, (es @ fst (snd ?m)) @ concat (map (\<lambda>j. fst (snd (merge_entry D2 (j, the (dget ?V j))))) ks),
        (ws @ snd (snd ?m)) @ concat (map (\<lambda>j. snd (snd (merge_entry D2 (j, the (dget ?V j))))) ks))) sequentially"
    "entries_rep h2 d (merged_on D2 (set ks) ?V) F2"
    "\<forall>j. F2 j \<subseteq> ?F j \<union> (if j \<in> set ks then G j else {})"
    "\<forall>z. z \<notin> (\<Union>j \<in> set ks. ?F j) \<longrightarrow> h2 z = h1 z"
    using Cons.IH[OF dks ats entries entries2 later(1) rest later(2), of "es @ fst (snd ?m)" "ws @ snd (snd ?m)"]
    by (elim exE conjE) (rule that)
  have reports: "map (\<lambda>j. f (merge_entry D2 (j, the (dget ?V j)))) ks = map (\<lambda>j. f (merge_entry D2 (j, the (dget V j)))) ks"
    for f :: "_ \<Rightarrow> string list"
    using other(1) by simp
  show ?case
  proof (intro exI[of _ h2] exI[of _ F2] conjI)
    show "eventually (\<lambda>n. merge_shared n a b (k # ks) (h, es, ws) = Some (h2,
        es @ concat (map (\<lambda>k. fst (snd (merge_entry D2 (k, the (dget V k))))) (k # ks)),
        ws @ concat (map (\<lambda>k. snd (snd (merge_entry D2 (k, the (dget V k))))) (k # ks)))) sequentially"
      using step ih(1)
      by eventually_elim (simp add: v(1) reports[of "\<lambda>r. fst (snd r)"] reports[of "\<lambda>r. snd (snd r)"] del: fun_upd_apply)
    show "entries_rep h2 d (merged_on D2 (set (k # ks)) V) F2"
      using ih(2) merged_on_step[OF dV v(1), of "set ks" D2] k by simp
    show "\<forall>j. F2 j \<subseteq> F j \<union> (if j \<in> set (k # ks) then G j else {})"
      using ih(3) S(2) k by (auto split: if_splits)
    show "\<forall>z. z \<notin> (\<Union>j \<in> set (k # ks). F j) \<longrightarrow> h2 z = h z"
    proof -
      have "(\<Union>j \<in> set ks. ?F j) = (\<Union>j \<in> set ks. F j)" using other(2) by (simp del: fun_upd_apply)
      then have "\<forall>z. z \<notin> (\<Union>j \<in> set ks. F j) \<longrightarrow> h2 z = h1 z" using ih(4) by simp
      with frame show ?thesis by simp
    qed
  qed
qed

lemma map_fst_filter: "map fst (filter (\<lambda>(k, x). P k) ps) = filter P (map fst ps)"
  by (induction ps) auto

text \<open>Copying the entries only the second dictionary has puts its objects under the first.\<close>

lemma dget_only_entries: "dget (only_entries d1 d2) k = (if dget d1 k = None then dget d2 k else None)"
  by (induction d2) (auto simp: only_entries_def)

lemma entries_rep_append:
  assumes "entries_rep h d1 D1 F" "entries_rep h d2 D2 G" "\<forall>i j. F i \<inter> G j = {}"
  shows "entries_rep h (d1 @ only_entries d1 d2) (D1 @ only_keys D1 D2)
      (\<lambda>k. if dget D1 k = None then G k else F k)"
proof -
  let ?E = "\<lambda>k. if dget D1 k = None then G k else F k"
  have keys: "map fst d1 = map fst D1" "map fst d2 = map fst D2" and dist: "distinct (map fst D1)" "distinct (map fst D2)"
    and none: "\<forall>k. k \<notin> fst ` set D1 \<longrightarrow> F k = {}" "\<forall>k. k \<notin> fst ` set D2 \<longrightarrow> G k = {}"
    and disj: "\<forall>i j. i \<noteq> j \<longrightarrow> F i \<inter> F j = {}" "\<forall>i j. i \<noteq> j \<longrightarrow> G i \<inter> G j = {}"
    and reps: "\<And>k x v. dget d1 k = Some x \<Longrightarrow> dget D1 k = Some v \<Longrightarrow> represents h x v (F k)"
      "\<And>k x v. dget d2 k = Some x \<Longrightarrow> dget D2 k = Some v \<Longrightarrow> represents h x v (G k)"
    using assms(1,2) by (simp_all add: entries_rep_def)
  note same = same_keys_dget[OF keys(1)]
  have only: "map fst (only_entries d1 d2) = map fst (only_keys D1 D2)"
    using keys(2) same unfolding only_entries_def only_keys_def by (simp only: map_fst_filter)
  have keyset: "map fst (only_keys D1 D2) = filter (\<lambda>k. dget D1 k = None) (map fst D2)"
    unfolding only_keys_def by (rule map_fst_filter)
  have "distinct (map fst (D1 @ only_keys D1 D2))"
    unfolding map_append distinct_append keyset using dist by (auto simp: map_of_eq_None_iff)
  moreover have "represents h x v (?E k)"
    if "dget (d1 @ only_entries d1 d2) k = Some x" "dget (D1 @ only_keys D1 D2) k = Some v" for k x v
  proof (cases "dget D1 k")
    case None
    with that same[of k] show ?thesis
      by (auto simp: map_add_def dget_only_entries dget_only_keys intro: reps(2))
  next
    case (Some u)
    with that same[of k] show ?thesis
      by (auto simp: map_add_def dget_only_entries dget_only_keys intro: reps(1) split: option.splits)
  qed
  moreover have "?E i \<inter> ?E j = {}" if "i \<noteq> j" for i j
    using that disj assms(3) by (auto simp: Int_commute)
  moreover have "?E k = {}" if "k \<notin> fst ` set (D1 @ only_keys D1 D2)" for k
  proof -
    have "k \<notin> set (map fst D1)" "k \<notin> set (map fst (only_keys D1 D2))" using that by auto
    with none keyset show ?thesis by (auto simp: map_of_eq_None_iff)
  qed
  ultimately show ?thesis using keys(1) only unfolding entries_rep_def by simp
qed

lemma merge_reports_of_keys:
  assumes "distinct (map fst D1)"
  shows "concat (map (\<lambda>k. fst (snd (merge_entry D2 (k, the (dget D1 k))))) (filter (\<lambda>k. dget D2 k \<noteq> None) (map fst D1)))
      = merge_errors D1 D2"
    and "concat (map (\<lambda>k. snd (snd (merge_entry D2 (k, the (dget D1 k))))) (filter (\<lambda>k. dget D2 k \<noteq> None) (map fst D1)))
      = merge_warnings D1 D2"
  using concat_over_keys[OF assms, of "\<lambda>k. dget D2 k \<noteq> None" "\<lambda>p. fst (snd (merge_entry D2 p))"]
    concat_over_keys[OF assms, of "\<lambda>k. dget D2 k \<noteq> None" "\<lambda>p. snd (snd (merge_entry D2 p))"]
  by (simp_all add: merge_entry_absent merge_errors_def merge_warnings_def smart_merge_unfold)

lemma merge_object_loop:
  assumes d1: "h a = Some (ODict d1)" "entries_rep h d1 D1 F" "\<forall>k. a \<notin> F k"
    and d2: "h b = Some (ODict d2)" "entries_rep h d2 D2 G"
    and FG: "\<forall>i j. F i \<inter> G j = {}" and ab: "a \<noteq> b" "\<forall>k. a \<notin> G k" "\<forall>k. b \<notin> F k"
    and sub: "\<forall>k A. dget D1 k = Some (VDict A) \<longrightarrow> merges_in_place A"
  defines "d \<equiv> d1 @ only_entries d1 d2"
  shows "\<exists>h' F'. eventually (\<lambda>n. merge_shared n a b (shared_keys d1 d2) (h(a \<mapsto> ODict d), [], []) =
        Some (h', merge_errors D1 D2, merge_warnings D1 D2)) sequentially \<and>
      entries_rep h' d (merged D1 D2) F' \<and> (\<forall>k. F' k \<subseteq> F k \<union> G k) \<and>
      (\<forall>z. z \<notin> (\<Union>k. F k) \<longrightarrow> h' z = (h(a \<mapsto> ODict d)) z)"
proof -
  let ?V = "D1 @ only_keys D1 D2"
  let ?E = "\<lambda>k. if dget D1 k = None then G k else F k"
  let ?h = "h(a \<mapsto> ODict d)"
  let ?ks = "shared_keys d1 d2"
  have keys: "map fst d1 = map fst D1" "map fst d2 = map fst D2" "distinct (map fst D1)"
    and disj: "\<forall>i j. i \<noteq> j \<longrightarrow> G i \<inter> G j = {}"
    using d1(2) d2(2) by (simp_all add: entries_rep_def)
  have ks: "?ks = filter (\<lambda>k. dget D2 k \<noteq> None) (map fst D1)"
    using keys(1) same_keys_dget[OF keys(2)] by (simp add: shared_keys_def)
  then have shared: "set ?ks = {k \<in> fst ` set D1. dget D2 k \<noteq> None}" by auto
  have in1: "dget D1 k \<noteq> None" "dget ?V k = dget D1 k" if "k \<in> set ?ks" for k
    using that by (auto simp: shared map_of_eq_None_iff map_add_def dget_only_keys split: option.splits)
  have same: "same_others h ?h" using d1(1) by (simp add: same_others_def dict_at_def)
  have entries: "entries_rep ?h d ?V ?E"
    unfolding d_def
    by (rule entries_rep_frame[OF entries_rep_append[OF d1(2) d2(2) FG]]) (use d1(3) ab(2) same[unfolded d_def] in auto)
  have entries2: "entries_rep ?h d2 D2 G"
    by (rule entries_rep_frame[OF d2(2)]) (use ab(2) same in auto)
  have ats: "dict_at ?h a = Some d" "dict_at ?h b = Some d2"
    using d2(1) ab(1) by (simp_all add: dict_at_def)
  have here: "\<forall>k \<in> set ?ks. dget ?V k \<noteq> None \<and> dget D2 k \<noteq> None"
    using in1 shared by simp
  have E1: "?E k = F k" if "k \<in> set ?ks" for k
    using in1(1)[OF that] by (simp del: not_None_eq)
  have E2: "?E j \<inter> G k = {}" if "j \<noteq> k" for j k
    using that FG disj by simp
  have sep: "\<forall>k \<in> set ?ks. a \<notin> ?E k \<and> b \<notin> ?E k \<and> (\<forall>j. ?E k \<inter> G j = {}) \<and>
      (\<forall>j. j \<noteq> k \<longrightarrow> ?E j \<inter> G k = {})"
  proof (intro ballI conjI allI impI)
    fix k j
    assume k: "k \<in> set ?ks"
    then show "a \<notin> ?E k" "b \<notin> ?E k" "?E k \<inter> G j = {}" unfolding E1[OF k] using d1(3) ab(3) FG by simp_all
    show "?E j \<inter> G k = {}" if "j \<noteq> k" using that by (rule E2)
  qed
  have "\<forall>k \<in> set ?ks. \<forall>A. dget ?V k = Some (VDict A) \<longrightarrow> merges_in_place A"
    using in1(2) sub by simp
  moreover have "distinct ?ks" using ks keys(3) by simp
  ultimately
  obtain h' F' where loop: "eventually (\<lambda>n. merge_shared n a b ?ks (?h, [], []) = Some (h',
        [] @ concat (map (\<lambda>k. fst (snd (merge_entry D2 (k, the (dget ?V k))))) ?ks),
        [] @ concat (map (\<lambda>k. snd (snd (merge_entry D2 (k, the (dget ?V k))))) ?ks))) sequentially"
    "entries_rep h' d (merged_on D2 (set ?ks) ?V) F'"
    "\<forall>k. F' k \<subseteq> ?E k \<union> (if k \<in> set ?ks then G k else {})"
    "\<forall>z. z \<notin> (\<Union>k \<in> set ?ks. ?E k) \<longrightarrow> h' z = ?h z"
    using merge_shared_refines[OF _ ats entries entries2 here sep, of "[]" "[]"]
    by (elim meta_impE exE conjE) (assumption, assumption, rule that)
  have reports: "map (\<lambda>k. f (merge_entry D2 (k, the (dget ?V k)))) ?ks = map (\<lambda>k. f (merge_entry D2 (k, the (dget D1 k)))) ?ks"
    for f :: "_ \<Rightarrow> string list"
    using in1(2) by simp
  show ?thesis
  proof (intro exI[of _ h'] exI[of _ F'] conjI)
    show "eventually (\<lambda>n. merge_shared n a b ?ks (?h, [], []) =
        Some (h', merge_errors D1 D2, merge_warnings D1 D2)) sequentially"
      using loop(1)
      unfolding reports[of "\<lambda>r. fst (snd r)"] reports[of "\<lambda>r. snd (snd r)"]
      unfolding ks merge_reports_of_keys[OF keys(3)] append_Nil .
    show "entries_rep h' d (merged D1 D2) F'" using loop(2) unfolding merged_is_merged_on shared .
    show "\<forall>k. F' k \<subseteq> F k \<union> G k" 
    proof
      fix k
      show "F' k \<subseteq> F k \<union> G k" using spec[OF loop(3), of k] by (auto split: if_splits)
    qed
    show "\<forall>z. z \<notin> (\<Union>k. F k) \<longrightarrow> h' z = ?h z"
    proof (intro allI impI)
      fix z
      assume "z \<notin> (\<Union>k. F k)"
      then have "z \<notin> (\<Union>k \<in> set ?ks. ?E k)" by (auto simp only: E1)
      with loop(4) show "h' z = ?h z" by blast
    qed
  qed
qed

theorem merge_object_refines: "merges_in_place D1"
proof (induction "size (VDict D1)" arbitrary: D1 rule: less_induct)
  case less
  have sub: "\<forall>k A. dget D1 k = Some (VDict A) \<longrightarrow> merges_in_place A"
  proof (intro allI impI less.hyps)
    fix k A
    assume "dget D1 k = Some (VDict A)"
    then have "(k, VDict A) \<in> set D1" by (rule map_of_SomeD)
    then show "size (VDict A) < size (VDict D1)" using size_pyval_entry[of k "VDict A" D1] by simp
  qed
  show ?case
    unfolding merges_in_place_def
  proof (intro allI impI)
    fix h a b D2 P Q
    assume rep: "represents h a (VDict D1) P" "represents h b (VDict D2) Q" and apart: "P \<inter> Q = {}"
    obtain d1 F where d1: "h a = Some (ODict d1)" "entries_rep h d1 D1 F" "\<forall>k. a \<notin> F k" "P = insert a (\<Union>k. F k)"
      using rep(1) by (auto simp: represents_dict_iff)
    obtain d2 G where d2: "h b = Some (ODict d2)" "entries_rep h d2 D2 G" "\<forall>k. b \<notin> G k" "Q = insert b (\<Union>k. G k)"
      using rep(2) by (auto simp: represents_dict_iff)
    have ab: "\<forall>i j. F i \<inter> G j = {}" "a \<noteq> b" "\<forall>k. a \<notin> G k" "\<forall>k. b \<notin> F k"
      using apart d1(4) d2(4) by blast+
    let ?d = "d1 @ only_entries d1 d2"
    obtain h' F' where loop: "eventually (\<lambda>n. merge_shared n a b (shared_keys d1 d2) (h(a \<mapsto> ODict ?d), [], []) =
          Some (h', merge_errors D1 D2, merge_warnings D1 D2)) sequentially"
      "entries_rep h' ?d (merged D1 D2) F'" "\<forall>k. F' k \<subseteq> F k \<union> G k"
      "\<forall>z. z \<notin> (\<Union>k. F k) \<longrightarrow> h' z = (h(a \<mapsto> ODict ?d)) z"
      using merge_object_loop[OF d1(1-3) d2(1,2) ab sub] by (elim exE conjE) (rule that)
    have "eventually (\<lambda>n. merge_object (Suc n) h a b = Some (h', merge_errors D1 D2, merge_warnings D1 D2)) sequentially"
      using loop(1) d1(1) d2(1) by (simp add: dict_at_def)
    then have "eventually (\<lambda>n. merge_object n h a b = Some (h', merge_errors D1 D2, merge_warnings D1 D2)) sequentially"
      by (rule from_Suc)
    moreover have "represents h' a (VDict (merged D1 D2)) (insert a (\<Union>k. F' k))"
    proof -
      have "\<forall>k. a \<notin> F' k" using loop(3) d1(3) ab(3) by blast
      moreover have "h' a = Some (ODict ?d)" using loop(4) d1(3) by simp
      ultimately show ?thesis
        unfolding represents_dict_iff using loop(2) by (intro exI[of _ ?d] exI[of _ F']) simp
    qed
    moreover have "insert a (\<Union>k. F' k) \<subseteq> P \<union> Q" using loop(3) d1(4) d2(4) by blast
    moreover have "\<forall>z. z \<notin> P \<longrightarrow> h' z = h z" using loop(4) d1(4) by auto
    ultimately show "\<exists>h' F'. eventually (\<lambda>n. merge_object n h a b = Some (h', merge_errors D1 D2, merge_warnings D1 D2)) sequentially \<and>
        represents h' a (VDict (merged D1 D2)) F' \<and> F' \<subseteq> P \<union> Q \<and> (\<forall>z. z \<notin> P \<longrightarrow> h' z = h z)"
      by blast
  qed
qed

section \<open>The merge of files\<close>

text \<open>\<open>loaded h docs vals U\<close>: the documents stand for \<open>vals\<close> and are made of the objects \<open>U\<close>.\<close>

inductive loaded :: "store \<Rightarrow> (exn + nat) list \<Rightarrow> (exn + pyval) list \<Rightarrow> nat set \<Rightarrow> bool" for h where
  none: "loaded h [] [] {}"
| raised: "loaded h docs vals U \<Longrightarrow> loaded h (Inl e # docs) (Inl e # vals) U"
| document: "represents h a v P \<Longrightarrow> loaded h docs vals U \<Longrightarrow> P \<inter> U = {} \<Longrightarrow>
    loaded h (Inr a # docs) (Inr v # vals) (P \<union> U)"

lemma loaded_frame: "loaded h docs vals U \<Longrightarrow> \<forall>z \<in> U. h' z = h z \<Longrightarrow> same_others h h' \<Longrightarrow> loaded h' docs vals U"
proof (induction rule: loaded.induct)
  case (document a v P docs vals U)
  have "represents h' a v P" by (rule represents_frame[OF document.hyps(1)]) (use document.prems in simp_all)
  with document show ?case by (intro loaded.document) simp_all
qed (simp_all add: loaded.none loaded.raised)

text \<open>What the caller sees: the exception, or the value of the configuration.\<close>

definition merged_files :: "nat \<Rightarrow> nat \<Rightarrow> (exn + nat) list \<Rightarrow> store \<Rightarrow> (exn + pyval) option" where
  "merged_files n config docs h =
     (case merge_files n config docs h of
        None \<Rightarrow> None
      | Some (Inl e) \<Rightarrow> Some (Inl e)
      | Some (Inr h') \<Rightarrow> map_option Inr (read_object n h' config))"

lemma smart_merge_nothing: "smart_merge C [] = (C, [], [])"
proof -
  have "merge_entry [] p = (p, [], [])" for p by (cases p) (simp add: merge_entry_absent)
  then show ?thesis by (simp add: smart_merge_unfold only_keys_def)
qed

lemma leaf_document:
  assumes "\<not> is_dict v" "\<not> is_list v" "v \<noteq> VNone"
  shows "merge_into C (Inr v # vals) = Inl (AttributeError ''keys'')"
    and "h a = Some (OLeaf v) \<Longrightarrow> merge_files n config (Inr a # docs) h = Some (Inl (AttributeError ''keys''))"
  using assms by (cases v; simp)+

lemma merge_files_refines:
  assumes "loaded h docs vals U" "represents h config (VDict C) P" "P \<inter> U = {}"
  shows "eventually (\<lambda>n. merged_files n config docs h = Some (map_sum id VDict (merge_into C vals))) sequentially"
  using assms
proof (induction docs arbitrary: h vals U C P)
  case Nil
  from Nil(1) have "vals = []" by (cases rule: loaded.cases) simp_all
  with represents_reads[OF Nil(2)] show ?case
    by (auto simp: merged_files_def elim: eventually_mono)
next
  case (Cons doc docs)
  from Cons.prems(1) show ?case
  proof (cases rule: loaded.cases)
    case (raised vals e)
    then show ?thesis by (simp add: merged_files_def)
  next
    case (document a v Q vals W)
    have PQ: "P \<inter> Q = {}" "P \<inter> W = {}" using Cons.prems(3) document(3) by auto
    from document(4) show ?thesis
    proof (cases rule: represents.cases)
      case leaf
      show ?thesis
      proof (cases "v = VNone")
        case True
        with Cons.IH[OF document(5) Cons.prems(2) PQ(2)] document(1,2) leaf show ?thesis
          by (simp add: merged_files_def smart_merge_nothing)
      next
        case False
        with document(1,2) leaf show ?thesis
          by (simp add: merged_files_def leaf_document del: merge_files.simps merge_into.simps)
      qed
    next
      case (list xs vs F)
      with document(1,2) show ?thesis by (simp add: merged_files_def)
    next
      case (dict d B F)
      obtain h' S where h': "eventually (\<lambda>n. merge_object n h config a =
          Some (h', merge_errors C B, merge_warnings C B)) sequentially"
        "represents h' config (VDict (merged C B)) S" "S \<subseteq> P \<union> Q" "\<forall>z. z \<notin> P \<longrightarrow> h' z = h z"
        using merges_in_placeE[OF merge_object_refines Cons.prems(2) document(4)[unfolded dict(1)] PQ(1)] .
      have "loaded h' docs vals W" by (rule loaded_frame[OF document(5)])
        (use h'(4) PQ(2) same_othersI[OF Cons.prems(2) h'(4)] in blast)+
      moreover have "S \<inter> W = {}" using h'(3) PQ(2) document(6) by blast
      ultimately have rest: "eventually (\<lambda>n. merged_files n config docs h' =
          Some (map_sum id VDict (merge_into (merged C B) vals))) sequentially"
        using Cons.IH[OF _ h'(2)] by blast
      have into: "merge_into C (Inr (VDict B) # vals) = (if merge_errors C B \<noteq> [] then
          Inl (ConfigMergeError ''Configuration file merge has failed due to param definition inconsistency.'')
          else merge_into (merged C B) vals)"
        by (simp add: merged_def merge_errors_def split: prod.splits)
      from h'(1) rest show ?thesis
        by eventually_elim
          (use dict(1,3) document(1,2) into in \<open>simp add: merged_files_def id_def del: merge_into.simps\<close>)
    qed
  qed
qed

text \<open>
  C3: \<open>merge\<close> computes the merge of the documents. It builds the configuration in place: it starts from an
  empty dictionary, copies references of the documents' objects into it and then changes those very
  objects when a later document has the same keys. As long as the documents are trees (no dictionary
  is reached twice within or across documents), given enough recursion, it ends and the configuration,
  or the exception, is the one of the merge of values: changing objects in place changes nothing else.
\<close>

theorem merge_in_place_computes_the_merge:
  assumes "loaded h docs vals U" and "h config = Some (ODict [])" and "config \<notin> U"
  shows "eventually (\<lambda>n. merged_files n config docs h = Some (map_sum id VDict (merge_documents vals))) sequentially"
proof -
  have "represents h config (VDict []) (insert config (\<Union>k. {}))"
    unfolding represents_dict_iff using assms(2) by (intro exI[of _ "[]"] exI[of _ "\<lambda>_. {}"]) (simp add: entries_rep_def)
  then show ?thesis
    unfolding merge_documents_def by (rule merge_files_refines[OF assms(1)]) (use assms(3) in simp)
qed

lemma represents_single:
  assumes "h a = Some (ODict [(k, x)])" "represents h x v P" "a \<notin> P"
  shows "represents h a (VDict [(k, v)]) (insert a P)"
  unfolding represents_dict_iff
  using assms by (intro exI[of _ "[(k, x)]"] exI[of _ "\<lambda>j. if j = k then P else {}"])
    (auto simp: entries_rep_def split: if_splits)

definition demo_documents :: store where
  "demo_documents = (\<lambda>_. None)(0 \<mapsto> ODict [],
     1 \<mapsto> ODict [(''kontiki'', 2)], 2 \<mapsto> ODict [(''amqp_url'', 3)], 3 \<mapsto> OLeaf (VStr ''amqp://a''),
     4 \<mapsto> ODict [(''kontiki'', 5)], 5 \<mapsto> ODict [(''prefetch'', 6)], 6 \<mapsto> OLeaf (VInt 10))"

lemma demo_documents_loaded:
  "loaded demo_documents [Inr 1, Inr 4]
     [Inr (VDict [(''kontiki'', VDict [(''amqp_url'', VStr ''amqp://a'')])]),
      Inr (VDict [(''kontiki'', VDict [(''prefetch'', VInt 10)])])]
     ({1, 2} \<union> ({4, 5} \<union> {}))"
  by (intro loaded.intros represents_single[of _ 1 _ 2] represents_single[of _ 4 _ 5]
      represents_single[of _ 2 _ 3] represents_single[of _ 5 _ 6] represents.leaf)
    (simp_all add: demo_documents_def)

lemma merge_in_place_computes_the_merge_witness:
  "eventually (\<lambda>n. merged_files n 0 [Inr 1, Inr 4] demo_documents = Some (Inr (VDict
     [(''kontiki'', VDict [(''amqp_url'', VStr ''amqp://a''), (''prefetch'', VInt 10)])]))) sequentially"
proof -
  have "merge_documents [Inr (VDict [(''kontiki'', VDict [(''amqp_url'', VStr ''amqp://a'')])]),
      Inr (VDict [(''kontiki'', VDict [(''prefetch'', VInt 10)])])] =
    Inr [(''kontiki'', VDict [(''amqp_url'', VStr ''amqp://a''), (''prefetch'', VInt 10)])]"
    by code_simp
  with merge_in_place_computes_the_merge[OF demo_documents_loaded, of 0] show ?thesis
    by (simp add: demo_documents_def)
qed

text \<open>
  With an alias the documents are not trees, and the merge in place is not the merge of values:
  \<open>base\<close> and \<open>other\<close> are one object (\<open>other: *anchor\<close>), and what a second file adds to \<open>base\<close> is
  in \<open>other\<close> too.
\<close>

definition aliased_documents :: store where
  "aliased_documents = (\<lambda>_. None)(0 \<mapsto> ODict [],
     1 \<mapsto> ODict [(''base'', 2), (''other'', 2)], 2 \<mapsto> ODict [(''x'', 3)], 3 \<mapsto> OLeaf (VInt 1),
     4 \<mapsto> ODict [(''base'', 5)], 5 \<mapsto> ODict [(''y'', 6)], 6 \<mapsto> OLeaf (VInt 2))"

lemma alias_is_changed_too:
  "merged_files 9 0 [Inr 1, Inr 4] aliased_documents = Some (Inr (VDict
     [(''base'', VDict [(''x'', VInt 1), (''y'', VInt 2)]), (''other'', VDict [(''x'', VInt 1), (''y'', VInt 2)])]))"
  and "merge_documents [Inr (VDict [(''base'', VDict [(''x'', VInt 1)]), (''other'', VDict [(''x'', VInt 1)])]),
      Inr (VDict [(''base'', VDict [(''y'', VInt 2)])])] =
    Inr [(''base'', VDict [(''x'', VInt 1), (''y'', VInt 2)]), (''other'', VDict [(''x'', VInt 1)])]"
  by code_simp+

end
