(* ===== verification/Handler_Scope.thy ===== *)
theory Handler_Scope
  imports Python_Effects
begin

text \<open>
  The handler scope (\<open>runtime/handler_scope.py\<close>), the flow identifiers built on it (the first
  half of \<open>messaging/flow.py\<close>), the reserved headers (\<open>utils.py\<close>) and the counter of work in
  flight (\<open>WorkInFlight\<close> of \<open>messaging/consumer/core.py\<close>) that a scope begins and ends.

  A context is a mutable object: \<open>set_flow_id\<close> assigns a field of the object the context
  variable refers to. So contexts live in a heap, the context variable of each asyncio task is a
  reference, and the token \<open>ContextVar.set\<close> returns is the previous reference. Random identifiers
  are arguments (\<open>fresh\<close>), since \<open>secrets.token_hex\<close> decides them.
\<close>

section \<open>Work in flight\<close>

text \<open>The \<open>asyncio.Event\<close> is its flag; \<open>wait_empty\<close> returns exactly when the flag is set.\<close>

record work_in_flight =
  wif_count :: int
  wif_empty :: bool

definition wif_new :: work_in_flight where
  "wif_new = \<lparr>wif_count = 0, wif_empty = True\<rparr>"

definition wif_begin :: "work_in_flight \<Rightarrow> work_in_flight" where
  "wif_begin w =
     (let w' = w\<lparr>wif_count := wif_count w + 1\<rparr>
      in if wif_count w' = 1 then w'\<lparr>wif_empty := False\<rparr> else w')"

definition wif_end :: "work_in_flight \<Rightarrow> work_in_flight" where
  "wif_end w =
     (let w' = w\<lparr>wif_count := wif_count w - 1\<rparr>
      in if wif_count w' = 0 then w'\<lparr>wif_empty := True\<rparr> else w')"

definition wif_wait_empty :: "work_in_flight \<Rightarrow> bool" where
  "wif_wait_empty w = wif_empty w"

definition wif_inv :: "work_in_flight \<Rightarrow> bool" where
  "wif_inv w \<longleftrightarrow> 0 \<le> wif_count w \<and> (wif_empty w \<longleftrightarrow> wif_count w = 0)"

text \<open>
  A run of starts (\<open>True\<close>) and ends (\<open>False\<close>), and the number of pending units it leaves if it
  never ends more than was started.
\<close>

fun work_run :: "('w \<Rightarrow> 'w) \<Rightarrow> ('w \<Rightarrow> 'w) \<Rightarrow> 'w \<Rightarrow> bool list \<Rightarrow> 'w" where
  "work_run start_work end_work w [] = w"
| "work_run start_work end_work w (b # bs) =
     work_run start_work end_work (if b then start_work w else end_work w) bs"

fun balance :: "nat \<Rightarrow> bool list \<Rightarrow> nat option" where
  "balance n [] = Some n"
| "balance n (True # bs) = balance (Suc n) bs"
| "balance n (False # bs) = (case n of 0 \<Rightarrow> None | Suc m \<Rightarrow> balance m bs)"

text \<open>
  The contract a scope needs of the object it is handed as \<open>work_in_flight\<close>: \<open>begin\<close> and \<open>end\<close>
  move a count up and down, and the object reports idle exactly at zero.
\<close>

locale work_tracker =
  fixes start_work :: "'w \<Rightarrow> 'w"
    and end_work :: "'w \<Rightarrow> 'w"
    and pending :: "'w \<Rightarrow> nat"
    and idle :: "'w \<Rightarrow> bool"
    and good :: "'w \<Rightarrow> bool"
  assumes good_start: "good w \<Longrightarrow> good (start_work w)"
    and good_end: "good w \<Longrightarrow> 0 < pending w \<Longrightarrow> good (end_work w)"
    and pending_start: "good w \<Longrightarrow> pending (start_work w) = Suc (pending w)"
    and pending_end: "good w \<Longrightarrow> 0 < pending w \<Longrightarrow> pending (end_work w) = pending w - 1"
    and idle_iff: "good w \<Longrightarrow> idle w \<longleftrightarrow> pending w = 0"
begin

lemma work_run_pending:
  "good w \<Longrightarrow> balance (pending w) bs = Some n \<Longrightarrow>
     good (work_run start_work end_work w bs) \<and> pending (work_run start_work end_work w bs) = n"
proof (induction bs arbitrary: w)
  case (Cons b bs)
  show ?case
  proof (cases b)
    case True
    with Cons show ?thesis by (simp add: good_start pending_start)
  next
    case False
    with Cons.prems obtain m where m: "pending w = Suc m" "balance m bs = Some n"
      by (auto split: nat.splits)
    with Cons.prems(1) have "good (end_work w)" "pending (end_work w) = m"
      by (simp_all add: good_end pending_end)
    with Cons.IH[of "end_work w"] m False show ?thesis by simp
  qed
qed simp

lemma work_run_idle:
  "good w \<Longrightarrow> balance (pending w) bs = Some n \<Longrightarrow> idle (work_run start_work end_work w bs) \<longleftrightarrow> n = 0"
  using work_run_pending idle_iff by blast

end

interpretation wif: work_tracker wif_begin wif_end "\<lambda>w. nat (wif_count w)" wif_wait_empty wif_inv
  by unfold_locales
    (auto simp: wif_begin_def wif_end_def wif_wait_empty_def wif_inv_def Let_def nat_add_distrib)

lemma wif_end_begin: "wif_inv w \<Longrightarrow> wif_end (wif_begin w) = w"
  by (cases w) (auto simp: wif_begin_def wif_end_def wif_inv_def Let_def)

section \<open>Contexts\<close>

record hctx =
  ctx_kind :: pyval
  ctx_operation :: pyval
  ctx_flow :: pyval
  ctx_hop :: pyval

record scope_state =
  ctx_heap :: "hctx list"
  ctx_var :: "nat \<Rightarrow> nat option"
  in_flight :: work_in_flight

definition scope_init :: scope_state where
  "scope_init = \<lparr>ctx_heap = [], ctx_var = (\<lambda>_. None), in_flight = wif_new\<rparr>"

definition FLOW_ID_UNSET :: string where "FLOW_ID_UNSET = ''[no flow]''"

definition flow_id_header_name :: string where "flow_id_header_name = ''flow_id''"
definition hop_id_header_name :: string where "hop_id_header_name = ''hop_id''"
definition parent_hop_id_header_name :: string where "parent_hop_id_header_name = ''parent_hop_id''"
definition entrypoint_header_name :: string where "entrypoint_header_name = ''entrypoint''"
definition operation_header_name :: string where "operation_header_name = ''operation''"
definition rpc_service_header_name :: string where "rpc_service_header_name = ''rpc_service''"

lemmas header_names = flow_id_header_name_def hop_id_header_name_def
  parent_hop_id_header_name_def entrypoint_header_name_def operation_header_name_def
  rpc_service_header_name_def

definition format_flow_id_for_log :: "string option \<Rightarrow> string" where
  "format_flow_id_for_log flow_id =
     (case flow_id of None \<Rightarrow> FLOW_ID_UNSET | Some f \<Rightarrow> ''[flow='' @ f @ '']'')"

definition get_raw_context :: "nat \<Rightarrow> scope_state \<Rightarrow> hctx option" where
  "get_raw_context t s = map_option (\<lambda>r. ctx_heap s ! r) (ctx_var s t)"

definition current_handler_context :: "nat \<Rightarrow> scope_state \<Rightarrow> hctx option" where
  "current_handler_context t s =
     (case get_raw_context t s of
        None \<Rightarrow> None
      | Some ctx \<Rightarrow> if ctx_kind ctx = VNone then None else Some ctx)"

definition current_flow_id :: "nat \<Rightarrow> scope_state \<Rightarrow> pyval" where
  "current_flow_id t s = (case get_raw_context t s of None \<Rightarrow> VNone | Some ctx \<Rightarrow> ctx_flow ctx)"

type_synonym ctx_token = "nat option"

definition set_handler_context ::
  "pyval \<Rightarrow> pyval \<Rightarrow> pyval \<Rightarrow> pyval \<Rightarrow> nat \<Rightarrow> scope_state \<Rightarrow> ctx_token \<times> scope_state" where
  "set_handler_context kind operation flow_id hop_id t s =
     (ctx_var s t,
      s\<lparr>ctx_heap := ctx_heap s @ [\<lparr>ctx_kind = kind, ctx_operation = operation,
            ctx_flow = flow_id, ctx_hop = hop_id\<rparr>],
        ctx_var := (ctx_var s)(t := Some (length (ctx_heap s)))\<rparr>)"

definition reset_handler_context :: "ctx_token \<Rightarrow> nat \<Rightarrow> scope_state \<Rightarrow> scope_state" where
  "reset_handler_context tok t s = s\<lparr>ctx_var := (ctx_var s)(t := tok)\<rparr>"

definition set_flow_id :: "pyval \<Rightarrow> nat \<Rightarrow> scope_state \<Rightarrow> scope_state" where
  "set_flow_id v t s =
     (case ctx_var s t of
        None \<Rightarrow> snd (set_handler_context VNone VNone v VNone t s)
      | Some r \<Rightarrow> s\<lparr>ctx_heap := (ctx_heap s)[r := (ctx_heap s ! r)\<lparr>ctx_flow := v\<rparr>]\<rparr>)"

text \<open>\<open>asyncio.create_task\<close> starts the child with a copy of the parent's context variables.\<close>

definition create_task :: "nat \<Rightarrow> nat \<Rightarrow> scope_state \<Rightarrow> scope_state" where
  "create_task parent child s = s\<lparr>ctx_var := (ctx_var s)(child := ctx_var s parent)\<rparr>"

section \<open>Entering and leaving a scope\<close>

text \<open>
  A scope token holds the context token and whether a \<open>work_in_flight\<close> object was given (there is
  one per container, in \<open>in_flight\<close>).
\<close>

record scope_token =
  context_token :: ctx_token
  tracked :: bool

definition untraced_kind :: "pyval \<Rightarrow> bool" where
  "untraced_kind kind \<longleftrightarrow> kind = VStr ''http'' \<or> kind = VStr ''task''"

definition enter_handler_scope ::
  "string \<Rightarrow> string \<Rightarrow> pydict option \<Rightarrow> bool \<Rightarrow> string \<Rightarrow> nat \<Rightarrow> scope_state \<Rightarrow> scope_token \<times> scope_state"
where
  "enter_handler_scope kind operation headers work fresh t s =
     (let (inbound_flow, inbound_hop) =
            (case headers of
               None \<Rightarrow> (VNone, VNone)
             | Some h \<Rightarrow>
                 if h \<noteq> [] \<and> \<not> untraced_kind (VStr kind)
                 then (dget_default h flow_id_header_name VNone, dget_default h hop_id_header_name VNone)
                 else (VNone, VNone));
          flow_id = (if truthy inbound_flow then inbound_flow else VStr fresh);
          (tok, s1) = set_handler_context (VStr kind) (VStr operation) flow_id inbound_hop t s;
          s2 = (if work then s1\<lparr>in_flight := wif_begin (in_flight s1)\<rparr> else s1)
      in (\<lparr>context_token = tok, tracked = work\<rparr>, s2))"

definition reset_handler_scope :: "scope_token \<Rightarrow> nat \<Rightarrow> scope_state \<Rightarrow> scope_state" where
  "reset_handler_scope tok t s =
     reset_handler_context (context_token tok) t
       (if tracked tok then s\<lparr>in_flight := wif_end (in_flight s)\<rparr> else s)"

definition get_handler_ctx_fields :: "nat \<Rightarrow> scope_state \<Rightarrow> pyval \<times> pyval \<times> pyval \<times> pyval" where
  "get_handler_ctx_fields t s =
     (case current_handler_context t s of
        None \<Rightarrow> (VNone, VNone, VNone, VNone)
      | Some ctx \<Rightarrow>
          (ctx_flow ctx, ctx_kind ctx, ctx_operation ctx,
           if untraced_kind (ctx_kind ctx) then VNone else ctx_hop ctx))"

section \<open>Outbound headers\<close>

definition apply_outbound_hop_headers ::
  "pydict \<Rightarrow> pyval \<Rightarrow> string \<Rightarrow> nat \<Rightarrow> scope_state \<Rightarrow> pydict" where
  "apply_outbound_hop_headers headers rpc_service fresh t s =
     (let h1 = dset hop_id_header_name (VStr fresh) headers;
          h2 = (case current_handler_context t s of
             None \<Rightarrow>
               dpop operation_header_name
                 (dpop entrypoint_header_name (dpop parent_hop_id_header_name h1))
           | Some ctx \<Rightarrow>
               let h = dset operation_header_name (ctx_operation ctx)
                         (dset entrypoint_header_name (ctx_kind ctx) h1)
               in if \<not> untraced_kind (ctx_kind ctx) \<and> truthy (ctx_hop ctx)
                  then dset parent_hop_id_header_name (ctx_hop ctx) h
                  else dpop parent_hop_id_header_name h)
      in if rpc_service \<noteq> VNone then dset rpc_service_header_name rpc_service h2
         else dpop rpc_service_header_name h2)"

text \<open>Precedence: the argument, the context variable, the extra headers, a fresh identifier.\<close>

definition resolve_flow_id ::
  "pyval \<Rightarrow> pydict option \<Rightarrow> string \<Rightarrow> nat \<Rightarrow> scope_state \<Rightarrow> pyval \<times> scope_state" where
  "resolve_flow_id flow_id extra_headers fresh t s =
     (let v0 = (if flow_id \<noteq> VNone then flow_id else current_flow_id t s);
          v1 = (if v0 \<noteq> VNone then v0
                else (case extra_headers of
                        None \<Rightarrow> VNone
                      | Some h \<Rightarrow> dget_default h flow_id_header_name VNone));
          v2 = (if v1 \<noteq> VNone then v1 else VStr fresh)
      in (v2, set_flow_id v2 t s))"

definition apply_outbound_flow_id ::
  "pydict \<Rightarrow> pyval \<Rightarrow> pydict option \<Rightarrow> string \<Rightarrow> nat \<Rightarrow> scope_state \<Rightarrow> pyval \<times> pydict \<times> scope_state"
where
  "apply_outbound_flow_id headers flow_id extra_headers fresh t s =
     (case resolve_flow_id flow_id extra_headers fresh t s of
        (v, s') \<Rightarrow> (v, dset flow_id_header_name v headers, s'))"

definition enter_flow_context :: "pyval \<Rightarrow> nat \<Rightarrow> scope_state \<Rightarrow> ctx_token \<times> scope_state" where
  "enter_flow_context flow_id t s = set_handler_context VNone VNone flow_id VNone t s"

definition enter_flow_from_headers :: "pydict option \<Rightarrow> nat \<Rightarrow> scope_state \<Rightarrow> ctx_token \<times> scope_state"
where
  "enter_flow_from_headers headers t s =
     enter_flow_context
       (case headers of None \<Rightarrow> VNone | Some h \<Rightarrow> dget_default h flow_id_header_name VNone) t s"

definition RESERVED_HEADERS :: "string list" where
  "RESERVED_HEADERS = [''event_type'', ''remote_method'', ''reply_to'', ''session_id'', ''flow_id'',
     ''hop_id'', ''parent_hop_id'', ''entrypoint'', ''operation'', ''rpc_service'',
     ''service_name'', ''instance_id'', ''host'', ''timestamp'']"

definition validate_extra_headers :: "pydict \<Rightarrow> exn + unit" where
  "validate_extra_headers extra_headers =
     (let reserved = sort (filter (\<lambda>name. name \<in> set RESERVED_HEADERS) (map fst extra_headers))
      in if reserved \<noteq> []
         then Inl (ValueError (''Reserved header names are not allowed in extra_headers: '' @
                join_with '', '' reserved))
         else Inr ())"

section \<open>A body inside a scope\<close>

text \<open>
  The state of a component that runs handlers: the outside world and the scope state. Every
  handler of the runtime (event, RPC, HTTP, task) has the shape
  \<open>scope = enter_handler_scope(...); try: body finally: reset_handler_scope(scope)\<close>.
\<close>

record 'e scoped_world = "'e world" +
  scope :: scope_state

definition in_handler_scope ::
  "string \<Rightarrow> string \<Rightarrow> pydict option \<Rightarrow> bool \<Rightarrow> string \<Rightarrow> nat \<Rightarrow>
   (('e, 'z) scoped_world_scheme, 'a) py \<Rightarrow> (('e, 'z) scoped_world_scheme, 'a) py" where
  "in_handler_scope kind operation headers work fresh t body =
     py_bind
       (\<lambda>s. case enter_handler_scope kind operation headers work fresh t (scope s) of
          (tok, sc) \<Rightarrow> (Inr tok, s\<lparr>scope := sc\<rparr>))
       (\<lambda>tok. py_finally body
          (py_modify (\<lambda>s. s\<lparr>scope := reset_handler_scope tok t (scope s)\<rparr>)))"

definition entered ::
  "string \<Rightarrow> string \<Rightarrow> pydict option \<Rightarrow> bool \<Rightarrow> string \<Rightarrow> nat \<Rightarrow>
   ('e, 'z) scoped_world_scheme \<Rightarrow> ('e, 'z) scoped_world_scheme" where
  "entered kind operation headers work fresh t s =
     s\<lparr>scope := snd (enter_handler_scope kind operation headers work fresh t (scope s))\<rparr>"

lemma enter_token:
  "fst (enter_handler_scope kind op h work fresh t s) = \<lparr>context_token = ctx_var s t, tracked = work\<rparr>"
  by (simp add: enter_handler_scope_def set_handler_context_def Let_def split: prod.splits option.splits)

lemma enter_in_flight:
  "in_flight (snd (enter_handler_scope kind op h work fresh t s)) =
     (if work then wif_begin (in_flight s) else in_flight s)"
  by (simp add: enter_handler_scope_def set_handler_context_def Let_def split: prod.splits option.splits)

lemma enter_var:
  "ctx_var (snd (enter_handler_scope kind op h work fresh t s)) =
     (ctx_var s)(t := Some (length (ctx_heap s)))"
  by (simp add: enter_handler_scope_def set_handler_context_def Let_def split: prod.splits option.splits)

lemma enter_heap:
  "\<exists>ctx. ctx_kind ctx = VStr kind \<and> ctx_operation ctx = VStr op \<and>
     ctx_heap (snd (enter_handler_scope kind op h work fresh t s)) = ctx_heap s @ [ctx]"
  by (simp add: enter_handler_scope_def set_handler_context_def Let_def split: prod.splits option.splits)

text \<open>On every path the outcome is the body's and the cleanup has run after it.\<close>

lemma in_handler_scope_run [py_simps]:
  "in_handler_scope kind op h work fresh t body s =
     (case body (entered kind op h work fresh t s) of
        (r, u) \<Rightarrow> (r, u\<lparr>scope := reset_handler_scope
           \<lparr>context_token = ctx_var (scope s) t, tracked = work\<rparr> t (scope u)\<rparr>))"
proof -
  obtain tok sc where e: "enter_handler_scope kind op h work fresh t (scope s) = (tok, sc)"
    by (cases "enter_handler_scope kind op h work fresh t (scope s)")
  with enter_token[of kind op h work fresh t "scope s"]
  have "tok = \<lparr>context_token = ctx_var (scope s) t, tracked = work\<rparr>" by simp
  with e show ?thesis
    by (simp add: in_handler_scope_def entered_def py_simps split: prod.splits)
qed

lemma in_handler_scope_var:
  "ctx_var (scope (snd (in_handler_scope kind op h work fresh t body s))) t = ctx_var (scope s) t"
  by (simp add: py_simps reset_handler_scope_def reset_handler_context_def split: prod.splits)

lemma in_handler_scope_in_flight:
  "in_flight (scope (snd (in_handler_scope kind op h work fresh t body s))) =
     (let w = in_flight (scope (snd (body (entered kind op h work fresh t s))))
      in if work then wif_end w else w)"
  by (simp add: py_simps reset_handler_scope_def reset_handler_context_def Let_def split: prod.splits)

section \<open>Interleaved tasks\<close>

text \<open>
  Any number of asyncio tasks enter and leave scopes, change the flow identifier and spawn
  tasks, in any order; every handler keeps its own token. \<open>Leave t\<close> closes the innermost open
  scope of \<open>t\<close>.
\<close>

datatype scope_event =
    Enter nat string string "pydict option" bool string
  | Leave nat
  | SetFlow nat pyval
  | Spawn nat nat

record scope_system =
  sys_scope :: scope_state
  open_scopes :: "(nat \<times> scope_token) list"

fun remove_innermost :: "nat \<Rightarrow> (nat \<times> 'a) list \<Rightarrow> (nat \<times> 'a) list" where
  "remove_innermost t [] = []"
| "remove_innermost t ((u, x) # xs) = (if u = t then xs else (u, x) # remove_innermost t xs)"

fun scope_step :: "scope_system \<Rightarrow> scope_event \<Rightarrow> scope_system" where
  "scope_step s (Enter t kind operation headers work fresh) =
     (case enter_handler_scope kind operation headers work fresh t (sys_scope s) of
        (tok, sc) \<Rightarrow> s\<lparr>sys_scope := sc, open_scopes := (t, tok) # open_scopes s\<rparr>)"
| "scope_step s (Leave t) =
     (case map_of (open_scopes s) t of
        None \<Rightarrow> s
      | Some tok \<Rightarrow> s\<lparr>sys_scope := reset_handler_scope tok t (sys_scope s),
          open_scopes := remove_innermost t (open_scopes s)\<rparr>)"
| "scope_step s (SetFlow t v) = s\<lparr>sys_scope := set_flow_id v t (sys_scope s)\<rparr>"
| "scope_step s (Spawn p c) = s\<lparr>sys_scope := create_task p c (sys_scope s)\<rparr>"

definition scope_system_init :: scope_system where
  "scope_system_init = \<lparr>sys_scope = scope_init, open_scopes = []\<rparr>"

definition tracked_open :: "scope_system \<Rightarrow> (nat \<times> scope_token) list" where
  "tracked_open s = filter (\<lambda>p. tracked (snd p)) (open_scopes s)"

definition scope_system_inv :: "scope_system \<Rightarrow> bool" where
  "scope_system_inv s \<longleftrightarrow>
     wif_inv (in_flight (sys_scope s)) \<and>
     wif_count (in_flight (sys_scope s)) = int (length (tracked_open s))"

lemma remove_innermost_filter:
  "map_of xs t = Some x \<Longrightarrow>
     length (filter (\<lambda>p. P (snd p)) (remove_innermost t xs)) + (if P x then 1 else 0) =
       length (filter (\<lambda>p. P (snd p)) xs)"
  by (induction xs) (auto split: if_splits)

lemma set_flow_in_flight [simp]: "in_flight (set_flow_id v t s) = in_flight s"
  by (simp add: set_flow_id_def set_handler_context_def split: option.splits)

lemma create_task_in_flight [simp]: "in_flight (create_task p c s) = in_flight s"
  by (simp add: create_task_def)

lemma reset_in_flight:
  "in_flight (reset_handler_scope tok t s) =
     (if tracked tok then wif_end (in_flight s) else in_flight s)"
  by (simp add: reset_handler_scope_def reset_handler_context_def)

lemma scope_step_inv: "scope_system_inv s \<Longrightarrow> scope_system_inv (scope_step s e)"
proof (cases e)
  case (Enter t kind op h work fresh)
  assume inv: "scope_system_inv s"
  obtain tok sc where ent: "enter_handler_scope kind op h work fresh t (sys_scope s) = (tok, sc)"
    by fastforce
  have "tracked tok = work" "in_flight sc = (if work then wif_begin (in_flight (sys_scope s))
      else in_flight (sys_scope s))"
    using enter_token[of kind op h work fresh t "sys_scope s"]
      enter_in_flight[of kind op h work fresh t "sys_scope s"] ent by simp_all
  with inv ent Enter show ?thesis
    by (auto simp: scope_system_inv_def tracked_open_def wif_begin_def wif_inv_def Let_def)
next
  case (Leave t)
  assume inv: "scope_system_inv s"
  show ?thesis
  proof (cases "map_of (open_scopes s) t")
    case None
    with inv Leave show ?thesis by simp
  next
    case (Some tok)
    from remove_innermost_filter[OF Some, of tracked] inv Leave Some show ?thesis
      by (auto simp: scope_system_inv_def tracked_open_def reset_in_flight wif_end_def wif_inv_def
          Let_def)
  qed
qed (auto simp: scope_system_inv_def tracked_open_def)

interpretation scopes: invariant_system scope_step scope_system_inv
  by unfold_locales (rule scope_step_inv)

lemma scope_system_init_inv: "scope_system_inv scope_system_init"
  by (simp add: scope_system_inv_def scope_system_init_def scope_init_def wif_new_def wif_inv_def
      tracked_open_def)

subsection \<open>Tasks do not see each other's contexts\<close>

fun touches :: "scope_event \<Rightarrow> nat \<Rightarrow> bool" where
  "touches (Enter u k op h w f) t \<longleftrightarrow> u = t"
| "touches (Leave u) t \<longleftrightarrow> u = t"
| "touches (SetFlow u v) t \<longleftrightarrow> u = t"
| "touches (Spawn p c) t \<longleftrightarrow> p = t \<or> c = t"

definition refs_valid :: "scope_system \<Rightarrow> bool" where
  "refs_valid s \<longleftrightarrow>
     (\<forall>t r. ctx_var (sys_scope s) t = Some r \<longrightarrow> r < length (ctx_heap (sys_scope s))) \<and>
     (\<forall>(t, tok) \<in> set (open_scopes s).
        \<forall>r. context_token tok = Some r \<longrightarrow> r < length (ctx_heap (sys_scope s)))"

text \<open>\<open>t\<close> owns the object \<open>r\<close>: no other task refers to it or will on leaving a scope.\<close>

definition owns :: "nat \<Rightarrow> nat \<Rightarrow> scope_system \<Rightarrow> bool" where
  "owns t r s \<longleftrightarrow>
     r < length (ctx_heap (sys_scope s)) \<and> ctx_var (sys_scope s) t = Some r \<and>
     (\<forall>u. u \<noteq> t \<longrightarrow> ctx_var (sys_scope s) u \<noteq> Some r) \<and>
     (\<forall>(u, tok) \<in> set (open_scopes s). u \<noteq> t \<longrightarrow> context_token tok \<noteq> Some r)"

lemma set_remove_innermost: "set (remove_innermost t xs) \<subseteq> set xs"
  by (induction t xs rule: remove_innermost.induct) auto

lemma set_flow_heap_length: "length (ctx_heap s) \<le> length (ctx_heap (set_flow_id v t s))"
  by (simp add: set_flow_id_def set_handler_context_def split: option.splits)

lemma scope_step_refs_valid: "refs_valid s \<Longrightarrow> refs_valid (scope_step s e)"
proof (cases e)
  case (Enter t kind op h work fresh)
  assume v: "refs_valid s"
  obtain tok sc where ent: "enter_handler_scope kind op h work fresh t (sys_scope s) = (tok, sc)"
    by fastforce
  have "context_token tok = ctx_var (sys_scope s) t"
    "ctx_var sc = (ctx_var (sys_scope s))(t := Some (length (ctx_heap (sys_scope s))))"
    "length (ctx_heap sc) = Suc (length (ctx_heap (sys_scope s)))"
    using enter_token[of kind op h work fresh t "sys_scope s"]
      enter_var[of kind op h work fresh t "sys_scope s"]
      enter_heap[of kind op h work fresh t "sys_scope s"] ent by auto
  with v ent Enter show ?thesis by (fastforce simp: refs_valid_def less_Suc_eq)
next
  case (Leave t)
  assume v: "refs_valid s"
  show ?thesis
  proof (cases "map_of (open_scopes s) t")
    case (Some tok)
    then have "(t, tok) \<in> set (open_scopes s)" by (rule map_of_SomeD)
    with v Leave Some set_remove_innermost[of t "open_scopes s"] show ?thesis
      by (fastforce simp: refs_valid_def reset_handler_scope_def reset_handler_context_def)
  qed (use v Leave in simp)
next
  case (SetFlow t x)
  assume v: "refs_valid s"
  with SetFlow show ?thesis
    by (cases "ctx_var (sys_scope s) t")
      (fastforce simp: refs_valid_def set_flow_id_def set_handler_context_def less_Suc_eq)+
next
  case (Spawn p c)
  assume "refs_valid s"
  with Spawn show ?thesis by (fastforce simp: refs_valid_def create_task_def)
qed

interpretation scope_refs: invariant_system scope_step refs_valid
  by unfold_locales (rule scope_step_refs_valid)

lemma scope_step_owns:
  assumes "refs_valid s" and "owns t r s" and "\<not> touches e t"
  shows "owns t r (scope_step s e) \<and>
    ctx_heap (sys_scope (scope_step s e)) ! r = ctx_heap (sys_scope s) ! r"
proof (cases e)
  case (Enter u kind op h work fresh)
  obtain tok sc where ent: "enter_handler_scope kind op h work fresh u (sys_scope s) = (tok, sc)"
    by fastforce
  obtain ctx where "context_token tok = ctx_var (sys_scope s) u"
    "ctx_var sc = (ctx_var (sys_scope s))(u := Some (length (ctx_heap (sys_scope s))))"
    "ctx_heap sc = ctx_heap (sys_scope s) @ [ctx]"
    using enter_token[of kind op h work fresh u "sys_scope s"]
      enter_var[of kind op h work fresh u "sys_scope s"]
      enter_heap[of kind op h work fresh u "sys_scope s"] ent by auto
  with assms ent Enter show ?thesis by (auto simp: owns_def nth_append)
next
  case (Leave u)
  show ?thesis
  proof (cases "map_of (open_scopes s) u")
    case (Some tok)
    then have "(u, tok) \<in> set (open_scopes s)" by (rule map_of_SomeD)
    with assms Leave Some set_remove_innermost[of u "open_scopes s"] show ?thesis
      by (fastforce simp: owns_def reset_handler_scope_def reset_handler_context_def)
  qed (use assms Leave in simp)
next
  case (SetFlow u x)
  with assms show ?thesis
    by (cases "ctx_var (sys_scope s) u")
      (auto simp: owns_def set_flow_id_def set_handler_context_def nth_append)
next
  case (Spawn p c)
  with assms show ?thesis by (auto simp: owns_def create_task_def)
qed

lemma run_owns:
  "refs_valid s \<Longrightarrow> owns t r s \<Longrightarrow> list_all (\<lambda>e. \<not> touches e t) es \<Longrightarrow>
     owns t r (run_events scope_step s es) \<and>
     ctx_heap (sys_scope (run_events scope_step s es)) ! r = ctx_heap (sys_scope s) ! r"
proof (induction es arbitrary: s)
  case (Cons e es)
  with scope_step_owns[of s t r e] scope_step_refs_valid[of s e] show ?case by simp
qed simp

lemma enter_owns:
  assumes "refs_valid s"
  shows "owns t (length (ctx_heap (sys_scope s))) (scope_step s (Enter t kind op h work fresh))"
proof -
  obtain tok sc where ent: "enter_handler_scope kind op h work fresh t (sys_scope s) = (tok, sc)"
    by fastforce
  obtain ctx where "context_token tok = ctx_var (sys_scope s) t"
    "ctx_var sc = (ctx_var (sys_scope s))(t := Some (length (ctx_heap (sys_scope s))))"
    "ctx_heap sc = ctx_heap (sys_scope s) @ [ctx]"
    using enter_token[of kind op h work fresh t "sys_scope s"]
      enter_var[of kind op h work fresh t "sys_scope s"]
      enter_heap[of kind op h work fresh t "sys_scope s"] ent by auto
  with assms ent show ?thesis by (fastforce simp: owns_def refs_valid_def)
qed

lemma scope_system_init_valid: "refs_valid scope_system_init"
  by (simp add: refs_valid_def scope_system_init_def scope_init_def)

subsection \<open>The context a scope establishes\<close>

lemma enter_raw_context:
  "get_raw_context t (snd (enter_handler_scope kind op (Some h) work fresh t s)) =
     Some \<lparr>ctx_kind = VStr kind, ctx_operation = VStr op,
       ctx_flow = (let f = (if h \<noteq> [] \<and> \<not> untraced_kind (VStr kind)
                            then dget_default h flow_id_header_name VNone else VNone)
                   in if truthy f then f else VStr fresh),
       ctx_hop = (if h \<noteq> [] \<and> \<not> untraced_kind (VStr kind)
                  then dget_default h hop_id_header_name VNone else VNone)\<rparr>"
  by (simp add: get_raw_context_def enter_handler_scope_def set_handler_context_def Let_def)

lemma set_flow_raw_context:
  "get_raw_context t s = Some ctx \<Longrightarrow>
     (\<forall>r. ctx_var s t = Some r \<longrightarrow> r < length (ctx_heap s)) \<Longrightarrow>
     get_raw_context t (set_flow_id v t s) = Some (ctx\<lparr>ctx_flow := v\<rparr>)"
  by (auto simp: get_raw_context_def set_flow_id_def)

lemma enter_ref_valid:
  "ctx_var (snd (enter_handler_scope kind op h work fresh t s)) t = Some r \<Longrightarrow>
     r < length (ctx_heap (snd (enter_handler_scope kind op h work fresh t s)))"
  using enter_heap[of kind op h work fresh t s] by (auto simp: enter_var)

text \<open>Within a scope the outbound headers are determined by the context, not by what they held.\<close>

lemma outbound_hop_headers_in_scope:
  assumes "get_raw_context t s = Some ctx" and "ctx_kind ctx \<noteq> VNone"
  shows "dget (apply_outbound_hop_headers h rpc fresh t s) hop_id_header_name = Some (VStr fresh)"
    and "dget (apply_outbound_hop_headers h rpc fresh t s) entrypoint_header_name =
      Some (ctx_kind ctx)"
    and "dget (apply_outbound_hop_headers h rpc fresh t s) operation_header_name =
      Some (ctx_operation ctx)"
    and "dget (apply_outbound_hop_headers h rpc fresh t s) parent_hop_id_header_name =
      (if \<not> untraced_kind (ctx_kind ctx) \<and> truthy (ctx_hop ctx) then Some (ctx_hop ctx) else None)"
    and "dget (apply_outbound_hop_headers h rpc fresh t s) rpc_service_header_name =
      (if rpc \<noteq> VNone then Some rpc else None)"
  using assms
  by (auto simp: apply_outbound_hop_headers_def current_handler_context_def Let_def dict_simps
      header_names)

lemma outbound_hop_headers_no_scope:
  assumes "current_handler_context t s = None"
  shows "dget (apply_outbound_hop_headers h rpc fresh t s) hop_id_header_name = Some (VStr fresh)"
    and "dget (apply_outbound_hop_headers h rpc fresh t s) entrypoint_header_name = None"
    and "dget (apply_outbound_hop_headers h rpc fresh t s) operation_header_name = None"
    and "dget (apply_outbound_hop_headers h rpc fresh t s) parent_hop_id_header_name = None"
    and "dget (apply_outbound_hop_headers h rpc fresh t s) rpc_service_header_name =
      (if rpc \<noteq> VNone then Some rpc else None)"
  using assms
  by (auto simp: apply_outbound_hop_headers_def Let_def dict_simps header_names)

lemma outbound_hop_headers_other:
  assumes "k \<notin> {hop_id_header_name, entrypoint_header_name, operation_header_name,
    parent_hop_id_header_name, rpc_service_header_name}"
  shows "dget (apply_outbound_hop_headers h rpc fresh t s) k = dget h k"
  using assms by (auto simp: apply_outbound_hop_headers_def Let_def dict_simps split: option.splits)

section \<open>Properties\<close>

text \<open>
  C5: whatever tasks do, in whatever order, \<open>wait_empty\<close> returns exactly when no scope that was
  entered with the work counter is still open, so draining neither misses a handler nor hangs.
\<close>

theorem drain_returns_iff_no_handler_runs:
  "wif_wait_empty (in_flight (sys_scope (run_events scope_step scope_system_init es))) \<longleftrightarrow>
     tracked_open (run_events scope_step scope_system_init es) = []"
proof -
  have "scope_system_inv (run_events scope_step scope_system_init es)"
    by (rule scopes.run_inv[OF scope_system_init_inv])
  then show ?thesis by (auto simp: scope_system_inv_def wif_inv_def wif_wait_empty_def)
qed

text \<open>
  C6: the context a handler enters is its own: whatever other tasks do afterwards (entering,
  leaving, changing their flow, spawning), the handler still sees the same flow, kind, operation
  and hop.
\<close>

theorem handler_context_is_isolated:
  assumes "list_all (\<lambda>e. \<not> touches e t) es"
    and "s = scope_step (run_events scope_step scope_system_init es0) (Enter t kind op h work fresh)"
  shows "get_raw_context t (sys_scope (run_events scope_step s es)) = get_raw_context t (sys_scope s)"
proof -
  define s0 where "s0 = run_events scope_step scope_system_init es0"
  have v0: "refs_valid s0" unfolding s0_def by (rule scope_refs.run_inv[OF scope_system_init_valid])
  let ?r = "length (ctx_heap (sys_scope s0))"
  have s: "s = scope_step s0 (Enter t kind op h work fresh)"
    using assms(2) by (simp only: s0_def)
  have own: "owns t ?r s" unfolding s by (rule enter_owns[OF v0])
  have v: "refs_valid s" unfolding s by (rule scope_step_refs_valid[OF v0])
  from run_owns[OF v own assms(1)] own show ?thesis
    by (auto simp: owns_def get_raw_context_def)
qed

theorem handler_context_is_isolated_witness:
  "get_raw_context 1 (sys_scope (run_events scope_step
      (scope_step (run_events scope_step scope_system_init [])
        (Enter 1 ''event'' ''a'' (Some [(''flow_id'', VStr ''f'')]) True ''x''))
      [Enter 2 ''rpc'' ''b'' None True ''y'', SetFlow 2 (VStr ''z'')])) =
   get_raw_context 1 (sys_scope (scope_step (run_events scope_step scope_system_init [])
        (Enter 1 ''event'' ''a'' (Some [(''flow_id'', VStr ''f'')]) True ''x'')))"
  by (rule handler_context_is_isolated[OF _ refl]) simp

text \<open>
  C7: a flow is followed across hops: what a message handler publishes carries the flow of the
  message it handles and names that message's hop as its parent, and the next handler, entered
  with those headers, has the same flow and hands on the first publisher's hop as the parent.
\<close>

theorem flow_and_hop_chain:
  assumes "kind \<in> {''event'', ''rpc''}" and "kind' \<in> {''event'', ''rpc''}"
    and "dget h flow_id_header_name = Some flow" and "truthy flow"
    and "hop = dget_default h hop_id_header_name VNone" and "fresh \<noteq> []"
    and "s1 = snd (enter_handler_scope kind op (Some h) w f1 t s)"
    and "apply_outbound_flow_id base VNone extra f2 t s1 = (v, h2, s2)"
    and "h3 = apply_outbound_hop_headers h2 rpc fresh t s2"
    and "s3 = snd (enter_handler_scope kind' op' (Some h3) w' f3 u s2)"
  shows "dget h3 flow_id_header_name = Some flow \<and>
    dget h3 parent_hop_id_header_name = (if truthy hop then Some hop else None) \<and>
    current_flow_id u s3 = flow \<and>
    dget (apply_outbound_hop_headers base' rpc' fresh' u s3) parent_hop_id_header_name =
      Some (VStr fresh)"
proof -
  have kinds: "\<not> untraced_kind (VStr kind)" "\<not> untraced_kind (VStr kind')"
    using assms(1,2) by (auto simp: untraced_kind_def)
  have "h \<noteq> []" and flow: "flow \<noteq> VNone" using assms(3,4) by auto
  then have raw1: "get_raw_context t s1 = Some \<lparr>ctx_kind = VStr kind, ctx_operation = VStr op,
      ctx_flow = flow, ctx_hop = hop\<rparr>" (is "_ = Some ?ctx")
    using assms(3,4,5) kinds(1) by (simp add: assms(7) enter_raw_context dget_default_def)
  then have "current_flow_id t s1 = flow" by (simp add: current_flow_id_def)
  with flow assms(8) have s2: "s2 = set_flow_id flow t s1" "h2 = dset flow_id_header_name flow base"
    by (auto simp: apply_outbound_flow_id_def resolve_flow_id_def Let_def)
  have raw2: "get_raw_context t s2 = Some ?ctx"
    unfolding s2(1) using set_flow_raw_context[OF raw1] enter_ref_valid by (simp add: assms(7))
  have h3: "dget h3 flow_id_header_name = Some flow"
    "dget h3 hop_id_header_name = Some (VStr fresh)"
    "dget h3 parent_hop_id_header_name = (if truthy hop then Some hop else None)"
    using outbound_hop_headers_in_scope[OF raw2] outbound_hop_headers_other kinds(1)
    by (auto simp: assms(9) s2(2) header_names)
  have "get_raw_context u s3 = Some \<lparr>ctx_kind = VStr kind', ctx_operation = VStr op',
      ctx_flow = flow, ctx_hop = VStr fresh\<rparr>"
    using h3 assms(4) kinds(2) by (auto simp: assms(10) enter_raw_context dget_default_def)
  with outbound_hop_headers_in_scope[OF this] assms(6) kinds(2) h3 show ?thesis
    by (simp add: current_flow_id_def)
qed

theorem flow_and_hop_chain_witness:
  "dget (apply_outbound_hop_headers [] VNone ''h3'' 2
     (snd (enter_handler_scope ''rpc'' ''m''
        (Some (apply_outbound_hop_headers [(''flow_id'', VStr ''f'')] (VStr ''svc'') ''h2'' 1
           (set_flow_id (VStr ''f'') 1
             (snd (enter_handler_scope ''event'' ''e''
                (Some [(''flow_id'', VStr ''f''), (''hop_id'', VStr ''h1'')]) True ''x'' 1 scope_init)))))
        True ''y'' 2
        (set_flow_id (VStr ''f'') 1
             (snd (enter_handler_scope ''event'' ''e''
                (Some [(''flow_id'', VStr ''f''), (''hop_id'', VStr ''h1'')]) True ''x'' 1 scope_init))))))
     parent_hop_id_header_name = Some (VStr ''h2'')"
proof -
  let ?h = "[(''flow_id'', VStr ''f''), (''hop_id'', VStr ''h1'')]"
  let ?s1 = "snd (enter_handler_scope ''event'' ''e'' (Some ?h) True ''x'' 1 scope_init)"
  have "dget ?h flow_id_header_name = Some (VStr ''f'')" by (simp add: flow_id_header_name_def)
  moreover have "apply_outbound_flow_id [] VNone None ''q'' 1 ?s1 =
      (VStr ''f'', [(''flow_id'', VStr ''f'')], set_flow_id (VStr ''f'') 1 ?s1)"
    by (simp add: apply_outbound_flow_id_def resolve_flow_id_def current_flow_id_def
        enter_raw_context untraced_kind_def header_names dget_default_def Let_def)
  ultimately show ?thesis
    using flow_and_hop_chain[of "''event''" "''rpc''" ?h "VStr ''f''" _ "''h2''" ?s1 "''e''" True
        "''x''" 1 scope_init "[]" None "''q''" "VStr ''f''" "[(''flow_id'', VStr ''f'')]"
        "set_flow_id (VStr ''f'') 1 ?s1" _ "VStr ''svc''" _ "''m''" True "''y''" 2 "[]" VNone "''h3''"]
    by simp
qed

end
