(* ===== verification/Serialization.thy ===== *)
theory Serialization
  imports Python_Effects
begin

text \<open>
  The wire format: \<open>Serializer\<close> of \<open>messaging/serialization.py\<close>, \<open>RpcReturn\<close> of \<open>messaging/rpc.py\<close>
  and the rebuilding of typed arguments in \<open>messaging/reconstruct.py\<close>.

  A message body is the JSON value its UTF-8 text denotes: \<open>json.dumps\<close> walks the built-in types
  itself and hands any other object to \<open>_default_encoder\<close>, whose result it walks again; \<open>json.loads\<close>
  applies \<open>_object_hook\<close> to every object from the inside out. Base64 is the algorithm of the
  standard library, on 8-bit words. The keys of dictionaries are strings here; a set can only be
  encoded by \<open>dict(...)\<close>, and one whose elements are pairs with other keys is refused.
\<close>

section \<open>Fallible traversal\<close>

fun map_res :: "('a \<Rightarrow> exn + 'b) \<Rightarrow> 'a list \<Rightarrow> exn + 'b list" where
  "map_res f [] = Inr []"
| "map_res f (x # xs) =
     (case f x of Inl e \<Rightarrow> Inl e | Inr y \<Rightarrow> (case map_res f xs of Inl e \<Rightarrow> Inl e | Inr ys \<Rightarrow> Inr (y # ys)))"

lemma map_res_cong [fundef_cong]:
  "xs = ys \<Longrightarrow> (\<And>x. x \<in> set ys \<Longrightarrow> f x = g x) \<Longrightarrow> map_res f xs = map_res g ys"
proof (induction ys arbitrary: xs)
  case (Cons y ys)
  then have "map_res f ys = map_res g ys" "f y = g y" by simp_all
  with Cons.prems(1) show ?case by (auto split: sum.splits)
qed simp

lemma map_res_Inr: "map_res f xs = Inr ys \<longleftrightarrow> list_all2 (\<lambda>x y. f x = Inr y) xs ys"
proof (induction xs arbitrary: ys)
  case Nil
  then show ?case by auto
next
  case (Cons x xs)
  show ?case
    by (cases ys) (auto simp: Cons.IH[symmetric] split: sum.splits)
qed

lemma map_res_pure: "(\<And>x. x \<in> set xs \<Longrightarrow> f x = Inr (g x)) \<Longrightarrow> map_res f xs = Inr (map g xs)"
  by (induction xs) auto

definition entry_res :: "('a \<Rightarrow> exn + 'b) \<Rightarrow> string \<times> 'a \<Rightarrow> exn + string \<times> 'b" where
  "entry_res f p = (case f (snd p) of Inl e \<Rightarrow> Inl e | Inr y \<Rightarrow> Inr (fst p, y))"

lemma entry_res_cong [fundef_cong]:
  "p = q \<Longrightarrow> (f (snd q) = g (snd q)) \<Longrightarrow> entry_res f p = entry_res g q"
  by (simp add: entry_res_def)

lemma entry_res_pair:
  "entry_res f (k, v) = (case f v of Inl e \<Rightarrow> Inl e | Inr y \<Rightarrow> Inr (k, y))"
  by (simp add: entry_res_def split: sum.split)

lemma entry_res_Inr: "entry_res f p = Inr q \<longleftrightarrow> fst q = fst p \<and> f (snd p) = Inr (snd q)"
  by (cases q) (auto simp: entry_res_def split: sum.splits)

section \<open>Base64\<close>

definition b64_alphabet :: string where
  "b64_alphabet = ''ABCDEFGHIJKLMNOPQRSTUVWXYZabcdefghijklmnopqrstuvwxyz0123456789+/''"

definition b64_char :: "nat \<Rightarrow> char" where
  "b64_char n = b64_alphabet ! n"

definition b64_value :: "char \<Rightarrow> nat option" where
  "b64_value c = map_of (zip b64_alphabet [0..<64]) c"

text \<open>Three bytes make four characters; a rest of one or two bytes is padded with \<open>=\<close>.\<close>

fun b64encode :: "8 word list \<Rightarrow> string" where
  "b64encode [] = []"
| "b64encode [a] =
     [b64_char (unat a div 4), b64_char (unat a mod 4 * 16), CHR ''='', CHR ''='']"
| "b64encode [a, b] =
     [b64_char (unat a div 4), b64_char (unat a mod 4 * 16 + unat b div 16),
      b64_char (unat b mod 16 * 4), CHR ''='']"
| "b64encode (a # b # c # rest) =
     [b64_char (unat a div 4), b64_char (unat a mod 4 * 16 + unat b div 16),
      b64_char (unat b mod 16 * 4 + unat c div 64), b64_char (unat c mod 64)] @ b64encode rest"

text \<open>
  The non-strict decoder: characters outside the alphabet are skipped, and decoding stops at the
  padding that completes a group. \<open>pos\<close> is the position in the group of four, \<open>left\<close> the bits
  carried over, \<open>pads\<close> the padding characters seen in a row.
\<close>

fun b64_loop :: "nat \<Rightarrow> nat \<Rightarrow> nat \<Rightarrow> 8 word list \<Rightarrow> string \<Rightarrow> exn + 8 word list" where
  "b64_loop pos left pads out [] =
     (if pos = 0 then Inr out else Inl (ValueError ''Incorrect padding''))"
| "b64_loop pos left pads out (c # cs) =
     (if c = CHR ''='' then
        (if 2 \<le> pos then
           (if 4 \<le> pos + (pads + 1) then Inr out else b64_loop pos left (pads + 1) out cs)
         else b64_loop pos left pads out cs)
      else (case b64_value c of
        None \<Rightarrow> b64_loop pos left pads out cs
      | Some v \<Rightarrow>
          if pos = 0 then b64_loop 1 v 0 out cs
          else if pos = 1 then
            b64_loop 2 (v mod 16) 0 (out @ [of_nat (left * 4 + v div 16)]) cs
          else if pos = 2 then
            b64_loop 3 (v mod 4) 0 (out @ [of_nat (left * 16 + v div 4)]) cs
          else b64_loop 0 0 0 (out @ [of_nat (left * 64 + v)]) cs))"

fun b64decode :: "pyval \<Rightarrow> exn + 8 word list" where
  "b64decode (VStr s) =
     (if list_all (\<lambda>c. of_char c < (128 :: nat)) s then b64_loop 0 0 0 [] s
      else Inl (ValueError ''string argument should contain only ASCII characters''))"
| "b64decode (VBytes bs) = b64_loop 0 0 0 [] (map (\<lambda>b. char_of (unat b)) bs)"
| "b64decode _ = Inl (TypeError ''argument should be a bytes-like object or ASCII string'')"

lemma b64_table:
  "list_all (\<lambda>n. b64_value (b64_char n) = Some n \<and> b64_char n \<noteq> CHR ''='' \<and>
     of_char (b64_char n) < (128 :: nat)) [0..<64]"
  by code_simp

lemma b64_char:
  assumes "n < 64"
  shows "b64_value (b64_char n) = Some n" "b64_char n \<noteq> CHR ''=''" "of_char (b64_char n) < (128 :: nat)"
proof -
  have "n \<in> set [0..<64]" using assms by simp
  with b64_table show "b64_value (b64_char n) = Some n" "b64_char n \<noteq> CHR ''=''"
    "of_char (b64_char n) < (128 :: nat)" by (auto simp only: list_all_iff)
qed

text \<open>The bytes are cut into groups of six bits and put together again.\<close>

lemma pack_div: "y < m \<Longrightarrow> (x * m + y) div m = (x :: nat)"
  by simp

lemma pack_mod: "y < m \<Longrightarrow> (x * m + y) mod m = (y :: nat)"
  by simp

lemma unat_byte: "unat (a :: 8 word) < 256"
  using unsigned_less[of a] by simp

lemma byte_parts:
  fixes x :: nat
  assumes "x < 256"
  shows "x div 4 < 64" "x mod 4 * 16 < 64" "x mod 16 * 4 < 64" "x mod 64 < 64" "x div 16 < 16"
    "x div 64 < 4"
  using assms by (simp_all add: less_mult_imp_div_less) (presburger+)?

lemma byte_groups:
  fixes x y z :: nat
  assumes "x < 256" "y < 256" "z < 256"
  shows "x mod 4 * 16 + y div 16 < 64" "y mod 16 * 4 + z div 64 < 64"
    "x div 4 * 4 + (x mod 4 * 16 + y div 16) div 16 = x"
    "(x mod 4 * 16 + y div 16) mod 16 * 16 + (y mod 16 * 4 + z div 64) div 4 = y"
    "(y mod 16 * 4 + z div 64) mod 4 * 64 + z mod 64 = z"
proof -
  note p = byte_parts[OF assms(1)] byte_parts[OF assms(2)] byte_parts[OF assms(3)]
  have m: "x mod 4 < 4" "y mod 16 < 16" by simp_all
  show "x mod 4 * 16 + y div 16 < 64" using p(11) m by linarith
  show "y mod 16 * 4 + z div 64 < 64" using p(18) m by linarith
  show "x div 4 * 4 + (x mod 4 * 16 + y div 16) div 16 = x"
    unfolding pack_div[OF p(11)] by (rule div_mult_mod_eq)
  show "(x mod 4 * 16 + y div 16) mod 16 * 16 + (y mod 16 * 4 + z div 64) div 4 = y"
    unfolding pack_div[OF p(18)] pack_mod[OF p(11)] by (rule div_mult_mod_eq)
  show "(y mod 16 * 4 + z div 64) mod 4 * 64 + z mod 64 = z"
    unfolding pack_mod[OF p(18)] by (rule div_mult_mod_eq)
qed

lemma b64_quad:
  assumes "v1 < 64" "v2 < 64" "v3 < 64" "v4 < 64"
  shows "b64_loop 0 0 0 out (b64_char v1 # b64_char v2 # b64_char v3 # b64_char v4 # cs) =
      b64_loop 0 0 0 (out @ [of_nat (v1 * 4 + v2 div 16), of_nat (v2 mod 16 * 16 + v3 div 4),
         of_nat (v3 mod 4 * 64 + v4)]) cs"
    "b64_loop 0 0 0 out (b64_char v1 # b64_char v2 # b64_char v3 # CHR ''='' # cs) =
      Inr (out @ [of_nat (v1 * 4 + v2 div 16), of_nat (v2 mod 16 * 16 + v3 div 4)])"
    "b64_loop 0 0 0 out (b64_char v1 # b64_char v2 # CHR ''='' # CHR ''='' # cs) =
      Inr (out @ [of_nat (v1 * 4 + v2 div 16)])"
  using assms by (simp_all add: b64_char del: of_nat_add of_nat_mult)

lemma b64_loop_encode: "b64_loop 0 0 0 out (b64encode bs) = Inr (out @ bs)"
proof (induction bs arbitrary: out rule: b64encode.induct)
  case (2 a)
  note p = byte_parts[OF unat_byte[of a]] and g = byte_groups[of "unat a" 0 0]
  show ?case using p b64_quad(3)[of "unat a div 4" "unat a mod 4 * 16" 0 0 out "[]"] g(3) unat_byte[of a]
    by (simp add: del: of_nat_add of_nat_mult)
next
  case (3 a b)
  note p = byte_parts[OF unat_byte[of a]] byte_parts[OF unat_byte[of b]]
    and g = byte_groups[of "unat a" "unat b" 0, OF unat_byte unat_byte, simplified]
  show ?case
    using p g b64_quad(2)[of "unat a div 4" "unat a mod 4 * 16 + unat b div 16" "unat b mod 16 * 4" 0 out "[]"]
    by (simp del: of_nat_add of_nat_mult)
next
  case (4 a b c rest)
  note p = byte_parts[OF unat_byte[of a]] byte_parts[OF unat_byte[of c]]
    and g = byte_groups[OF unat_byte[of a] unat_byte[of b] unat_byte[of c]]
  note q = b64_quad(1)[OF p(1) g(1,2) p(10), of out "b64encode rest", unfolded g(3,4,5)]
  show ?case using q 4[of "out @ [a, b, c]"] by simp
qed simp

lemma b64_ascii: "list_all (\<lambda>c. of_char c < (128 :: nat)) (b64encode bs)"
proof (induction bs rule: b64encode.induct)
  case (2 a)
  then show ?case using byte_parts[OF unat_byte[of a]] by (simp add: b64_char)
next
  case (3 a b)
  then show ?case
    using byte_parts[OF unat_byte[of a]] byte_parts[OF unat_byte[of b]]
      byte_groups(1)[OF unat_byte[of a] unat_byte[of b] unat_byte[of b]] by (simp add: b64_char)
next
  case (4 a b c rest)
  then show ?case
    using byte_parts[OF unat_byte[of a]] byte_parts[OF unat_byte[of c]]
      byte_groups(1,2)[OF unat_byte[of a] unat_byte[of b] unat_byte[of c]] by (simp add: b64_char)
qed simp

lemma b64_roundtrip: "b64decode (VStr (b64encode bs)) = Inr bs"
  by (simp add: b64_ascii b64_loop_encode)


section \<open>Encoding\<close>

datatype json =
    JNull
  | JBool bool
  | JInt int
  | JFloat rat
  | JStr string
  | JArr "json list"
  | JObj "(string \<times> json) list"

fun error_type_name :: "rpc_error_type \<Rightarrow> string" where
  "error_type_name ET_NONE = ''NONE''"
| "error_type_name ET_CLIENT = ''CLIENT''"
| "error_type_name ET_SERVER = ''SERVER''"

text \<open>\<open>dict(obj)\<close> of an element sequence: each element is a pair, or a text of two characters.\<close>

definition pair_of :: "pyval \<Rightarrow> exn + string \<times> pyval" where
  "pair_of v = (case v of
     VTuple [VStr k, w] \<Rightarrow> Inr (k, w)
   | VTuple [_, _] \<Rightarrow> Inl (TypeError ''keys must be strings'')
   | VTuple _ \<Rightarrow> Inl (ValueError ''dictionary update sequence element has the wrong length'')
   | VStr [a, b] \<Rightarrow> Inr ([a], VStr [b])
   | VStr _ \<Rightarrow> Inl (ValueError ''dictionary update sequence element has the wrong length'')
   | _ \<Rightarrow> Inl (TypeError ''cannot convert dictionary update sequence element to a sequence''))"

definition dict_of :: "pyval \<Rightarrow> exn + pydict" where
  "dict_of v = (case v of
     VDict d \<Rightarrow> Inr d
   | VMapping d \<Rightarrow> Inr d
   | VSet xs \<Rightarrow> map_sum id (dunion []) (map_res pair_of xs)
   | _ \<Rightarrow> Inl (TypeError ''object is not iterable''))"

definition default_encoder :: "pyval \<Rightarrow> exn + pyval" where
  "default_encoder obj = (case obj of
     VTemporal iso_text \<Rightarrow> Inr (VStr iso_text)
   | VUuid u \<Rightarrow> Inr (VStr u)
   | VBytes bs \<Rightarrow> Inr (VDict [(''__bytes__'', VBool True), (''data'', VStr (b64encode bs))])
   | VRpc success result message error_type error_code \<Rightarrow>
       Inr (VDict [(''__rpcreturn__'', VBool True), (''success'', VBool success),
         (''result'', result), (''message'', message),
         (''error_type'', VStr (error_type_name error_type)), (''error_code'', error_code)])
   | VModel dump \<Rightarrow> Inr dump
   | VObject d \<Rightarrow> Inr (VDict d)
   | _ \<Rightarrow> (case dict_of obj of
        Inr d \<Rightarrow> Inr (VDict d)
      | Inl e \<Rightarrow> if is_TypeError e then Inl (TypeError ''Cannot serialize to JSON'') else Inl e))"

text \<open>Every object \<open>_default_encoder\<close> takes apart gets lighter, so the walk ends.\<close>

function jweight :: "pyval \<Rightarrow> nat" where
  "jweight v = (case v of
     VBytes bs \<Rightarrow> 10
   | VTemporal t \<Rightarrow> 2
   | VUuid u \<Rightarrow> 2
   | VStr s \<Rightarrow> 1
   | VList xs \<Rightarrow> Suc (sum_list (map jweight xs))
   | VTuple xs \<Rightarrow> Suc (sum_list (map jweight xs))
   | VSet xs \<Rightarrow> Suc (Suc (sum_list (map (\<lambda>x. Suc (jweight x)) xs)))
   | VDict d \<Rightarrow> Suc (sum_list (map (\<lambda>p. jweight (snd p)) d))
   | VObject d \<Rightarrow> Suc (Suc (sum_list (map (\<lambda>p. jweight (snd p)) d)))
   | VMapping d \<Rightarrow> Suc (Suc (sum_list (map (\<lambda>p. jweight (snd p)) d)))
   | VRpc s r m e c \<Rightarrow> 10 + jweight r + jweight m + jweight c
   | VModel w \<Rightarrow> Suc (jweight w)
   | _ \<Rightarrow> 1)"
  by pat_completeness auto
termination
proof (relation "measure size")
qed (auto simp: size_pyval_entry less_Suc_eq_le size_list_estimation' dest: size_pyval_entry)


declare jweight.simps [simp del]

lemma jweight_simps [simp]:
  "jweight VNone = 1" "jweight VMissing = 1" "jweight (VBool b) = 1" "jweight (VInt i) = 1"
  "jweight (VFloat r) = 1" "jweight (VStr s) = 1" "jweight (VBytes bs) = 10"
  "jweight (VTemporal t) = 2" "jweight (VUuid u) = 2"
  "jweight (VList xs) = Suc (sum_list (map jweight xs))"
  "jweight (VTuple xs) = Suc (sum_list (map jweight xs))"
  "jweight (VSet xs) = Suc (Suc (sum_list (map (\<lambda>x. Suc (jweight x)) xs)))"
  "jweight (VDict d) = Suc (sum_list (map (\<lambda>p. jweight (snd p)) d))"
  "jweight (VObject d) = Suc (Suc (sum_list (map (\<lambda>p. jweight (snd p)) d)))"
  "jweight (VMapping d) = Suc (Suc (sum_list (map (\<lambda>p. jweight (snd p)) d)))"
  "jweight (VRpc ok v m e c) = 10 + jweight v + jweight m + jweight c"
  "jweight (VModel w) = Suc (jweight w)" "jweight (VOpaque n) = 1"
  by (simp_all add: jweight.simps)

lemma jweight_mem: "x \<in> set xs \<Longrightarrow> jweight x \<le> sum_list (map jweight xs)"
  by (rule member_le_sum_list) simp_all

lemma jweight_entry:
  "(k, v) \<in> set d \<Longrightarrow> jweight v \<le> sum_list (map (\<lambda>p. jweight (snd p)) d)"
  by (induction d) auto

lemma jweight_entry_Suc:
  "(k, v) \<in> set d \<Longrightarrow> jweight v \<le> Suc (sum_list (map (\<lambda>p. jweight (snd p)) d))"
  by (rule le_SucI) (rule jweight_entry)

lemma jweight_dset:
  "sum_list (map (\<lambda>p. jweight (snd p)) (dset k v d)) \<le>
     sum_list (map (\<lambda>p. jweight (snd p)) d) + jweight v"
  by (induction d) auto

lemma jweight_dunion:
  "sum_list (map (\<lambda>p. jweight (snd p)) (dunion d e)) \<le>
     sum_list (map (\<lambda>p. jweight (snd p)) d) + sum_list (map (\<lambda>p. jweight (snd p)) e)"
proof (induction d e rule: dunion.induct)
  case (2 d k v e)
  then show ?case using jweight_dset[of k v d] by simp
qed simp

lemma pair_of_weight: "pair_of v = Inr (k, w) \<Longrightarrow> jweight w \<le> jweight v"
  by (auto simp: pair_of_def split: pyval.splits list.splits)

lemma pairs_weight:
  "map_res pair_of xs = Inr ps \<Longrightarrow>
     sum_list (map (\<lambda>p. jweight (snd p)) ps) \<le> sum_list (map (\<lambda>x. Suc (jweight x)) xs)"
proof (induction xs arbitrary: ps)
  case (Cons x xs)
  then obtain k w qs where "pair_of x = Inr (k, w)" "map_res pair_of xs = Inr qs" "ps = (k, w) # qs"
    by (auto split: sum.splits)
  with Cons.IH pair_of_weight[of x k w] show ?case by fastforce
qed simp

lemma map_sum_Inr: "map_sum id f r = Inr y \<longleftrightarrow> (\<exists>x. r = Inr x \<and> y = f x)"
  by (cases r) auto

lemma dict_of_weight:
  assumes "dict_of v = Inr d" "v \<noteq> VDict d"
  shows "jweight (VDict d) < jweight v"
proof (cases v)
  case (VSet xs)
  with assms obtain ps where "map_res pair_of xs = Inr ps" "d = dunion [] ps"
    by (auto simp: dict_of_def map_sum_Inr)
  with pairs_weight[of xs ps] jweight_dunion[of "[]" ps] VSet show ?thesis by simp
qed (use assms in \<open>auto simp: dict_of_def\<close>)

definition json_native :: "pyval \<Rightarrow> bool" where
  "json_native v = (case v of
     VNone \<Rightarrow> True | VBool b \<Rightarrow> True | VInt i \<Rightarrow> True | VFloat r \<Rightarrow> True | VStr s \<Rightarrow> True
   | VList xs \<Rightarrow> True | VTuple xs \<Rightarrow> True | VDict d \<Rightarrow> True | _ \<Rightarrow> False)"

lemma default_encoder_weight:
  "default_encoder v = Inr w \<Longrightarrow> \<not> json_native v \<Longrightarrow> jweight w < jweight v"
  using dict_of_weight[of v]
  by (cases v) (auto simp: default_encoder_def json_native_def split: sum.splits if_splits)

function jencode :: "pyval \<Rightarrow> exn + json" where
  "jencode v =
     (if json_native v then
        (case v of
           VBool b \<Rightarrow> Inr (JBool b)
         | VInt i \<Rightarrow> Inr (JInt i)
         | VFloat r \<Rightarrow> Inr (JFloat r)
         | VStr s \<Rightarrow> Inr (JStr s)
         | VList xs \<Rightarrow> map_sum id JArr (map_res jencode xs)
         | VTuple xs \<Rightarrow> map_sum id JArr (map_res jencode xs)
         | VDict d \<Rightarrow> map_sum id JObj (map_res (entry_res jencode) d)
         | _ \<Rightarrow> Inr JNull)
      else (case default_encoder v of Inl e \<Rightarrow> Inl e | Inr w \<Rightarrow> jencode w))"
  by pat_completeness auto
termination
  by (relation "measure jweight")
    (auto simp: default_encoder_weight less_Suc_eq_le jweight_mem jweight_entry)

declare jencode.simps [simp del]

definition dumps :: "pyval \<Rightarrow> exn + json" where
  "dumps obj = jencode obj"

section \<open>Decoding\<close>

definition error_type_of :: "pyval \<Rightarrow> exn + rpc_error_type" where
  "error_type_of v =
     (case v of
        VStr n \<Rightarrow> (if n = ''NONE'' then Inr ET_NONE else if n = ''CLIENT'' then Inr ET_CLIENT
                   else if n = ''SERVER'' then Inr ET_SERVER else Inl (KeyError n))
      | VList xs \<Rightarrow> Inl (TypeError ''unhashable type'')
      | VDict d \<Rightarrow> Inl (TypeError ''unhashable type'')
      | VRpc success result message error_type error_code \<Rightarrow> Inl (TypeError ''unhashable type'')
      | _ \<Rightarrow> Inl (KeyError ''error_type''))"

text \<open>The success field is kept as its truth value, the only use the runtime makes of it.\<close>

definition object_hook :: "pydict \<Rightarrow> exn + pyval" where
  "object_hook dct =
     (if dget dct ''__rpcreturn__'' = Some (VBool True) then
        (case (case dget dct ''error_type'' of None \<Rightarrow> Inr ET_NONE | Some v \<Rightarrow> error_type_of v) of
           Inl e \<Rightarrow> Inl e
         | Inr error_type \<Rightarrow>
             (case dget dct ''success'' of
                None \<Rightarrow> Inl (KeyError ''success'')
              | Some success \<Rightarrow>
                  Inr (VRpc (truthy success) (dget_default dct ''result'' VNone)
                    (dget_default dct ''message'' VNone) error_type
                    (dget_default dct ''error_code'' VNone))))
      else if dget dct ''__bytes__'' = Some (VBool True) then
        (case dget dct ''data'' of
           None \<Rightarrow> Inl (KeyError ''data'')
         | Some v \<Rightarrow> map_sum id VBytes (b64decode v))
      else Inr (VDict dct))"

fun jdecode :: "json \<Rightarrow> exn + pyval" where
  "jdecode JNull = Inr VNone"
| "jdecode (JBool b) = Inr (VBool b)"
| "jdecode (JInt i) = Inr (VInt i)"
| "jdecode (JFloat r) = Inr (VFloat r)"
| "jdecode (JStr s) = Inr (VStr s)"
| "jdecode (JArr js) = map_sum id VList (map_res jdecode js)"
| "jdecode (JObj d) =
     (case map_res (entry_res jdecode) d of
        Inl e \<Rightarrow> Inl e
      | Inr entries \<Rightarrow> object_hook (dunion [] entries))"

definition loads :: "json \<Rightarrow> exn + pyval" where
  "loads data = jdecode data"


section \<open>What the receiver of a value gets\<close>

text \<open>
  The abstract specification of the wire: tuples arrive as lists, instants and identifiers as their
  text, models and plain objects as dictionaries; bytes and \<open>RpcReturn\<close> arrive as themselves.
  \<open>transportable\<close> values have only encodable parts, distinct keys and no dictionary that reads as a
  marker of the format.
\<close>

function wire :: "pyval \<Rightarrow> pyval" where
  "wire v = (case v of
     VTemporal t \<Rightarrow> VStr t
   | VUuid u \<Rightarrow> VStr u
   | VList xs \<Rightarrow> VList (map wire xs)
   | VTuple xs \<Rightarrow> VList (map wire xs)
   | VDict d \<Rightarrow> VDict (map (\<lambda>p. (fst p, wire (snd p))) d)
   | VObject d \<Rightarrow> VDict (map (\<lambda>p. (fst p, wire (snd p))) d)
   | VMapping d \<Rightarrow> VDict (map (\<lambda>p. (fst p, wire (snd p))) d)
   | VRpc ok r m e c \<Rightarrow> VRpc ok (wire r) (wire m) e (wire c)
   | VModel w \<Rightarrow> wire w
   | _ \<Rightarrow> v)"
  by pat_completeness auto
termination
  by (relation "measure jweight") (auto simp: less_Suc_eq_le jweight_mem jweight_entry jweight_entry_Suc)

declare wire.simps [simp del]

lemma wire_simps [simp]:
  "wire VNone = VNone" "wire (VBool b) = VBool b" "wire (VInt i) = VInt i"
  "wire (VFloat q) = VFloat q" "wire (VStr s) = VStr s" "wire (VBytes bs) = VBytes bs"
  "wire (VTemporal t) = VStr t" "wire (VUuid u) = VStr u"
  "wire (VList xs) = VList (map wire xs)" "wire (VTuple xs) = VList (map wire xs)"
  "wire (VDict d) = VDict (map (\<lambda>p. (fst p, wire (snd p))) d)"
  "wire (VObject d) = VDict (map (\<lambda>p. (fst p, wire (snd p))) d)"
  "wire (VMapping d) = VDict (map (\<lambda>p. (fst p, wire (snd p))) d)"
  "wire (VRpc ok r m e c) = VRpc ok (wire r) (wire m) e (wire c)"
  "wire (VModel w) = wire w"
  by (simp_all add: wire.simps)

definition wire_entries :: "pydict \<Rightarrow> pydict" where
  "wire_entries d = map (\<lambda>p. (fst p, wire (snd p))) d"

definition marker_free :: "pydict \<Rightarrow> bool" where
  "marker_free d \<longleftrightarrow> dget d ''__bytes__'' \<noteq> Some (VBool True) \<and>
     dget d ''__rpcreturn__'' \<noteq> Some (VBool True)"

definition plain_dict :: "pydict \<Rightarrow> bool" where
  "plain_dict d \<longleftrightarrow> distinct (map fst d) \<and> marker_free (wire_entries d)"

function transportable :: "pyval \<Rightarrow> bool" where
  "transportable v = (case v of
     VMissing \<Rightarrow> False
   | VSet xs \<Rightarrow> False
   | VOpaque n \<Rightarrow> False
   | VList xs \<Rightarrow> list_all transportable xs
   | VTuple xs \<Rightarrow> list_all transportable xs
   | VDict d \<Rightarrow> plain_dict d \<and> list_all (\<lambda>p. transportable (snd p)) d
   | VObject d \<Rightarrow> plain_dict d \<and> list_all (\<lambda>p. transportable (snd p)) d
   | VMapping d \<Rightarrow> plain_dict d \<and> list_all (\<lambda>p. transportable (snd p)) d
   | VRpc ok r m e c \<Rightarrow> transportable r \<and> transportable m \<and> transportable c
   | VModel w \<Rightarrow> transportable w
   | _ \<Rightarrow> True)"
  by pat_completeness auto
termination
  by (relation "measure jweight") (auto simp: less_Suc_eq_le jweight_mem jweight_entry jweight_entry_Suc)

declare transportable.simps [simp del]

lemma transportable_simps [simp]:
  "transportable VNone" "\<not> transportable VMissing" "transportable (VBool b)" "transportable (VInt i)"
  "transportable (VFloat q)" "transportable (VStr s)" "transportable (VBytes bs)"
  "transportable (VTemporal t)" "transportable (VUuid u)"
  "transportable (VList xs) = list_all transportable xs"
  "transportable (VTuple xs) = list_all transportable xs" "\<not> transportable (VSet xs)"
  "transportable (VDict d) = (plain_dict d \<and> list_all (\<lambda>p. transportable (snd p)) d)"
  "transportable (VObject d) = (plain_dict d \<and> list_all (\<lambda>p. transportable (snd p)) d)"
  "transportable (VMapping d) = (plain_dict d \<and> list_all (\<lambda>p. transportable (snd p)) d)"
  "transportable (VRpc ok r m e c) = (transportable r \<and> transportable m \<and> transportable c)"
  "transportable (VModel w) = transportable w" "\<not> transportable (VOpaque n)"
  by (simp_all add: transportable.simps)

text \<open>A value makes the trip when it encodes and decodes to its wire value.\<close>

definition travels :: "pyval \<Rightarrow> bool" where
  "travels v \<longleftrightarrow> (\<exists>j. jencode v = Inr j \<and> jdecode j = Inr (wire v))"

lemma travelsE:
  assumes "travels v"
  obtains j where "jencode v = Inr j" "jdecode j = Inr (wire v)"
  using assms by (auto simp: travels_def)

lemma travels_list:
  assumes "\<And>x. x \<in> set xs \<Longrightarrow> travels x"
  shows "\<exists>js. map_res jencode xs = Inr js \<and> map_res jdecode js = Inr (map wire xs)"
  using assms
proof (induction xs)
  case (Cons x xs)
  then obtain js where js: "map_res jencode xs = Inr js" "map_res jdecode js = Inr (map wire xs)"
    by auto
  obtain j where "jencode x = Inr j" "jdecode j = Inr (wire x)"
    using Cons.prems[of x] travelsE by auto
  with js show ?case by simp
qed simp

lemma travels_entries:
  assumes "\<forall>v \<in> snd ` set d. travels v"
  shows "\<exists>js. map_res (entry_res jencode) d = Inr js \<and>
    map_res (entry_res jdecode) js = Inr (wire_entries d)"
  using assms
proof (induction d)
  case (Cons p d)
  obtain k v where p: "p = (k, v)" by fastforce
  have "\<forall>v \<in> snd ` set d. travels v" using Cons.prems by auto
  from Cons.IH[OF this] obtain js where js: "map_res (entry_res jencode) d = Inr js"
    "map_res (entry_res jdecode) js = Inr (wire_entries d)" by blast
  obtain j where "jencode v = Inr j" "jdecode j = Inr (wire v)"
    using Cons.prems p travelsE by auto
  with js p show ?case by (simp add: entry_res_pair wire_entries_def)
qed (simp add: wire_entries_def)

lemma dset_fresh: "k \<notin> set (map fst d) \<Longrightarrow> dset k v d = d @ [(k, v)]"
  by (induction d) auto

lemma dunion_fresh: "distinct (map fst (d @ e)) \<Longrightarrow> dunion d e = d @ e"
  by (induction d e rule: dunion.induct) (auto simp: dset_fresh)

lemma travels_dict:
  assumes "plain_dict d" "\<forall>v \<in> snd ` set d. travels v"
  shows "\<exists>j. jencode (VDict d) = Inr j \<and> jdecode j = Inr (VDict (wire_entries d))"
proof -
  obtain js where js: "map_res (entry_res jencode) d = Inr js"
    "map_res (entry_res jdecode) js = Inr (wire_entries d)" using travels_entries[OF assms(2)] by blast
  have "dunion [] (wire_entries d) = wire_entries d"
    using assms(1) by (intro dunion_fresh[of "[]", simplified])
      (simp add: plain_dict_def wire_entries_def comp_def)
  with js assms(1) show ?thesis
    by (simp add: jencode.simps[of "VDict d"] json_native_def object_hook_def plain_dict_def
        marker_free_def)
qed

lemma jencode_default:
  "\<not> json_native v \<Longrightarrow> default_encoder v = Inr w \<Longrightarrow> jencode v = jencode w"
  by (simp add: jencode.simps[of v])

lemma jencode_atoms [simp]:
  "jencode VNone = Inr JNull" "jencode (VBool b) = Inr (JBool b)" "jencode (VInt i) = Inr (JInt i)"
  "jencode (VFloat q) = Inr (JFloat q)" "jencode (VStr s) = Inr (JStr s)"
  by (simp_all add: jencode.simps json_native_def)

lemma error_type_roundtrip [simp]: "error_type_of (VStr (error_type_name e)) = Inr e"
  by (cases e) (simp_all add: error_type_of_def)

lemma travels_rpc:
  assumes "travels r" "travels m" "travels c"
  shows "travels (VRpc ok r m e c)"
proof -
  let ?d = "[(''__rpcreturn__'', VBool True), (''success'', VBool ok), (''result'', r), (''message'', m),
       (''error_type'', VStr (error_type_name e)), (''error_code'', c)]"
  obtain jr where jr: "jencode r = Inr jr" "jdecode jr = Inr (wire r)" using assms(1) travelsE by blast
  obtain jm where jm: "jencode m = Inr jm" "jdecode jm = Inr (wire m)" using assms(2) travelsE by blast
  obtain jc where jc: "jencode c = Inr jc" "jdecode jc = Inr (wire c)" using assms(3) travelsE by blast
  have "jencode (VRpc ok r m e c) = jencode (VDict ?d)"
    by (rule jencode_default) (simp_all add: json_native_def default_encoder_def)
  also have "\<dots> = Inr (JObj [(''__rpcreturn__'', JBool True), (''success'', JBool ok), (''result'', jr),
      (''message'', jm), (''error_type'', JStr (error_type_name e)), (''error_code'', jc)])"
    using jr jm jc by (simp add: jencode.simps[of "VDict ?d"] json_native_def entry_res_pair)
  finally show ?thesis
    using jr jm jc by (simp add: travels_def entry_res_pair object_hook_def dget_default_def)
qed

lemma travels_bytes: "travels (VBytes bs)"
proof -
  let ?d = "[(''__bytes__'', VBool True), (''data'', VStr (b64encode bs))]"
  have "jencode (VBytes bs) = jencode (VDict ?d)"
    by (rule jencode_default) (simp_all add: json_native_def default_encoder_def)
  also have "\<dots> = Inr (JObj [(''__bytes__'', JBool True), (''data'', JStr (b64encode bs))])"
    by (simp add: jencode.simps[of "VDict ?d"] json_native_def entry_res_pair)
  finally show ?thesis
    using b64_roundtrip[of bs] by (simp add: travels_def entry_res_pair object_hook_def del: b64decode.simps)
qed

lemma transportable_travels: "transportable v \<Longrightarrow> travels v"
proof (induction "jweight v" arbitrary: v rule: less_induct)
  case less
  have dict: "\<exists>j. jencode (VDict d) = Inr j \<and> jdecode j = Inr (VDict (wire_entries d))"
    if "plain_dict d" "list_all (\<lambda>p. transportable (snd p)) d" "jweight (VDict d) \<le> jweight v" for d
  proof (rule travels_dict, rule that(1), rule ballI)
    fix w
    assume "w \<in> snd ` set d"
    then obtain k where mem: "(k, w) \<in> set d" by auto
    with that(3) jweight_entry[of k w d] have "jweight w < jweight v" by simp
    moreover have "transportable w" using mem that(2) by (auto simp: list_all_iff)
    ultimately show "travels w" using less.hyps by blast
  qed
  have lst: "\<exists>js. map_res jencode xs = Inr js \<and> map_res jdecode js = Inr (map wire xs)"
    if "list_all transportable xs" "jweight (VList xs) \<le> jweight v" for xs
  proof (rule travels_list)
    fix x
    assume mem: "x \<in> set xs"
    with that(2) jweight_mem[of x xs] have "jweight x < jweight v" by simp
    moreover have "transportable x" using mem that(1) by (auto simp: list_all_iff)
    ultimately show "travels x" using less.hyps by blast
  qed
  show ?case
  proof (cases v)
    case (VBytes bs)
    then show ?thesis by (simp add: travels_bytes)
  next
    case (VRpc ok r m e c)
    with less show ?thesis by (auto intro!: travels_rpc)
  next
    case (VModel w)
    with less.hyps[of w] less.prems show ?thesis
      by (simp add: travels_def jencode_default[of "VModel w" w] json_native_def default_encoder_def)
  next
    case (VObject d)
    with dict[of d] less.prems show ?thesis
      by (simp add: travels_def jencode_default[of "VObject d" "VDict d"] json_native_def
          default_encoder_def flip: wire_entries_def)
  next
    case (VMapping d)
    with dict[of d] less.prems show ?thesis
      by (simp add: travels_def jencode_default[of "VMapping d" "VDict d"] json_native_def
          default_encoder_def dict_of_def flip: wire_entries_def)
  next
    case (VDict d)
    with dict[of d] less.prems show ?thesis by (simp add: travels_def flip: wire_entries_def)
  next
    case (VList xs)
    with lst[of xs] less.prems show ?thesis
      by (auto simp: travels_def jencode.simps[of "VList xs"] json_native_def)
  next
    case (VTuple xs)
    with lst[of xs] less.prems show ?thesis
      by (auto simp: travels_def jencode.simps[of "VTuple xs"] json_native_def)
  qed (use less.prems in \<open>auto simp: travels_def jencode_default json_native_def default_encoder_def\<close>)
qed


lemma wire_idem: "wire (wire v) = wire v"
proof (induction "jweight v" arbitrary: v rule: less_induct)
  case less
  have lst: "map (wire \<circ> wire) xs = map wire xs" if "jweight (VList xs) \<le> jweight v" for xs
  proof (rule map_cong[OF refl])
    fix x
    assume "x \<in> set xs"
    with that jweight_mem[of x xs] less.hyps[of x] show "(wire \<circ> wire) x = wire x" by simp
  qed
  have entries: "map ((\<lambda>p. (fst p, wire (snd p))) \<circ> (\<lambda>p. (fst p, wire (snd p)))) d =
      map (\<lambda>p. (fst p, wire (snd p))) d" if "jweight (VDict d) \<le> jweight v" for d
  proof (rule map_cong[OF refl])
    fix p
    assume "p \<in> set d"
    with that jweight_entry[of "fst p" "snd p" d] less.hyps[of "snd p"]
    show "((\<lambda>p. (fst p, wire (snd p))) \<circ> (\<lambda>p. (fst p, wire (snd p)))) p = (fst p, wire (snd p))" by simp
  qed
  show ?case
  proof (cases v)
    case (VDict d)
    with entries[of d] show ?thesis by (simp del: map_eq_conv)
  next
    case (VObject d)
    with entries[of d] show ?thesis by (simp del: map_eq_conv)
  next
    case (VMapping d)
    with entries[of d] show ?thesis by (simp del: map_eq_conv)
  next
    case (VList xs)
    with lst[of xs] show ?thesis by simp
  next
    case (VTuple xs)
    with lst[of xs] show ?thesis by simp
  qed (use less in \<open>simp_all add: wire.simps[of VMissing] wire.simps[of "VSet xs" for xs]
        wire.simps[of "VOpaque n" for n]\<close>)
qed


section \<open>Type hints\<close>

text \<open>
  A hint of a handler's signature: a class by name, a union with its members (\<open>NoneType\<close> has its
  own constructor, in a union only), a generic alias as \<open>list[str]\<close>, or anything else (a string, a
  type variable). The classes and what calling them with keyword arguments builds are the service's.
\<close>

datatype hint = HClass string | HNoneType | HUnion "hint list" | HGeneric | HOther

type_synonym constructors = "string \<Rightarrow> pydict \<Rightarrow> exn + pyval"

lemma size_hint_filter: "h \<in> set (filter P hs) \<Longrightarrow> size h < Suc (size_list size hs)"
  by (induction hs) (auto split: if_splits)

function model_type :: "hint \<Rightarrow> string option" where
  "model_type (HClass c) = Some c"
| "model_type HNoneType = Some ''NoneType''"
| "model_type (HUnion hs) =
     (case filter (\<lambda>h. h \<noteq> HNoneType) hs of [h] \<Rightarrow> model_type h | _ \<Rightarrow> None)"
| "model_type HGeneric = None"
| "model_type HOther = None"
  by pat_completeness auto
termination
proof (relation "measure size")
  fix hs :: "hint list" and x21 x22
  assume "filter (\<lambda>h. h \<noteq> HNoneType) hs = x21 # x22"
  then have "x21 \<in> set (filter (\<lambda>h. h \<noteq> HNoneType) hs)" by simp
  then show "(x21, HUnion hs) \<in> measure size" using size_hint_filter by fastforce
qed auto

definition reconstruct :: "constructors \<Rightarrow> hint \<Rightarrow> pyval \<Rightarrow> exn + pyval" where
  "reconstruct build hint data =
     (case data of
        VDict d \<Rightarrow> (case model_type hint of None \<Rightarrow> Inr data | Some m \<Rightarrow> build m d)
      | _ \<Rightarrow> Inr data)"

lemma model_type_optional:
  "model_type (HUnion [HClass m, HNoneType]) = Some m" "model_type (HUnion [HNoneType, HClass m]) = Some m"
  by simp_all

section \<open>Properties\<close>

text \<open>
  C17: Whatever a service sends that the format can carry arrives as its wire value: encoding
  succeeds and decoding gives the same value, with tuples as lists, instants and UUIDs as text, models
  and objects as dictionaries, and bytes and RPC results unchanged. What has arrived once arrives
  unchanged when it is sent on.
\<close>

theorem serializer_roundtrip:
  assumes "transportable v"
  shows "\<exists>j. dumps v = Inr j \<and> loads j = Inr (wire v) \<and> wire (wire v) = wire v"
  using transportable_travels[OF assms] wire_idem by (auto simp: travels_def dumps_def loads_def)

definition demo_payload :: pyval where
  "demo_payload = VDict [(''id'', VUuid ''u-1''), (''at'', VTemporal ''2024-01-01''),
     (''raw'', VBytes [0, 255]), (''items'', VTuple [VInt 1, VModel (VDict [(''sku'', VStr ''x'')])])]"

theorem serializer_roundtrip_witness:
  "\<exists>j. dumps demo_payload = Inr j \<and>
     loads j = Inr (VDict [(''id'', VStr ''u-1''), (''at'', VStr ''2024-01-01''),
       (''raw'', VBytes [0, 255]), (''items'', VList [VInt 1, VDict [(''sku'', VStr ''x'')]])]) \<and>
     wire (wire demo_payload) = wire demo_payload"
  using serializer_roundtrip[of demo_payload]
  by (simp add: demo_payload_def plain_dict_def marker_free_def wire_entries_def)

text \<open>
  Base64 as the serializer uses it loses nothing: decoding the encoded text of any bytes gives
  the bytes, the text is ASCII, and its length is four characters for every started group of three
  bytes.
\<close>

theorem base64_roundtrip:
  "b64decode (VStr (b64encode bs)) = Inr bs \<and> length (b64encode bs) = 4 * ((length bs + 2) div 3)"
proof -
  have "length (b64encode bs) = 4 * ((length bs + 2) div 3)"
  proof (induction bs rule: b64encode.induct)
    case (4 a b c rest)
    have "(length rest + 5) div 3 = Suc ((length rest + 2) div 3)" by presburger
    with 4 show ?case by (simp add: add.commute)
  qed simp_all
  with b64_roundtrip show ?thesis by blast
qed

text \<open>
  The markers of the format are ordinary keys: a dictionary of the user that holds one is encoded
  as it is and cannot be read back, or comes back as something else.
\<close>

lemma forged_bytes_marker_unreadable:
  "\<exists>j. dumps (VDict [(''__bytes__'', VBool True)]) = Inr j \<and> loads j = Inl (KeyError ''data'')"
  by (simp add: dumps_def loads_def jencode.simps[of "VDict d" for d] json_native_def entry_res_pair
      object_hook_def)

lemma forged_rpcreturn_marker:
  "\<exists>j. dumps (VDict [(''__rpcreturn__'', VBool True), (''success'', VBool False)]) = Inr j \<and>
     loads j = Inr (VRpc False VNone VNone ET_NONE VNone)"
  by (simp add: dumps_def loads_def jencode.simps[of "VDict d" for d] json_native_def entry_res_pair
      object_hook_def dget_default_def)

end
