(* ===== verification/Event_Consumer.thy ===== *)
theory Event_Consumer
  imports Configuration Handler_Scope Serialization
begin

text \<open>
  Message handling on the consumer side: \<open>messaging/consumer/event.py\<close> (\<open>on_event\<close> and
  \<open>OnEventTask\<close>), the handler-task set of \<open>Consumer\<close> and the reporting of uncaught exceptions of
  \<open>container.py\<close>.

  The broker and the service's code are the outside: \<open>MsgDone\<close> is what \<open>async with
  message.process(requeue)\<close> hands to aio-pika when it is left, \<open>RunHandler\<close> the call of the user's
  handler. A body is the JSON value of its text, or the exception decoding the text raises. The
  registration with the registry of an exception is one call. Each delivered message is handled in a
  task of its own, \<open>child\<close>, created by the delivering one.
\<close>

section \<open>State and messages\<close>

datatype cns_effect =
    MsgDone bool "exn option"
  | MsgNack bool
  | RunHandler string "pyval list" pydict "pydict option"
  | RegisterException exn "pyval \<times> pyval \<times> pyval \<times> pyval"
  | SendReply pyval pyval json
  | Sleep pyval
  | ReadBody

record message =
  msg_body :: "exn + json"
  msg_headers :: pydict
  msg_cid :: pyval
  msg_reply_to :: pyval

definition loads_body :: "message \<Rightarrow> exn + pyval" where
  "loads_body m = (case msg_body m of Inl e \<Rightarrow> Inl e | Inr j \<Rightarrow> loads j)"

record consumer_state = "cns_effect scoped_world" +
  cns_config :: pyval
  cns_registry_client :: bool
  cns_shutting_down :: bool
  cns_handler_tasks :: "nat list"
  cns_rpc_pending :: "(string \<times> pyval) list"

text \<open>
  \<open>register_handler_task\<close> and \<open>unregister_handler_task\<close>: a set, here a list without duplicates.
\<close>

definition register_handler_task :: "nat \<Rightarrow> (consumer_state, unit) py" where
  "register_handler_task t =
     py_modify (\<lambda>s. s\<lparr>cns_handler_tasks := List.insert t (cns_handler_tasks s)\<rparr>)"

definition unregister_handler_task :: "nat \<Rightarrow> (consumer_state, unit) py" where
  "unregister_handler_task t =
     py_modify (\<lambda>s. s\<lparr>cns_handler_tasks := removeAll t (cns_handler_tasks s)\<rparr>)"

section \<open>Reporting exceptions to the registry\<close>

definition report_exception :: "nat \<Rightarrow> exn \<Rightarrow> ('z consumer_state_scheme, unit) py" where
  "report_exception t e =
     py_if (\<lambda>s. \<not> cns_registry_client s) (py_return ())
       (py_bind (py_read (\<lambda>s. get_handler_ctx_fields t (scope s))) (\<lambda>ctx_fields.
          py_except (py_then (io (RegisterException e ctx_fields)) (py_return ()))
            (\<lambda>_. py_return ())))"

definition report_uncaught_exception :: "nat \<Rightarrow> exn \<Rightarrow> ('z consumer_state_scheme, unit) py" where
  "report_uncaught_exception t e =
     py_bind (py_read cns_config) (\<lambda>config.
     py_bind (py_lift (get_kontiki_parameter config ''registration.report_uncaught_exceptions''
                (VBool True))) (\<lambda>enabled.
       if \<not> truthy enabled then py_return () else report_exception t e))"

section \<open>The decorator\<close>

definition nonempty_text :: "pyval \<Rightarrow> bool" where
  "nonempty_text v \<longleftrightarrow> is_str v \<and> truthy v"

definition texts :: "pyval list \<Rightarrow> string list" where
  "texts vs = concat (map (\<lambda>v. case v of VStr s \<Rightarrow> [s] | _ \<Rightarrow> []) vs)"

definition normalize_event_types :: "pyval \<Rightarrow> exn + string list" where
  "normalize_event_types v =
     (case (case v of VStr s \<Rightarrow> Inr [v] | VList xs \<Rightarrow> Inr xs
              | _ \<Rightarrow> Inl (ValueError ''on_event(): event type must be a string or a list of strings'')) of
        Inl e \<Rightarrow> Inl e
      | Inr event_types \<Rightarrow>
          if event_types = [] then
            Inl (ValueError ''on_event(): event type list must not be empty'')
          else if \<exists>x \<in> set event_types. \<not> nonempty_text x then
            Inl (ValueError ''on_event(): each event type must be a non-empty string'')
          else Inr (texts event_types))"

lemma nonempty_text_iff: "nonempty_text v \<longleftrightarrow> (\<exists>s. v = VStr s \<and> s \<noteq> [])"
  by (cases v) (auto simp: nonempty_text_def)

lemma texts_map_VStr: "\<forall>x \<in> set vs. nonempty_text x \<Longrightarrow> map VStr (texts vs) = vs"
  by (induction vs) (auto simp: texts_def nonempty_text_iff)

definition event_type_values :: "pyval \<Rightarrow> pyval list option" where
  "event_type_values v = (case v of VStr s \<Rightarrow> Some [v] | VList xs \<Rightarrow> Some xs | _ \<Rightarrow> None)"

lemma normalize_event_types_values:
  "normalize_event_types v = Inr ts \<longleftrightarrow>
     (\<exists>xs. event_type_values v = Some xs \<and> xs \<noteq> [] \<and> list_all nonempty_text xs \<and> ts = texts xs)"
  by (cases v) (auto simp: normalize_event_types_def event_type_values_def list_all_iff)

lemma texts_VStr [simp]: "texts (map VStr ts) = ts"
  by (induction ts) (auto simp: texts_def)

lemma normalize_event_types_Inr:
  "normalize_event_types v = Inr ts \<longleftrightarrow>
     ts \<noteq> [] \<and> list_all (\<lambda>t. t \<noteq> []) ts \<and> event_type_values v = Some (map VStr ts)"
proof
  assume "normalize_event_types v = Inr ts"
  then obtain xs where xs: "event_type_values v = Some xs" "xs \<noteq> []" "list_all nonempty_text xs"
    "ts = texts xs" by (auto simp: normalize_event_types_values)
  then have eq: "xs = map VStr ts" by (simp add: texts_map_VStr list_all_iff)
  from xs(1-3) show "ts \<noteq> [] \<and> list_all (\<lambda>t. t \<noteq> []) ts \<and> event_type_values v = Some (map VStr ts)"
    unfolding eq by (auto simp: list_all_iff nonempty_text_iff)
next
  assume "ts \<noteq> [] \<and> list_all (\<lambda>t. t \<noteq> []) ts \<and> event_type_values v = Some (map VStr ts)"
  then show "normalize_event_types v = Inr ts"
    by (auto simp: normalize_event_types_values list_all_iff nonempty_text_iff)
qed

record event_endpoint =
  ep_event_type_or_key :: pyval
  ep_use_config :: bool
  ep_target_instance :: bool
  ep_include_headers :: bool
  ep_broadcast :: bool
  ep_max_attempts :: "int option"

definition on_event ::
  "pyval \<Rightarrow> bool \<Rightarrow> bool \<Rightarrow> bool \<Rightarrow> bool \<Rightarrow> int option \<Rightarrow> exn + event_endpoint" where
  "on_event event_type_or_key use_config include_headers in_session broadcast max_attempts =
     (if in_session \<and> broadcast then
        Inl (ValueError ''on_event(): 'in_session' and 'broadcast' cannot both be True.'')
      else (case (if use_config then Inr [] else normalize_event_types event_type_or_key) of
         Inl e \<Rightarrow> Inl e
       | Inr _ \<Rightarrow> Inr \<lparr>ep_event_type_or_key = event_type_or_key, ep_use_config = use_config,
            ep_target_instance = in_session, ep_include_headers = include_headers,
            ep_broadcast = broadcast, ep_max_attempts = max_attempts\<rparr>))"

section \<open>Typed arguments\<close>

text \<open>
  What \<open>inspect\<close> and \<open>typing\<close> say of a handler: its parameter names in order and its hints;
  resolving the hints may raise (an unknown forward reference).
\<close>

record signature =
  sig_params :: "string list"
  sig_hints :: "exn + (string \<times> hint) list"

definition special_param :: "string \<Rightarrow> bool" where
  "special_param name \<longleftrightarrow> name \<in> {''self'', ''container'', ''_headers''}"

text \<open>The loop over the parameters: the first one with a model class takes the payload.\<close>

fun first_model :: "(string \<times> hint) list \<Rightarrow> string list \<Rightarrow> string option" where
  "first_model hints [] = None"
| "first_model hints (name # names) =
     (if special_param name then first_model hints names
      else (case dget hints name of
         None \<Rightarrow> first_model hints names
       | Some h \<Rightarrow> (case model_type h of None \<Rightarrow> first_model hints names | Some m \<Rightarrow> Some m)))"

definition reconstruct_from_type_hint ::
  "constructors \<Rightarrow> signature \<Rightarrow> pyval \<Rightarrow> exn + pyval" where
  "reconstruct_from_type_hint build sig data =
     (case data of
        VDict d \<Rightarrow> (case sig_hints sig of
            Inl e \<Rightarrow> Inl e
          | Inr hints \<Rightarrow> (case first_model hints (sig_params sig) of
               None \<Rightarrow> Inr data
             | Some m \<Rightarrow> build m d))
      | _ \<Rightarrow> Inr data)"

section \<open>The consuming task\<close>

record event_task =
  et_event_type :: string
  et_queue :: string
  et_signature :: signature
  et_include_headers :: bool
  et_max_attempts :: pyval
  et_requeue :: bool

text \<open>The headers argument is passed only when it is wanted and there are headers.\<close>

definition event_headers :: "event_task \<Rightarrow> message \<Rightarrow> pydict option" where
  "event_headers task m =
     (let headers = (if et_include_headers task then msg_headers m else [])
      in if headers \<noteq> [] then Some headers else None)"

definition event_payload :: "constructors \<Rightarrow> event_task \<Rightarrow> message \<Rightarrow> exn + pyval" where
  "event_payload build task m =
     (case loads_body m of
        Inl e \<Rightarrow> Inl e
      | Inr obj \<Rightarrow> reconstruct_from_type_hint build (et_signature task) obj)"

definition run_event_handler ::
  "constructors \<Rightarrow> event_task \<Rightarrow> message \<Rightarrow> (consumer_state, unit) py" where
  "run_event_handler build task m =
     py_bind (py_lift (event_payload build task m)) (\<lambda>obj.
       py_then (io (RunHandler (et_event_type task) [obj] [] (event_headers task m)))
         (py_return ()))"

definition consume_event ::
  "constructors \<Rightarrow> event_task \<Rightarrow> string \<Rightarrow> nat \<Rightarrow> message \<Rightarrow> (consumer_state, unit) py" where
  "consume_event build task fresh t m =
     in_handler_scope ''event'' (et_event_type task) (Some (msg_headers m)) True fresh t
       (py_except
          (process_message MsgDone (et_requeue task) (run_event_handler build task m))
          (report_uncaught_exception t))"

text \<open>The callback of the queue's consumer: one task per delivery, tracked until it ends.\<close>

definition in_handler_task :: "nat \<Rightarrow> nat \<Rightarrow> (consumer_state, unit) py \<Rightarrow> (consumer_state, unit) py"
where
  "in_handler_task parent child body =
     py_if cns_shutting_down
       (py_then (io (MsgNack True)) (py_return ()))
       (py_then (py_modify (\<lambda>s. s\<lparr>scope := create_task parent child (scope s)\<rparr>))
          (py_then (register_handler_task child)
             (py_finally body (unregister_handler_task child))))"

definition on_event_message ::
  "constructors \<Rightarrow> event_task \<Rightarrow> string \<Rightarrow> nat \<Rightarrow> nat \<Rightarrow> message \<Rightarrow> (consumer_state, unit) py" where
  "on_event_message build task fresh parent child m =
     in_handler_task parent child (consume_event build task fresh child m)"


section \<open>What one delivery does\<close>

text \<open>At most one report, of the exception at hand; the scope is left as it was.\<close>

definition reports :: "exn \<Rightarrow> (cns_effect \<times> bool) list \<Rightarrow> bool" where
  "reports e rep \<longleftrightarrow> rep = [] \<or> (\<exists>ctx_fields ok. rep = [(RegisterException e ctx_fields, ok)])"

lemma io_appends:
  obtains b where "trace (snd (io e s)) = trace s @ [(e, b)]" "b \<longleftrightarrow> (\<exists>v. fst (io e s) = Inr v)"
  by (cases rule: io_cases[of e s]) auto

lemma io_scope [simp]: "scope (snd (io e s)) = scope s"
  by (cases rule: io_cases[of e s]) auto

lemma io_consumer_fields [simp]:
  fixes s :: "'z consumer_state_scheme"
  shows "cns_handler_tasks (snd (io e s)) = cns_handler_tasks s"
    "cns_rpc_pending (snd (io e s)) = cns_rpc_pending s"
    "cns_config (snd (io e s)) = cns_config s"
    "cns_shutting_down (snd (io e s)) = cns_shutting_down s"
  by (cases rule: io_cases[of e s]; simp)+

lemma report_exception_snd:
  "snd (report_exception t e s) =
     (if cns_registry_client s
      then snd (io (RegisterException e (get_handler_ctx_fields t (scope s))) s) else s)"
  by (simp add: report_exception_def py_simps split: list.splits reply.splits)

lemma report_uncaught_snd:
  "snd (report_uncaught_exception t e s) \<in> {s, snd (report_exception t e s)}"
  by (simp add: report_uncaught_exception_def py_bind_run py_read_run py_lift_run py_return_run
      split: sum.splits)

lemma report_uncaught_trace:
  obtains rep where "trace (snd (report_uncaught_exception t e s)) = trace s @ rep" "reports e rep"
proof (cases "snd (report_uncaught_exception t e s) = s")
  case True
  with that[of "[]"] show ?thesis by (simp add: reports_def)
next
  case False
  then have "snd (report_uncaught_exception t e s) =
      snd (io (RegisterException e (get_handler_ctx_fields t (scope s))) s)"
    using report_uncaught_snd[of t e s] by (auto simp: report_exception_snd split: if_splits)
  with io_appends that show ?thesis by (metis reports_def)
qed

lemma report_uncaught_kept [simp]:
  "scope (snd (report_uncaught_exception t e s)) = scope s"
  "cns_handler_tasks (snd (report_uncaught_exception t e s)) = cns_handler_tasks s"
  "cns_rpc_pending (snd (report_uncaught_exception t e s)) = cns_rpc_pending s"
  using report_uncaught_snd[of t e s] by (auto simp: report_exception_snd split: if_splits)

text \<open>
  The calls of one delivery: the handler runs when the payload could be built, then the message is
  settled with the requeue flag of the task and the exception of its processing, then an exception
  is reported.
\<close>

definition event_delivery ::
  "constructors \<Rightarrow> event_task \<Rightarrow> message \<Rightarrow> (cns_effect \<times> bool) list \<Rightarrow> bool" where
  "event_delivery build task m calls \<longleftrightarrow>
     (\<exists>run r b rep.
        calls = run @ [(MsgDone (et_requeue task) r, b)] @ rep \<and>
        (case event_payload build task m of
           Inl e \<Rightarrow> run = [] \<and> r = Some e
         | Inr obj \<Rightarrow> (\<exists>ok. run = [(RunHandler (et_event_type task) [obj] [] (event_headers task m), ok)] \<and>
             (ok \<longleftrightarrow> r = None))) \<and>
        (rep = [] \<or> (\<exists>e. reports e rep \<and> (b \<longrightarrow> r = Some e))))"

lemma run_event_handler_cases:
  obtains (bad) e where "event_payload build task m = Inl e"
      "run_event_handler build task m s = (Inl e, s)"
  | (good) obj r where "event_payload build task m = Inr obj"
      "run_event_handler build task m s = (r,
         snd (io (RunHandler (et_event_type task) [obj] [] (event_headers task m)) s))"
      "(\<exists>v. r = Inr v) \<longleftrightarrow> (\<exists>v. fst (io (RunHandler (et_event_type task) [obj] [] (event_headers task m)) s) = Inr v)"
proof (cases "event_payload build task m")
  case (Inl e)
  with bad show ?thesis by (simp add: run_event_handler_def py_bind_run py_lift_run)
next
  case (Inr obj)
  let ?e = "RunHandler (et_event_type task) [obj] [] (event_headers task m)"
  obtain q t where io: "io ?e s = (q, t)" by fastforce
  with Inr good show ?thesis
    by (cases q) (simp_all add: run_event_handler_def py_bind_run py_lift_run py_then_run py_return_run)
qed

lemma event_body_delivery:
  obtains calls where
    "trace (snd (py_except (process_message MsgDone (et_requeue task) (run_event_handler build task m))
        (report_uncaught_exception t) s)) = trace s @ calls"
    "event_delivery build task m calls"
proof -
  let ?rq = "et_requeue task"
  let ?h = "run_event_handler build task m"
  let ?p = "process_message MsgDone ?rq ?h"
  obtain q u where h: "?h s = (q, u)" by fastforce
  define r where "r = (case q of Inl e \<Rightarrow> Some e | Inr _ \<Rightarrow> None)"
  obtain d w where d: "io (MsgDone ?rq r) u = (d, w)" by fastforce
  obtain b where b: "trace w = trace u @ [(MsgDone ?rq r, b)]" "b \<longleftrightarrow> (\<exists>v. d = Inr v)"
    using io_appends[of "MsgDone ?rq r" u] d by auto
  define q' where "q' = (case d of Inl x \<Rightarrow> Inl x | Inr _ \<Rightarrow> q)"
  have p: "?p s = (q', w)"
    using h d by (simp add: process_message_run r_def q'_def split: sum.splits)
  obtain rep where rep: "trace (snd (py_except ?p (report_uncaught_exception t) s)) = trace w @ rep"
    "rep = [] \<or> (\<exists>e. reports e rep \<and> q' = Inl e)"
  proof (cases q')
    case (Inl e)
    obtain rep where "trace (snd (report_uncaught_exception t e w)) = trace w @ rep" "reports e rep"
      by (rule report_uncaught_trace)
    with Inl p that[of rep] that[of "[]"] show ?thesis
      by (cases "is_Exception e") (simp_all add: py_try_run)
  next
    case (Inr x)
    with p that[of "[]"] show ?thesis by (simp add: py_try_run)
  qed
  have rep': "rep = [] \<or> (\<exists>e. reports e rep \<and> (b \<longrightarrow> r = Some e))"
    using rep(2) b(2) by (auto simp: q'_def r_def split: sum.splits)
  obtain run where run: "trace u = trace s @ run" "case event_payload build task m of
           Inl e \<Rightarrow> run = [] \<and> r = Some e
         | Inr obj \<Rightarrow> (\<exists>ok. run = [(RunHandler (et_event_type task) [obj] [] (event_headers task m), ok)] \<and>
             (ok \<longleftrightarrow> r = None))"
  proof (cases rule: run_event_handler_cases[of build task m s])
    case (bad e)
    with h that[of "[]"] show ?thesis by (auto simp: r_def)
  next
    case (good obj q2)
    let ?e = "RunHandler (et_event_type task) [obj] [] (event_headers task m)"
    obtain ok where ok: "trace (snd (io ?e s)) = trace s @ [(?e, ok)]" "ok \<longleftrightarrow> (\<exists>v. fst (io ?e s) = Inr v)"
      by (rule io_appends)
    from good h have "u = snd (io ?e s)" "(\<exists>v. q = Inr v) \<longleftrightarrow> ok" using ok(2) by auto
    with good(1) ok(1) that[of "[(?e, ok)]"] show ?thesis by (auto simp: r_def split: sum.splits)
  qed
  have "event_delivery build task m (run @ [(MsgDone ?rq r, b)] @ rep)"
    unfolding event_delivery_def using run(2) rep' by blast
  with that[of "run @ [(MsgDone ?rq r, b)] @ rep"] run(1) b(1) rep(1) show ?thesis by simp
qed


lemma keeps_consumer_io [keeps_rules]:
  "keeps scope (io e :: (consumer_state, pyval) py)"
  "keeps cns_handler_tasks (io e :: (consumer_state, pyval) py)"
  "keeps cns_shutting_down (io e :: (consumer_state, pyval) py)"
  by (rule keepsI; simp)+

lemma keeps_report_uncaught [keeps_rules]:
  "keeps scope (report_uncaught_exception t e)" "keeps cns_handler_tasks (report_uncaught_exception t e)"
  by (rule keepsI; simp)+

lemma keeps_run_event_handler [keeps_rules]:
  "keeps scope (run_event_handler build task m)"
  "keeps cns_handler_tasks (run_event_handler build task m)"
  unfolding run_event_handler_def by (intro keeps_rules)+

text \<open>The scope after a handler in its own task: back where it was, apart from the dead task.\<close>

definition quiescent :: "nat \<Rightarrow> consumer_state \<Rightarrow> consumer_state \<Rightarrow> bool" where
  "quiescent child s s' \<longleftrightarrow>
     in_flight (scope s') = wif_end (wif_begin (in_flight (scope s))) \<and>
     (\<forall>t. t \<noteq> child \<longrightarrow> ctx_var (scope s') t = ctx_var (scope s) t) \<and>
     cns_handler_tasks s' = removeAll child (cns_handler_tasks s)"

lemma in_handler_task_run:
  assumes "\<not> cns_shutting_down s"
    and "u = s\<lparr>scope := create_task parent child (scope s),
      cns_handler_tasks := List.insert child (cns_handler_tasks s)\<rparr>"
  shows "in_handler_task parent child body s =
    (fst (body u), (snd (body u))\<lparr>cns_handler_tasks :=
        removeAll child (cns_handler_tasks (snd (body u)))\<rparr>)"
  using assms
  by (simp add: in_handler_task_def py_if_run py_then_run py_modify_run register_handler_task_def
      unregister_handler_task_def py_finally_run split: prod.splits)

lemma removeAll_insert: "removeAll x (List.insert x xs) = removeAll x xs"
  by (simp add: List.insert_def)

lemma in_handler_task_quiescent:
  assumes "\<not> cns_shutting_down s" "keeps scope body" "keeps cns_handler_tasks body"
  shows "quiescent child s
    (snd (in_handler_task parent child (in_handler_scope kind op h True fresh child body) s))"
proof -
  have tasks: "cns_handler_tasks (snd (in_handler_scope kind op h True fresh child body u)) =
      cns_handler_tasks u" for u :: consumer_state
    using keepsD[OF assms(3), of "entered kind op h True fresh child u"]
    by (auto simp: in_handler_scope_run entered_def split: prod.splits)
  have sc: "scope (snd (in_handler_scope kind op h True fresh child body u)) =
      reset_handler_scope \<lparr>context_token = ctx_var (scope u) child, tracked = True\<rparr> child
        (snd (enter_handler_scope kind op h True fresh child (scope u)))" for u :: consumer_state
    using keepsD[OF assms(2), of "entered kind op h True fresh child u"]
    by (auto simp: in_handler_scope_run entered_def split: prod.splits)
  show ?thesis
    unfolding in_handler_task_run[OF assms(1) refl] quiescent_def snd_conv
    by (simp add: tasks sc removeAll_insert reset_handler_scope_def reset_handler_context_def
        enter_in_flight enter_var create_task_def)
qed

lemma in_handler_task_trace:
  assumes "\<not> cns_shutting_down s"
  obtains u where "trace (snd (in_handler_task parent child (in_handler_scope kind op h True fresh child body) s)) =
      trace (snd (body u))"
    "trace u = trace s" "script u = script s" "cns_rpc_pending u = cns_rpc_pending s"
    "cns_config u = cns_config s"
    "cns_rpc_pending (snd (in_handler_task parent child (in_handler_scope kind op h True fresh child body) s)) =
      cns_rpc_pending (snd (body u))"
proof -
  let ?v = "s\<lparr>scope := create_task parent child (scope s),
      cns_handler_tasks := List.insert child (cns_handler_tasks s)\<rparr>"
  show ?thesis
    by (rule that[of "entered kind op h True fresh child ?v"])
      (simp_all add: in_handler_task_run[OF assms refl] in_handler_scope_run entered_def split: prod.splits)
qed

text \<open>While the service shuts down, a delivery of either kind is handed back.\<close>

lemma in_handler_task_refuses:
  assumes "cns_shutting_down s"
  shows "\<exists>ok. trace (snd (in_handler_task parent child body s)) = trace s @ [(MsgNack True, ok)]"
proof -
  have "snd (in_handler_task parent child body s) = snd (io (MsgNack True) s)"
    using assms by (simp add: in_handler_task_def py_if_run py_then_run py_return_run
        split: prod.splits sum.splits)
  then show ?thesis by (cases rule: io_appends[of "MsgNack True" s]) auto
qed

lemma event_message_calls:
  assumes "\<not> cns_shutting_down s"
  obtains calls where "trace (snd (on_event_message build task fresh parent child m s)) = trace s @ calls"
    "event_delivery build task m calls"
proof -
  let ?body = "py_except (process_message MsgDone (et_requeue task) (run_event_handler build task m))
      (report_uncaught_exception child)"
  obtain u where u: "trace (snd (on_event_message build task fresh parent child m s)) =
      trace (snd (?body u))" "trace u = trace s"
    unfolding on_event_message_def consume_event_def by (rule in_handler_task_trace[OF assms])
  obtain calls where "trace (snd (?body u)) = trace u @ calls" "event_delivery build task m calls"
    by (rule event_body_delivery)
  with u that show ?thesis by simp
qed

text \<open>
  C19: Whatever the broker, the user's handler and the registry do, a delivered event is dealt with
  once. While the service shuts down it is handed back for requeueing and nothing else happens.
  Otherwise the handler runs at most once, with the decoded and typed payload, when there is one;
  then the message is settled exactly once, as a success exactly when the handler returned, and with
  the requeue flag of its task; then at most one report goes out, for the exception that the message
  was settled with. Afterwards the work-in-flight count, the contexts of the other tasks and the set
  of handler tasks are back where they were.
\<close>

theorem event_handled_once:
  "\<exists>calls. trace (snd (on_event_message build task fresh parent child m s)) = trace s @ calls \<and>
     (if cns_shutting_down s then \<exists>ok. calls = [(MsgNack True, ok)]
      else event_delivery build task m calls \<and>
        quiescent child s (snd (on_event_message build task fresh parent child m s)))"
proof (cases "cns_shutting_down s")
  case True
  from in_handler_task_refuses[OF True, of parent child "consume_event build task fresh child m"] True
  show ?thesis by (auto simp: on_event_message_def)
next
  case False
  let ?body = "py_except (process_message MsgDone (et_requeue task) (run_event_handler build task m))
      (report_uncaught_exception child)"
  have "keeps scope ?body" "keeps cns_handler_tasks ?body" by (intro keeps_rules)+
  from in_handler_task_quiescent[OF False this]
  have q: "quiescent child s (snd (on_event_message build task fresh parent child m s))"
    by (simp add: on_event_message_def consume_event_def)
  obtain calls where "trace (snd (on_event_message build task fresh parent child m s)) = trace s @ calls"
    "event_delivery build task m calls" by (rule event_message_calls[OF False])
  with q False show ?thesis by auto
qed

end
