(* ===== verification/Rpc_Consumer.thy ===== *)
theory Rpc_Consumer
  imports Event_Consumer
begin

text \<open>
  The server side of a remote call: \<open>messaging/consumer/rpc.py\<close>. A request names its arguments in
  \<open>args\<close> and \<open>kwargs\<close>; the handler is called with the container first. A task remembers the
  correlation ids it is working on, here \<open>cns_rpc_pending\<close> with the queue of the task, and answers a
  repeated id with nothing. The text of an exception (\<open>str(e)\<close>) is its class's own: a parameter. The
  future of the source is created, set once and awaited by the same coroutine; it is the value
  \<open>response\<close> here.
\<close>

definition rpc_error :: "string \<Rightarrow> string \<Rightarrow> pyval" where
  "rpc_error error_code msg = VRpc False VNone (VStr msg) ET_CLIENT (VStr error_code)"

record rpc_task =
  rt_name :: string
  rt_queue :: string
  rt_signature :: signature
  rt_include_headers :: bool

section \<open>Arguments\<close>

definition apply_hint :: "constructors \<Rightarrow> hint \<Rightarrow> pyval \<Rightarrow> exn + pyval" where
  "apply_hint build h v =
     (case v of
        VDict d \<Rightarrow> (case model_type h of None \<Rightarrow> Inr v | Some m \<Rightarrow> build m d)
      | _ \<Rightarrow> Inr v)"

text \<open>The value under the hint of its parameter, if it has one.\<close>

definition typed_value ::
  "constructors \<Rightarrow> (string \<times> hint) list \<Rightarrow> string \<Rightarrow> pyval \<Rightarrow> exn + pyval" where
  "typed_value build hints name v =
     (if special_param name then Inr v
      else (case dget hints name of None \<Rightarrow> Inr v | Some h \<Rightarrow> apply_hint build h v))"

fun rebuild_args ::
  "constructors \<Rightarrow> (string \<times> hint) list \<Rightarrow> string list \<Rightarrow> pyval list \<Rightarrow> exn + pyval list" where
  "rebuild_args build hints names [] = Inr []"
| "rebuild_args build hints [] args = Inr args"
| "rebuild_args build hints (name # names) (v # vs) =
     (case typed_value build hints name v of
        Inl e \<Rightarrow> Inl e
      | Inr w \<Rightarrow> (case rebuild_args build hints names vs of Inl e \<Rightarrow> Inl e | Inr ws \<Rightarrow> Inr (w # ws)))"

definition rebuild_kwargs ::
  "constructors \<Rightarrow> (string \<times> hint) list \<Rightarrow> pydict \<Rightarrow> exn + pydict" where
  "rebuild_kwargs build hints kwargs =
     map_res (\<lambda>(name, v). map_sum id (Pair name) (typed_value build hints name v)) kwargs"

definition reconstruct_rpc_args ::
  "constructors \<Rightarrow> pyval \<Rightarrow> pyval \<Rightarrow> signature \<Rightarrow> exn + pyval list \<times> pydict" where
  "reconstruct_rpc_args build args kwargs sig =
     (case sig_hints sig of
        Inl e \<Rightarrow> Inl e
      | Inr hints \<Rightarrow> (case iterate args of
          Inl e \<Rightarrow> Inl e
        | Inr vs \<Rightarrow> (case rebuild_args build hints (drop 1 (sig_params sig)) vs of
            Inl e \<Rightarrow> Inl e
          | Inr new_args \<Rightarrow> (case kwargs of
              VDict d \<Rightarrow> map_sum id (Pair new_args) (rebuild_kwargs build hints d)
            | _ \<Rightarrow> Inl (AttributeError ''items'')))))"

lemma apply_hint_is_reconstruct: "apply_hint build h v = reconstruct build h v"
  by (simp add: apply_hint_def reconstruct_def)

section \<open>The handler\<close>

definition parse_request :: "exn + pyval \<Rightarrow> exn + pyval \<times> pyval" where
  "parse_request loaded =
     (case loaded of
        Inl e \<Rightarrow> Inl e
      | Inr (VDict d) \<Rightarrow> Inr (dget_default d ''args'' (VList []), dget_default d ''kwargs'' (VDict []))
      | Inr _ \<Rightarrow> Inl (AttributeError ''get''))"

definition as_rpc_return :: "pyval \<Rightarrow> pyval" where
  "as_rpc_return v = (case v of
     VRpc ok r m e c \<Rightarrow> v
   | _ \<Rightarrow> VRpc True v VNone ET_NONE VNone)"

definition internal_error :: "string \<Rightarrow> pyval" where
  "internal_error msg = VRpc False VNone (VStr msg) ET_SERVER (VStr ''INTERNAL_ERROR'')"

text \<open>The arguments of the call; headers are passed by keyword, which must not be taken.\<close>

definition rpc_headers :: "rpc_task \<Rightarrow> message \<Rightarrow> pydict option" where
  "rpc_headers task m =
     (if rt_include_headers task \<and> msg_headers m \<noteq> [] then Some (msg_headers m) else None)"

definition rpc_arguments ::
  "constructors \<Rightarrow> rpc_task \<Rightarrow> message \<Rightarrow> pyval \<Rightarrow> pyval \<Rightarrow> exn + pyval list \<times> pydict" where
  "rpc_arguments build task m args kwargs =
     (case reconstruct_rpc_args build args kwargs (rt_signature task) of
        Inl e \<Rightarrow> Inl e
      | Inr (new_args, new_kwargs) \<Rightarrow>
          if rpc_headers task m \<noteq> None \<and> dget new_kwargs ''_headers'' \<noteq> None
          then Inl (TypeError ''got multiple values for keyword argument _headers'')
          else Inr (new_args, new_kwargs))"

definition rpc_invoke ::
  "constructors \<Rightarrow> (exn \<Rightarrow> string) \<Rightarrow> rpc_task \<Rightarrow> nat \<Rightarrow> message \<Rightarrow> pyval \<Rightarrow> pyval \<Rightarrow>
   (consumer_state, pyval) py" where
  "rpc_invoke build exn_text task t m args kwargs =
     py_except
       (py_bind (py_lift (rpc_arguments build task m args kwargs)) (\<lambda>(new_args, new_kwargs).
        py_bind (io (RunHandler (rt_name task) new_args new_kwargs (rpc_headers task m)))
          (\<lambda>response_data. py_return (as_rpc_return response_data))))
       (\<lambda>e. py_then (report_uncaught_exception t e) (py_return (internal_error (exn_text e))))"

definition pending_key :: "rpc_task \<Rightarrow> message \<Rightarrow> string \<times> pyval" where
  "pending_key task m = (rt_queue task, msg_cid m)"

definition add_pending :: "string \<times> pyval \<Rightarrow> (consumer_state, unit) py" where
  "add_pending k = py_modify (\<lambda>s. s\<lparr>cns_rpc_pending := List.insert k (cns_rpc_pending s)\<rparr>)"

definition del_pending :: "string \<times> pyval \<Rightarrow> (consumer_state, unit) py" where
  "del_pending k = py_modify (\<lambda>s. s\<lparr>cns_rpc_pending := removeAll k (cns_rpc_pending s)\<rparr>)"

definition rpc_reply :: "rpc_task \<Rightarrow> message \<Rightarrow> pyval \<Rightarrow> (consumer_state, unit) py" where
  "rpc_reply task m response =
     (if truthy (msg_reply_to m) then
        py_finally
          (py_except
             (py_bind (py_lift (dumps response)) (\<lambda>serialized.
                py_then (io (SendReply (msg_reply_to m) (msg_cid m) serialized)) (py_return ())))
             (\<lambda>e. py_return ()))
          (del_pending (pending_key task m))
      else py_return ())"

definition rpc_body ::
  "constructors \<Rightarrow> (exn \<Rightarrow> string) \<Rightarrow> rpc_task \<Rightarrow> nat \<Rightarrow> message \<Rightarrow> (consumer_state, unit) py" where
  "rpc_body build exn_text task t m =
     py_if (\<lambda>s. pending_key task m \<in> set (cns_rpc_pending s)) (py_return ())
       (py_then (add_pending (pending_key task m))
          (case parse_request (loads_body m) of
             Inl e \<Rightarrow> if is_Exception e then del_pending (pending_key task m) else py_raise e
           | Inr (args, kwargs) \<Rightarrow>
               py_bind (rpc_invoke build exn_text task t m args kwargs) (rpc_reply task m)))"

definition handle_rpc ::
  "constructors \<Rightarrow> (exn \<Rightarrow> string) \<Rightarrow> rpc_task \<Rightarrow> string \<Rightarrow> nat \<Rightarrow> message \<Rightarrow> (consumer_state, unit) py"
where
  "handle_rpc build exn_text task fresh t m =
     in_handler_scope ''rpc'' (rt_name task) (Some (msg_headers m)) True fresh t
       (process_message MsgDone True (rpc_body build exn_text task t m))"

definition on_rpc_message ::
  "constructors \<Rightarrow> (exn \<Rightarrow> string) \<Rightarrow> rpc_task \<Rightarrow> string \<Rightarrow> nat \<Rightarrow> nat \<Rightarrow> message \<Rightarrow>
   (consumer_state, unit) py" where
  "on_rpc_message build exn_text task fresh parent child m =
     in_handler_task parent child (handle_rpc build exn_text task fresh child m)"

section \<open>What one request does\<close>

lemma keeps_rpc_body:
  fixes f :: "consumer_state \<Rightarrow> 'x"
  assumes "\<And>e. keeps f (io e :: (consumer_state, pyval) py)"
    and "\<And>e. keeps f (report_uncaught_exception t e)"
    and "\<And>s x. f (s\<lparr>cns_rpc_pending := x\<rparr>) = f s"
  shows "keeps f (rpc_body build exn_text task t m)"
  unfolding rpc_body_def rpc_invoke_def rpc_reply_def add_pending_def del_pending_def
  by (auto intro!: keeps_if keeps_then keeps_bind keeps_modify keeps_except keeps_finally
      keeps_return keeps_raise keeps_lift assms split: sum.split prod.split)

lemma keeps_rpc [keeps_rules]:
  "keeps scope (rpc_body build exn_text task t m)"
  "keeps cns_handler_tasks (rpc_body build exn_text task t m)"
  by (rule keeps_rpc_body; simp add: keeps_rules)+

text \<open>
  The calls of one request, before it is settled: nothing for a repeated id or an unreadable
  request; otherwise the handler runs once when the arguments could be built, an exception of it is
  reported, and one reply is sent when the request asks for one.
\<close>

definition rpc_run ::
  "constructors \<Rightarrow> rpc_task \<Rightarrow> message \<Rightarrow> pyval \<Rightarrow> pyval \<Rightarrow> (cns_effect \<times> bool) list \<Rightarrow> bool" where
  "rpc_run build task m args kwargs run \<longleftrightarrow>
     (case rpc_arguments build task m args kwargs of
        Inl e \<Rightarrow> run = []
      | Inr (as, ks) \<Rightarrow> \<exists>ok. run = [(RunHandler (rt_name task) as ks (rpc_headers task m), ok)])"

definition rpc_calls ::
  "constructors \<Rightarrow> rpc_task \<Rightarrow> message \<Rightarrow> (cns_effect \<times> bool) list \<Rightarrow> bool" where
  "rpc_calls build task m calls \<longleftrightarrow>
     (case parse_request (loads_body m) of
        Inl e \<Rightarrow> calls = []
      | Inr (args, kwargs) \<Rightarrow>
          (\<exists>run rep reply. calls = run @ rep @ reply \<and> rpc_run build task m args kwargs run \<and>
             (\<exists>e. reports e rep) \<and>
             (reply = [] \<or> (truthy (msg_reply_to m) \<and>
                (\<exists>j ok. reply = [(SendReply (msg_reply_to m) (msg_cid m) j, ok)])))))"

lemma trace_pending [simp]:
  "trace (s\<lparr>cns_rpc_pending := x\<rparr>) = trace s"
  by simp

lemma rpc_invoke_trace:
  obtains run rep where
    "trace (snd (rpc_invoke build exn_text task t m args kwargs s)) = trace s @ run @ rep"
    "rpc_run build task m args kwargs run" "\<exists>e. reports e rep"
proof -
  let ?call = "py_bind (py_lift (rpc_arguments build task m args kwargs)) (\<lambda>(new_args, new_kwargs).
        py_bind (io (RunHandler (rt_name task) new_args new_kwargs (rpc_headers task m)))
          (\<lambda>response_data. py_return (as_rpc_return response_data))) :: (consumer_state, pyval) py"
  obtain run where run: "trace (snd (?call s)) = trace s @ run" "rpc_run build task m args kwargs run"
  proof (cases "rpc_arguments build task m args kwargs")
    case (Inl e)
    with that[of "[]"] show ?thesis by (simp add: rpc_run_def py_bind_run py_lift_run)
  next
    case (Inr p)
    obtain as ks where p: "p = (as, ks)" by fastforce
    let ?e = "RunHandler (rt_name task) as ks (rpc_headers task m)"
    obtain ok where "trace (snd (io ?e s)) = trace s @ [(?e, ok)]" by (rule io_appends)
    moreover have "trace (snd (?call s)) = trace (snd (io ?e s))"
      using Inr p by (simp add: py_bind_run py_lift_run py_return_run split: prod.splits sum.splits)
    ultimately show ?thesis using that[of "[(?e, ok)]"] Inr p by (simp add: rpc_run_def)
  qed
  obtain q u where call: "?call s = (q, u)" by fastforce
  obtain rep where rep: "trace (snd (rpc_invoke build exn_text task t m args kwargs s)) = trace u @ rep"
    "\<exists>e. reports e rep"
  proof (cases q)
    case (Inr v)
    with call that[of "[]"] show ?thesis by (simp add: rpc_invoke_def py_try_run reports_def)
  next
    case (Inl e)
    obtain rep where rep: "trace (snd (report_uncaught_exception t e u)) = trace u @ rep" "reports e rep"
      by (rule report_uncaught_trace)
    show ?thesis
    proof (cases "is_Exception e")
      case True
      with Inl call have "trace (snd (rpc_invoke build exn_text task t m args kwargs s)) =
          trace (snd (report_uncaught_exception t e u))"
        by (simp add: rpc_invoke_def py_try_run py_then_run py_return_run split: prod.splits sum.splits)
      with rep that show ?thesis by auto
    next
      case False
      with Inl call that[of "[]"] show ?thesis by (simp add: rpc_invoke_def py_try_run reports_def)
    qed
  qed
  from run rep call that show ?thesis by auto
qed

lemma rpc_reply_trace:
  obtains reply where "trace (snd (rpc_reply task m response s)) = trace s @ reply"
    "reply = [] \<or> (truthy (msg_reply_to m) \<and>
       (\<exists>j ok. reply = [(SendReply (msg_reply_to m) (msg_cid m) j, ok)]))"
proof (cases "truthy (msg_reply_to m)")
  case False
  with that[of "[]"] show ?thesis by (simp add: rpc_reply_def py_return_run)
next
  case True
  show ?thesis
  proof (cases "dumps response")
    case (Inl e)
    with True that[of "[]"] show ?thesis
      by (simp add: rpc_reply_def py_finally_run py_try_run py_bind_run py_lift_run py_return_run
          del_pending_def py_modify_run)
  next
    case (Inr j)
    let ?e = "SendReply (msg_reply_to m) (msg_cid m) j"
    obtain ok where ok: "trace (snd (io ?e s)) = trace s @ [(?e, ok)]" by (rule io_appends)
    obtain q u where io: "io ?e s = (q, u)" by fastforce
    have "trace (snd (rpc_reply task m response s)) = trace u"
      using True Inr io
      by (cases q) (simp_all add: rpc_reply_def py_finally_run py_try_run py_bind_run py_lift_run
          py_then_run py_return_run del_pending_def py_modify_run)
    with ok io True that[of "[(?e, ok)]"] show ?thesis by auto
  qed
qed

lemma rpc_body_trace:
  obtains calls where "trace (snd (rpc_body build exn_text task t m s)) = trace s @ calls"
    "if pending_key task m \<in> set (cns_rpc_pending s) then calls = [] else rpc_calls build task m calls"
proof (cases "pending_key task m \<in> set (cns_rpc_pending s)")
  case True
  with that[of "[]"] show ?thesis by (simp add: rpc_body_def py_if_run py_return_run)
next
  case False
  let ?s = "s\<lparr>cns_rpc_pending := List.insert (pending_key task m) (cns_rpc_pending s)\<rparr>"
  show ?thesis
  proof (cases "parse_request (loads_body m)")
    case (Inl e)
    with False that[of "[]"] show ?thesis
      by (simp add: rpc_body_def py_if_run py_then_run add_pending_def py_modify_run rpc_calls_def
          del_pending_def py_raise_run)
  next
    case (Inr p)
    obtain args kwargs where p: "p = (args, kwargs)" by fastforce
    obtain run rep where inv: "trace (snd (rpc_invoke build exn_text task t m args kwargs ?s)) = trace ?s @ run @ rep"
      "rpc_run build task m args kwargs run" "\<exists>e. reports e rep" by (rule rpc_invoke_trace)
    obtain q u where call: "rpc_invoke build exn_text task t m args kwargs ?s = (q, u)" by fastforce
    obtain reply where reply: "trace (snd (rpc_body build exn_text task t m s)) = trace u @ reply"
      "reply = [] \<or> (truthy (msg_reply_to m) \<and>
         (\<exists>j ok. reply = [(SendReply (msg_reply_to m) (msg_cid m) j, ok)]))"
    proof (cases q)
      case (Inl e)
      with False Inr p call that[of "[]"] show ?thesis
        by (simp add: rpc_body_def py_if_run py_then_run add_pending_def py_modify_run py_bind_run)
    next
      case (Inr response)
      have "trace (snd (rpc_body build exn_text task t m s)) = trace (snd (rpc_reply task m response u))"
        using False Inr \<open>parse_request (loads_body m) = Inr p\<close> p call
        by (simp add: rpc_body_def py_if_run py_then_run add_pending_def py_modify_run py_bind_run)
      with rpc_reply_trace[of task m response u] that show ?thesis by metis
    qed
    have "rpc_calls build task m (run @ rep @ reply)"
      unfolding rpc_calls_def Inr p sum.case prod.case
      by (intro exI[of _ run] exI[of _ rep] exI[of _ reply] conjI refl inv(2,3) reply(2))
    with that[of "run @ rep @ reply"] False inv(1) call reply(1) show ?thesis by simp
  qed
qed


lemma process_trace:
  fixes s :: consumer_state
  assumes "body s = (r, u)"
  obtains b where "trace (snd (process_message MsgDone rq body s)) =
      trace u @ [(MsgDone rq (case r of Inl e \<Rightarrow> Some e | Inr _ \<Rightarrow> None), b)]"
    "cns_rpc_pending (snd (process_message MsgDone rq body s)) = cns_rpc_pending u"
proof -
  let ?e = "MsgDone rq (case r of Inl e \<Rightarrow> Some e | Inr _ \<Rightarrow> None)"
  obtain b where b: "trace (snd (io ?e u)) = trace u @ [(?e, b)]" by (rule io_appends)
  have e: "snd (process_message MsgDone rq body s) = snd (io ?e u)"
    using assms by (simp add: process_message_run split: prod.splits sum.splits)
  show ?thesis by (rule that[of b]) (simp_all only: e b io_consumer_fields)
qed

text \<open>
  C20: Whatever the broker and the handler do, a delivered request is dealt with once: handed back
  while the service shuts down; otherwise the handler runs at most once, with the decoded and typed
  arguments, at most one exception is reported, at most one reply goes out, to the queue and with the
  correlation id of the request, and the message is then settled exactly once. A request whose
  correlation id the task is already working on runs no handler and gets no reply. The bookkeeping of
  scopes, work in flight and handler tasks is back where it was.
\<close>

theorem rpc_handled_once:
  "\<exists>calls. trace (snd (on_rpc_message build exn_text task fresh parent child m s)) = trace s @ calls \<and>
     (if cns_shutting_down s then \<exists>ok. calls = [(MsgNack True, ok)]
      else (\<exists>work r b. calls = work @ [(MsgDone True r, b)] \<and>
             (if pending_key task m \<in> set (cns_rpc_pending s) then work = []
              else rpc_calls build task m work)) \<and>
        quiescent child s (snd (on_rpc_message build exn_text task fresh parent child m s)))"
proof (cases "cns_shutting_down s")
  case True
  from in_handler_task_refuses[OF True, of parent child "handle_rpc build exn_text task fresh child m"] True
  show ?thesis by (auto simp: on_rpc_message_def)
next
  case False
  let ?body = "process_message MsgDone True (rpc_body build exn_text task child m)"
  have "keeps scope ?body" "keeps cns_handler_tasks ?body" by (intro keeps_rules)+
  from in_handler_task_quiescent[OF False this]
  have q: "quiescent child s (snd (on_rpc_message build exn_text task fresh parent child m s))"
    by (simp add: on_rpc_message_def handle_rpc_def)
  obtain u where u: "trace (snd (on_rpc_message build exn_text task fresh parent child m s)) =
      trace (snd (?body u))" "trace u = trace s" "cns_rpc_pending u = cns_rpc_pending s"
    unfolding on_rpc_message_def handle_rpc_def by (rule in_handler_task_trace[OF False])
  obtain work where work: "trace (snd (rpc_body build exn_text task child m u)) = trace u @ work"
    "if pending_key task m \<in> set (cns_rpc_pending u) then work = [] else rpc_calls build task m work"
    by (rule rpc_body_trace)
  obtain r w where w: "rpc_body build exn_text task child m u = (r, w)" by fastforce
  obtain b r' where "trace (snd (?body u)) = trace w @ [(MsgDone True r', b)]"
    by (rule process_trace[of "rpc_body build exn_text task child m" u r w True]) (auto simp: w)
  with work(1) w have "trace (snd (?body u)) = trace u @ work @ [(MsgDone True r', b)]" by simp
  with u work(2) q False show ?thesis by auto
qed

section \<open>What the caller is answered\<close>

text \<open>The response the handler's outcome stands for.\<close>

definition response_to :: "(exn \<Rightarrow> string) \<Rightarrow> reply \<Rightarrow> pyval" where
  "response_to exn_text r =
     (case r of Returns v \<Rightarrow> as_rpc_return v | Raises e \<Rightarrow> internal_error (exn_text e))"

text \<open>No cancellation, and the configuration says whether exceptions are reported.\<close>

definition undisturbed :: "consumer_state \<Rightarrow> bool" where
  "undisturbed s \<longleftrightarrow> Raises CancelledError \<notin> set (script s) \<and>
     (\<exists>v. get_kontiki_parameter (cns_config s) ''registration.report_uncaught_exceptions'' (VBool True) = Inr v)"

lemma io_undisturbed:
  assumes "Raises CancelledError \<notin> set (script s)"
  shows "Raises CancelledError \<notin> set (script (snd (io e s)))" "fst (io e s) \<noteq> Inl CancelledError"
  using assms by (cases rule: io_cases[of e s]; auto)+

lemma report_exception_ok:
  assumes "Raises CancelledError \<notin> set (script s)"
  shows "fst (report_exception t e s) = Inr ()"
proof (cases "cns_registry_client s")
  case True
  let ?e = "RegisterException e (get_handler_ctx_fields t (scope s))"
  obtain q u where "io ?e s = (q, u)" by fastforce
  with io_undisturbed[OF assms, of ?e] True show ?thesis
    by (cases q) (simp_all add: report_exception_def py_if_run py_bind_run py_read_run py_try_run
        py_then_run py_return_run is_Exception_def)
qed (simp add: report_exception_def py_if_run py_return_run)

lemma report_uncaught_ok:
  assumes "undisturbed s"
  shows "fst (report_uncaught_exception t e s) = Inr ()"
    "Raises CancelledError \<notin> set (script (snd (report_uncaught_exception t e s)))"
proof -
  have n: "Raises CancelledError \<notin> set (script s)" using assms by (simp add: undisturbed_def)
  show "fst (report_uncaught_exception t e s) = Inr ()"
    using assms report_exception_ok[OF n, of t e]
    by (auto simp: report_uncaught_exception_def py_bind_run py_read_run py_lift_run py_return_run
        undisturbed_def)
  show "Raises CancelledError \<notin> set (script (snd (report_uncaught_exception t e s)))"
    using report_uncaught_snd[of t e s] n io_undisturbed(1)[OF n]
    by (auto simp: report_exception_snd split: if_splits)
qed


lemma rpc_invoke_answers:
  assumes "undisturbed s" "script s = r # rest" "rpc_arguments build task m args kwargs = Inr (as, ks)"
  obtains rep ok where
    "fst (rpc_invoke build exn_text task t m args kwargs s) = Inr (response_to exn_text r)"
    "trace (snd (rpc_invoke build exn_text task t m args kwargs s)) =
       trace s @ [(RunHandler (rt_name task) as ks (rpc_headers task m), ok)] @ rep"
    "ok \<longleftrightarrow> (\<exists>v. r = Returns v)"
    "Raises CancelledError \<notin> set (script (snd (rpc_invoke build exn_text task t m args kwargs s)))"
proof -
  let ?e = "RunHandler (rt_name task) as ks (rpc_headers task m)"
  have n: "Raises CancelledError \<notin> set rest" "r \<noteq> Raises CancelledError"
    using assms(1,2) by (auto simp: undisturbed_def)
  show ?thesis
  proof (cases r)
    case (Returns v)
    with assms n that[of True "[]"] show ?thesis
      by (simp add: rpc_invoke_def py_try_run py_bind_run py_lift_run py_return_run io_run response_to_def)
  next
    case (Raises e)
    let ?u = "s\<lparr>script := rest, trace := trace s @ [(?e, False)]\<rparr>"
    have un: "undisturbed ?u" using assms(1) n(1) by (simp add: undisturbed_def)
    obtain rep where rep: "trace (snd (report_uncaught_exception t e ?u)) = trace ?u @ rep"
      by (rule report_uncaught_trace)
    obtain w where w: "report_uncaught_exception t e ?u = (Inr (), w)"
      using report_uncaught_ok(1)[OF un, of t e] by (metis prod.collapse)
    have "is_Exception e" using Raises n(2) by (simp add: is_Exception_def)
    then have run: "rpc_invoke build exn_text task t m args kwargs s = (Inr (internal_error (exn_text e)), w)"
      using Raises assms(2,3) w
      by (simp add: rpc_invoke_def py_try_run py_bind_run py_lift_run io_run py_then_run py_return_run)
    with Raises rep w report_uncaught_ok(2)[OF un, of t e] that[of False rep] show ?thesis
      by (simp add: response_to_def)
  qed
qed

lemma rpc_reply_sends:
  assumes "truthy (msg_reply_to m)" "dumps response = Inr j" "Raises CancelledError \<notin> set (script s)"
  obtains ok where "fst (rpc_reply task m response s) = Inr ()"
    "trace (snd (rpc_reply task m response s)) = trace s @ [(SendReply (msg_reply_to m) (msg_cid m) j, ok)]"
    "cns_rpc_pending (snd (rpc_reply task m response s)) =
       removeAll (pending_key task m) (cns_rpc_pending s)"
proof -
  let ?e = "SendReply (msg_reply_to m) (msg_cid m) j"
  obtain ok where ok: "trace (snd (io ?e s)) = trace s @ [(?e, ok)]" by (rule io_appends)
  obtain q u where io: "io ?e s = (q, u)" by fastforce
  have "q \<noteq> Inl CancelledError" using io_undisturbed(2)[OF assms(3), of ?e] io by simp
  then have run: "rpc_reply task m response s =
      (Inr (), u\<lparr>cns_rpc_pending := removeAll (pending_key task m) (cns_rpc_pending u)\<rparr>)"
    using assms(1,2) io
    by (cases q) (simp_all add: rpc_reply_def py_finally_run py_try_run py_bind_run py_lift_run
        py_then_run py_return_run del_pending_def py_modify_run is_Exception_def)
  have "cns_rpc_pending u = cns_rpc_pending s" using io io_consumer_fields(2)[of ?e s] by simp
  with run ok io that[of ok] show ?thesis by simp
qed

lemma rpc_invoke_pending:
  "cns_rpc_pending (snd (rpc_invoke build exn_text task t m args kwargs s)) = cns_rpc_pending s"
proof -
  have "keeps cns_rpc_pending (io e :: (consumer_state, pyval) py)"
    "keeps cns_rpc_pending (report_uncaught_exception t e2)" for e e2
    by (rule keepsI; simp)+
  then have "keeps cns_rpc_pending (rpc_invoke build exn_text task t m args kwargs)"
    unfolding rpc_invoke_def
    by (auto intro!: keeps_bind keeps_except keeps_then keeps_return keeps_lift)
  then show ?thesis by (rule keepsD)
qed


lemma rpc_body_answers:
  assumes "undisturbed s" "script s = r # rest" "pending_key task m \<notin> set (cns_rpc_pending s)"
    and "parse_request (loads_body m) = Inr (args, kwargs)"
    and "rpc_arguments build task m args kwargs = Inr (as, ks)"
    and "truthy (msg_reply_to m)" "dumps (response_to exn_text r) = Inr j"
  obtains rep ok sent u where "rpc_body build exn_text task t m s = (Inr (), u)"
    "trace u = trace s @ [(RunHandler (rt_name task) as ks (rpc_headers task m), ok)] @ rep @
       [(SendReply (msg_reply_to m) (msg_cid m) j, sent)]"
    "ok \<longleftrightarrow> (\<exists>v. r = Returns v)" "cns_rpc_pending u = cns_rpc_pending s"
proof -
  let ?s = "s\<lparr>cns_rpc_pending := List.insert (pending_key task m) (cns_rpc_pending s)\<rparr>"
  have un: "undisturbed ?s" using assms(1) by (simp add: undisturbed_def)
  obtain rep ok where inv:
    "fst (rpc_invoke build exn_text task t m args kwargs ?s) = Inr (response_to exn_text r)"
    "trace (snd (rpc_invoke build exn_text task t m args kwargs ?s)) =
       trace ?s @ [(RunHandler (rt_name task) as ks (rpc_headers task m), ok)] @ rep"
    "ok \<longleftrightarrow> (\<exists>v. r = Returns v)"
    "Raises CancelledError \<notin> set (script (snd (rpc_invoke build exn_text task t m args kwargs ?s)))"
    by (rule rpc_invoke_answers[OF un _ assms(5), of r rest]) (use assms(2) in auto)
  obtain w where w: "rpc_invoke build exn_text task t m args kwargs ?s =
      (Inr (response_to exn_text r), w)" using inv(1) by (metis prod.collapse)
  have n: "Raises CancelledError \<notin> set (script w)" using inv(4) w by simp
  obtain sent where rep: "fst (rpc_reply task m (response_to exn_text r) w) = Inr ()"
    "trace (snd (rpc_reply task m (response_to exn_text r) w)) =
       trace w @ [(SendReply (msg_reply_to m) (msg_cid m) j, sent)]"
    "cns_rpc_pending (snd (rpc_reply task m (response_to exn_text r) w)) =
       removeAll (pending_key task m) (cns_rpc_pending w)"
    by (rule rpc_reply_sends[OF assms(6,7) n])
  have body: "rpc_body build exn_text task t m s = rpc_reply task m (response_to exn_text r) w"
    using assms(3,4) w
    by (simp add: rpc_body_def py_if_run py_then_run add_pending_def py_modify_run py_bind_run)
  have pend: "cns_rpc_pending w = List.insert (pending_key task m) (cns_rpc_pending s)"
    using rpc_invoke_pending[of build exn_text task t m args kwargs ?s] w by simp
  show ?thesis
  proof (rule that)
    show "rpc_body build exn_text task t m s =
        (Inr (), snd (rpc_reply task m (response_to exn_text r) w))"
      using body rep(1) by (metis prod.collapse)
    show "cns_rpc_pending (snd (rpc_reply task m (response_to exn_text r) w)) = cns_rpc_pending s"
      using rep(3) pend assms(3) by (simp add: removeAll_insert)
  qed (use rep(2) inv(2,3) w in simp_all)
qed

lemma on_rpc_message_answers:
  assumes "\<not> cns_shutting_down s" "undisturbed s" "script s = r # rest"
    and "pending_key task m \<notin> set (cns_rpc_pending s)"
    and "parse_request (loads_body m) = Inr (args, kwargs)"
    and "rpc_arguments build task m args kwargs = Inr (as, ks)"
    and "truthy (msg_reply_to m)" "dumps (response_to exn_text r) = Inr j"
  shows "\<exists>ok rep sent b.
    trace (snd (on_rpc_message build exn_text task fresh parent child m s)) =
      trace s @ [(RunHandler (rt_name task) as ks (rpc_headers task m), ok)] @ rep @
        [(SendReply (msg_reply_to m) (msg_cid m) j, sent), (MsgDone True None, b)] \<and>
    (ok \<longleftrightarrow> (\<exists>v. r = Returns v)) \<and>
    cns_rpc_pending (snd (on_rpc_message build exn_text task fresh parent child m s)) = cns_rpc_pending s"
proof -
  let ?body = "process_message MsgDone True (rpc_body build exn_text task child m)"
  obtain u where u: "trace (snd (on_rpc_message build exn_text task fresh parent child m s)) =
      trace (snd (?body u))" "trace u = trace s" "script u = script s"
    "cns_rpc_pending u = cns_rpc_pending s" "cns_config u = cns_config s"
    "cns_rpc_pending (snd (on_rpc_message build exn_text task fresh parent child m s)) =
      cns_rpc_pending (snd (?body u))"
    unfolding on_rpc_message_def handle_rpc_def by (rule in_handler_task_trace[OF assms(1)])
  have un: "undisturbed u" "script u = r # rest" "pending_key task m \<notin> set (cns_rpc_pending u)"
    using assms(2,3,4) u by (simp_all add: undisturbed_def)
  obtain rep ok sent w where w: "rpc_body build exn_text task child m u = (Inr (), w)"
    "trace w = trace u @ [(RunHandler (rt_name task) as ks (rpc_headers task m), ok)] @ rep @
       [(SendReply (msg_reply_to m) (msg_cid m) j, sent)]"
    "ok \<longleftrightarrow> (\<exists>v. r = Returns v)" "cns_rpc_pending w = cns_rpc_pending u"
    by (rule rpc_body_answers[OF un assms(5-8)])
  obtain b where "trace (snd (?body u)) = trace w @ [(MsgDone True None, b)]"
    "cns_rpc_pending (snd (?body u)) = cns_rpc_pending w"
    by (rule process_trace[of "rpc_body build exn_text task child m" u "Inr ()" w True])
      (auto simp: w(1))
  with u w show ?thesis by auto
qed


definition demo_consumer :: "reply list \<Rightarrow> consumer_state" where
  "demo_consumer answers = \<lparr>script = answers, trace = [], scope = scope_init, cns_config = VDict [],
     cns_registry_client = False, cns_shutting_down = False, cns_handler_tasks = [],
     cns_rpc_pending = []\<rparr>"

definition demo_rpc_task :: rpc_task where
  "demo_rpc_task = \<lparr>rt_name = ''total'', rt_queue = ''orders.total.queue'',
     rt_signature = \<lparr>sig_params = [''self'', ''n''], sig_hints = Inr []\<rparr>, rt_include_headers = False\<rparr>"

definition demo_request :: "pyval \<Rightarrow> message" where
  "demo_request reply_to = \<lparr>msg_body = Inr (JObj [(''args'', JArr [JInt 4]), (''kwargs'', JObj [])]),
     msg_headers = [], msg_cid = VStr ''c1'', msg_reply_to = reply_to\<rparr>"

lemma demo_request_parsed:
  "parse_request (loads_body (demo_request q)) = Inr (VList [VInt 4], VDict [])"
  by (simp add: demo_request_def loads_body_def loads_def entry_res_pair object_hook_def
      parse_request_def dget_default_def)

lemma demo_request_arguments:
  "rpc_arguments build demo_rpc_task (demo_request q) (VList [VInt 4]) (VDict []) = Inr ([VInt 4], [])"
  by (simp add: rpc_arguments_def reconstruct_rpc_args_def demo_rpc_task_def iterate_def
      rebuild_kwargs_def typed_value_def rpc_headers_def special_param_def)

lemma demo_config_reports:
  "get_kontiki_parameter (VDict []) ''registration.report_uncaught_exceptions'' (VBool True) =
     Inr (VBool True)"
  by (simp add: get_kontiki_parameter_def get_parameter_def)


text \<open>
  Without a reply queue the correlation id is never freed: the next request with the same id (or the
  next one without an id) is dropped as a duplicate, after the first has long been answered.
\<close>

lemma pending_kept_without_reply_to:
  assumes "\<not> cns_shutting_down s" "\<not> truthy (msg_reply_to m)"
    and "parse_request (loads_body m) = Inr (args, kwargs)"
  shows "pending_key task m \<in>
    set (cns_rpc_pending (snd (on_rpc_message build exn_text task fresh parent child m s)))"
proof -
  let ?body = "rpc_body build exn_text task child m"
  obtain u where u: "cns_rpc_pending (snd (on_rpc_message build exn_text task fresh parent child m s)) =
      cns_rpc_pending (snd (process_message MsgDone True ?body u))"
    unfolding on_rpc_message_def handle_rpc_def by (rule in_handler_task_trace[OF assms(1)])
  obtain r w where w: "?body u = (r, w)" by fastforce
  have "cns_rpc_pending (snd (process_message MsgDone True ?body u)) = cns_rpc_pending w"
    by (rule process_trace[of ?body u r w True]) (auto simp: w)
  moreover have "pending_key task m \<in> set (cns_rpc_pending (snd (?body u)))"
  proof (cases "pending_key task m \<in> set (cns_rpc_pending u)")
    case True
    then show ?thesis by (simp add: rpc_body_def py_if_run py_return_run)
  next
    case False
    let ?u = "u\<lparr>cns_rpc_pending := List.insert (pending_key task m) (cns_rpc_pending u)\<rparr>"
    have "cns_rpc_pending (snd (?body u)) =
        cns_rpc_pending (snd (rpc_invoke build exn_text task child m args kwargs ?u))"
      using False assms(2,3)
      by (simp add: rpc_body_def py_if_run py_then_run add_pending_def py_modify_run py_bind_run
          rpc_reply_def py_return_run split: prod.splits sum.splits)
    then show ?thesis by (simp add: rpc_invoke_pending)
  qed
  ultimately show ?thesis using u w by simp
qed

end
