(* ===== verification/Consumer_Setup.thy ===== *)
theory Consumer_Setup
  imports Event_Consumer Rpc_Consumer "HOL-Library.Sublist"
begin

text \<open>
  The queues a service consumes: \<open>Consumer\<close> of \<open>messaging/consumer/core.py\<close> apart from the counting of
  work in flight and the handling of a message, which have their own theories. Every declaration is
  an awaited call to the broker. An endpoint comes with the signature of its handler.
\<close>

datatype su_effect =
    Connect pyval "tls_context option" bool
  | OpenChan
  | SetQos pyval
  | DeclareExchange string
  | DeclareQueue string bool bool bool pydict
  | BindQueue string string string
  | StartConsumer string
  | CancelConsumer string pyval
  | CancelTask nat
  | GatherTasks
  | CloseConnection

record consumer = "su_effect world" +
  co_config :: pyval
  co_service_name :: string
  co_instance_id :: string
  co_connection :: bool
  co_failed_exchange :: bool
  co_max_attempts :: pyval
  co_event_tasks :: "(event_task \<times> pyval) list"
  co_rpc_tasks :: "(rpc_task \<times> pyval) list"
  co_handler_tasks :: "(nat \<times> bool) list"

definition consumer_init :: "pyval \<Rightarrow> string \<Rightarrow> string \<Rightarrow> reply list \<Rightarrow> consumer" where
  "consumer_init config service_name instance_id answers =
     \<lparr>script = answers, trace = [], co_config = config, co_service_name = service_name,
      co_instance_id = instance_id, co_connection = False, co_failed_exchange = False,
      co_max_attempts = VInt 3, co_event_tasks = [], co_rpc_tasks = [], co_handler_tasks = []\<rparr>"

definition call :: "su_effect \<Rightarrow> (consumer, unit) py" where
  "call e = py_then (io e) (py_return ())"

definition param :: "string \<Rightarrow> pyval \<Rightarrow> (consumer, pyval) py" where
  "param path dflt =
     py_bind (py_read co_config) (\<lambda>c. py_lift (get_kontiki_parameter c path dflt))"

section \<open>Queues\<close>

text \<open>\<open>max_attempts - 1\<close> after the check that it is at least 1.\<close>

definition delivery_limit :: "pyval \<Rightarrow> exn + pyval" where
  "delivery_limit attempts =
     (case number_value attempts of
        None \<Rightarrow> Inl (TypeError ''< not supported'')
      | Some n \<Rightarrow>
          if n < 1 then Inl (ValueError ''max_attempts must be at least 1'')
          else (case attempts of VFloat r \<Rightarrow> Inr (VFloat (r - 1)) | _ \<Rightarrow> Inr (VInt (\<lfloor>n\<rfloor> - 1))))"

definition work_arguments :: "pyval \<Rightarrow> string \<Rightarrow> pydict" where
  "work_arguments limit failed_routing_key =
     [(''x-queue-type'', VStr ''quorum''), (''x-delivery-limit'', limit),
      (''x-delayed-retry-type'', VStr ''failed''),
      (''x-delayed-retry-min'', VInt DELAYED_RETRY_MIN_MS),
      (''x-delayed-retry-max'', VInt DELAYED_RETRY_MAX_MS),
      (''x-dead-letter-exchange'', VStr FAILED_EXCHANGE),
      (''x-dead-letter-routing-key'', VStr failed_routing_key),
      (''x-dead-letter-strategy'', VStr ''at-least-once''),
      (''x-overflow'', VStr ''reject-publish'')]"

definition failed_arguments :: pydict where
  "failed_arguments =
     [(''x-queue-type'', VStr ''quorum''), (''x-max-length'', VInt FAILED_QUEUE_MAX_LENGTH),
      (''x-overflow'', VStr ''reject-publish'')]"

text \<open>\<open>_declare_queue\<close>; a work queue comes with its attempts and its failed routing key.\<close>

definition declare_queue :: "string \<Rightarrow> bool \<Rightarrow> (pyval \<times> string) option \<Rightarrow> (consumer, unit) py" where
  "declare_queue qname durable work =
     (case work of
        Some (attempts, failed_routing_key) \<Rightarrow>
          py_bind (py_lift (delivery_limit attempts)) (\<lambda>limit.
            call (DeclareQueue qname True False False (work_arguments limit failed_routing_key)))
      | None \<Rightarrow>
          if durable then call (DeclareQueue qname True False False [])
          else call (DeclareQueue qname False True True []))"

definition declare_failed_queue :: "string \<Rightarrow> (consumer, unit) py" where
  "declare_failed_queue event_type =
     py_then
       (py_when (\<lambda>s. \<not> co_failed_exchange s)
          (py_then (call (DeclareExchange FAILED_EXCHANGE))
             (py_modify (\<lambda>s. s\<lparr>co_failed_exchange := True\<rparr>))))
       (py_bind (py_read (\<lambda>s. failed_queue_name (co_service_name s) event_type)) (\<lambda>name.
          py_then (call (DeclareQueue name True False False failed_arguments))
            (call (BindQueue name FAILED_EXCHANGE name))))"

section \<open>Event handlers\<close>

definition one_off :: "event_endpoint \<Rightarrow> bool" where
  "one_off ep \<longleftrightarrow> ep_broadcast ep \<or> ep_target_instance ep"

definition event_queue_name :: "string \<Rightarrow> string \<Rightarrow> event_endpoint \<Rightarrow> string \<Rightarrow> string" where
  "event_queue_name service_name instance_id ep event_type =
     (if one_off ep then service_name @ ''.'' @ event_type @ ''.'' @ instance_id @ ''.queue''
      else service_name @ ''.'' @ event_type @ ''.queue'')"

definition binding_key :: "string \<Rightarrow> event_endpoint \<Rightarrow> string \<Rightarrow> string" where
  "binding_key instance_id ep event_type =
     (if ep_target_instance ep then event_type @ ''.'' @ instance_id else event_type)"

definition effective_max_attempts :: "event_endpoint \<Rightarrow> pyval \<Rightarrow> pyval" where
  "effective_max_attempts ep dflt =
     (case ep_max_attempts ep of Some n \<Rightarrow> VInt n | None \<Rightarrow> dflt)"

definition add_event_type ::
  "event_endpoint \<Rightarrow> signature \<Rightarrow> pyval \<Rightarrow> string \<Rightarrow> (consumer, unit) py" where
  "add_event_type ep sig attempts event_type =
     py_bind (py_read (\<lambda>s. (co_service_name s, co_instance_id s))) (\<lambda>(service_name, instance_id).
       let qname = event_queue_name service_name instance_id ep event_type
       in py_then
            (if one_off ep then declare_queue qname False None
             else py_then (declare_failed_queue event_type)
                    (declare_queue qname True (Some (attempts, failed_queue_name service_name event_type))))
            (py_then (call (BindQueue qname EVENT_EXCHANGE (binding_key instance_id ep event_type)))
               (py_modify (\<lambda>s. s\<lparr>co_event_tasks := co_event_tasks s @
                  [(\<lparr>et_event_type = event_type, et_queue = qname, et_signature = sig,
                     et_include_headers = ep_include_headers ep, et_max_attempts = attempts,
                     et_requeue = \<not> one_off ep\<rparr>, VNone)]\<rparr>))))"

definition add_on_event_task :: "event_endpoint \<times> signature \<Rightarrow> (consumer, unit) py" where
  "add_on_event_task = (\<lambda>(ep, sig).
     py_bind (py_read co_config) (\<lambda>config.
     py_bind (py_lift (resolve_parameter_path config (ep_event_type_or_key ep) (ep_use_config ep)))
       (\<lambda>resolved.
     py_bind (py_lift (normalize_event_types resolved)) (\<lambda>event_types.
     py_bind (py_read (\<lambda>s. effective_max_attempts ep (co_max_attempts s))) (\<lambda>attempts.
       py_each (add_event_type ep sig attempts) event_types)))))"

definition add_on_event_tasks :: "(event_endpoint \<times> signature) list \<Rightarrow> (consumer, unit) py" where
  "add_on_event_tasks tasks = py_each add_on_event_task tasks"

section \<open>RPC handlers\<close>

record rpc_endpoint =
  rep_name :: string
  rep_include_headers :: bool

definition bind_rpc_task ::
  "rpc_endpoint \<Rightarrow> signature \<Rightarrow> string \<Rightarrow> bool \<Rightarrow> (consumer, unit) py" where
  "bind_rpc_task ep sig routing_key durable =
     (let qname = routing_key @ ''.queue''
      in py_then (declare_queue qname durable None)
           (py_then (call (BindQueue qname RPC_EXCHANGE routing_key))
              (py_modify (\<lambda>s. s\<lparr>co_rpc_tasks := co_rpc_tasks s @
                 [(\<lparr>rt_name = rep_name ep, rt_queue = qname, rt_signature = sig,
                    rt_include_headers = rep_include_headers ep\<rparr>, VNone)]\<rparr>))))"

definition add_rpc_task :: "rpc_endpoint \<times> signature \<Rightarrow> (consumer, unit) py" where
  "add_rpc_task = (\<lambda>(ep, sig).
     py_bind (py_read (\<lambda>s. (co_service_name s @ ''.'' @ rep_name ep, co_instance_id s)))
       (\<lambda>(shared_key, instance_id).
          py_then (bind_rpc_task ep sig shared_key True)
            (bind_rpc_task ep sig (shared_key @ ''.'' @ instance_id) False)))"

definition add_rpc_tasks :: "(rpc_endpoint \<times> signature) list \<Rightarrow> (consumer, unit) py" where
  "add_rpc_tasks tasks = py_each add_rpc_task tasks"

text \<open>The internal handler that opens a session answers the instance and a fresh identifier.\<close>

definition session_open_endpoint :: "rpc_endpoint \<times> signature" where
  "session_open_endpoint =
     (\<lparr>rep_name = KONTIKI_SESSION_OPEN_RPC, rep_include_headers = True\<rparr>,
      \<lparr>sig_params = [''container'', ''_headers'', ''kwargs''], sig_hints = Inr []\<rparr>)"

definition session_open_handler :: "string \<Rightarrow> string \<Rightarrow> pyval" where
  "session_open_handler instance_id fresh = VTuple [VStr instance_id, VStr fresh]"

section \<open>Life cycle\<close>

text \<open>The URL is read by the constructor in the source; the configuration does not change.\<close>

definition consumer_setup :: "(consumer, unit) py" where
  "consumer_setup =
     py_bind (py_read co_config) (\<lambda>config.
     py_bind (py_lift (get_amqp_url config (VStr AMQP_DEFAULT_URL))) (\<lambda>url.
     py_bind (py_lift (create_tls_context config)) (\<lambda>tls_ctx.
     py_bind (py_lift (is_amqp_required config)) (\<lambda>fail_fast.
     py_then (call (Connect url tls_ctx (truthy fail_fast)))
     (py_then (py_modify (\<lambda>s. s\<lparr>co_connection := True\<rparr>))
     (py_then (call OpenChan)
     (py_bind (param ''amqp.max_pending_messages'' (VInt 10)) (\<lambda>prefetch_count.
     py_then (call (SetQos prefetch_count))
     (py_then (call (DeclareExchange EVENT_EXCHANGE))
     (py_then (call (DeclareExchange RPC_EXCHANGE))
     (py_bind (param ''amqp.max_attempts'' (VInt 3)) (\<lambda>attempts.
     py_then (py_modify (\<lambda>s. s\<lparr>co_max_attempts := attempts\<rparr>))
       (add_rpc_tasks [session_open_endpoint])))))))))))))"

text \<open>Starting the tasks stores the tag of each consumer; a task with a tag can be stopped.\<close>

fun start_tasks ::
  "('t \<Rightarrow> string) \<Rightarrow> (nat \<Rightarrow> pyval \<Rightarrow> consumer \<Rightarrow> consumer) \<Rightarrow> nat \<Rightarrow> ('t \<times> pyval) list \<Rightarrow>
   (consumer, unit) py" where
  "start_tasks queue store i [] = py_return ()"
| "start_tasks queue store i ((t, tag) # rest) =
     py_bind (io (StartConsumer (queue t))) (\<lambda>new_tag.
       py_then (py_modify (store i new_tag)) (start_tasks queue store (Suc i) rest))"

fun stop_tasks ::
  "('t \<Rightarrow> string) \<Rightarrow> (nat \<Rightarrow> pyval \<Rightarrow> consumer \<Rightarrow> consumer) \<Rightarrow> nat \<Rightarrow> ('t \<times> pyval) list \<Rightarrow>
   (consumer, unit) py" where
  "stop_tasks queue store i [] = py_return ()"
| "stop_tasks queue store i ((t, tag) # rest) =
     py_then
       (if truthy tag
        then py_then (call (CancelConsumer (queue t) tag)) (py_modify (store i VNone))
        else py_return ())
       (stop_tasks queue store (Suc i) rest)"

definition store_event_tag :: "nat \<Rightarrow> pyval \<Rightarrow> consumer \<Rightarrow> consumer" where
  "store_event_tag i tag s =
     s\<lparr>co_event_tasks := (co_event_tasks s)[i := (fst (co_event_tasks s ! i), tag)]\<rparr>"

definition store_rpc_tag :: "nat \<Rightarrow> pyval \<Rightarrow> consumer \<Rightarrow> consumer" where
  "store_rpc_tag i tag s =
     s\<lparr>co_rpc_tasks := (co_rpc_tasks s)[i := (fst (co_rpc_tasks s ! i), tag)]\<rparr>"

definition consumer_start :: "(consumer, unit) py" where
  "consumer_start =
     py_then (\<lambda>s. start_tasks et_queue store_event_tag 0 (co_event_tasks s) s)
       (\<lambda>s. start_tasks rt_queue store_rpc_tag 0 (co_rpc_tasks s) s)"

definition stop_accepting :: "(consumer, unit) py" where
  "stop_accepting =
     py_then (\<lambda>s. stop_tasks et_queue store_event_tag 0 (co_event_tasks s) s)
       (\<lambda>s. stop_tasks rt_queue store_rpc_tag 0 (co_rpc_tasks s) s)"

text \<open>Handler tasks carry whether they are done; cancelling is a request, gathering awaits them.\<close>

definition force_close :: "(consumer, unit) py" where
  "force_close =
     py_then (\<lambda>s. py_each (\<lambda>(t, finished). if finished then py_return () else record_effect (CancelTask t))
                (co_handler_tasks s) s)
     (py_then (py_when (\<lambda>s. co_handler_tasks s \<noteq> []) (call GatherTasks))
     (py_then (py_modify (\<lambda>s. s\<lparr>co_handler_tasks := []\<rparr>))
        (py_when co_connection
           (py_then (call CloseConnection) (py_modify (\<lambda>s. s\<lparr>co_connection := False\<rparr>))))))"

definition consumer_stop :: "(consumer, unit) py" where
  "consumer_stop = py_then stop_accepting force_close"


section \<open>The topology is complete\<close>

text \<open>
  What an event task relies on. A task of a competing handler, which requeues, consumes a quorum
  queue with a delivery limit, whose failed queue was declared and bound before; the task of a
  broadcast or session handler, which drops, consumes an exclusive queue of the instance.
\<close>

definition work_queue_calls :: "string \<Rightarrow> string \<Rightarrow> pyval \<Rightarrow> su_effect list" where
  "work_queue_calls service_name event_type limit =
     (let failed = failed_queue_name service_name event_type;
          qname = service_name @ ''.'' @ event_type @ ''.queue''
      in [DeclareQueue failed True False False failed_arguments,
          BindQueue failed FAILED_EXCHANGE failed,
          DeclareQueue qname True False False (work_arguments limit failed),
          BindQueue qname EVENT_EXCHANGE event_type])"

definition one_off_calls :: "string \<Rightarrow> string \<Rightarrow> string \<Rightarrow> string \<Rightarrow> su_effect list" where
  "one_off_calls service_name instance_id event_type key =
     (let qname = service_name @ ''.'' @ event_type @ ''.'' @ instance_id @ ''.queue''
      in [DeclareQueue qname False True True [], BindQueue qname EVENT_EXCHANGE key])"

definition task_supported :: "consumer \<Rightarrow> event_task \<Rightarrow> bool" where
  "task_supported s task \<longleftrightarrow>
     (if et_requeue task then
        et_queue task = co_service_name s @ ''.'' @ et_event_type task @ ''.queue'' \<and>
        (\<exists>limit. delivery_limit (et_max_attempts task) = Inr limit \<and>
           subseq (work_queue_calls (co_service_name s) (et_event_type task) limit) (completed s))
      else
        et_queue task = co_service_name s @ ''.'' @ et_event_type task @ ''.'' @ co_instance_id s @ ''.queue'' \<and>
        (\<exists>key. (key = et_event_type task \<or> key = et_event_type task @ ''.'' @ co_instance_id s) \<and>
           subseq (one_off_calls (co_service_name s) (co_instance_id s) (et_event_type task) key) (completed s)))"

definition topology_ok :: "consumer \<Rightarrow> bool" where
  "topology_ok s \<longleftrightarrow> (\<forall>p \<in> set (co_event_tasks s). task_supported s (fst p)) \<and>
     (co_failed_exchange s \<longrightarrow> DeclareExchange FAILED_EXCHANGE \<in> set (completed s))"

text \<open>
  \<open>advances s xs t\<close>: from \<open>s\<close> to \<open>t\<close> more calls completed, among them \<open>xs\<close> in order, and neither the
  identity of the service nor its tasks changed. \<open>does s xs m\<close>: whatever the broker answers, \<open>m\<close>
  only makes such progress from \<open>s\<close>, and completes \<open>xs\<close> when it returns.
\<close>

definition advances :: "consumer \<Rightarrow> su_effect list \<Rightarrow> consumer \<Rightarrow> bool" where
  "advances s xs t \<longleftrightarrow> co_service_name t = co_service_name s \<and> co_instance_id t = co_instance_id s \<and>
     co_event_tasks t = co_event_tasks s \<and>
     (\<exists>es. completed t = completed s @ es \<and> subseq xs es \<and>
        (co_failed_exchange t \<longrightarrow> co_failed_exchange s \<or> DeclareExchange FAILED_EXCHANGE \<in> set es))"

definition does :: "consumer \<Rightarrow> su_effect list \<Rightarrow> (consumer, 'a) py \<Rightarrow> bool" where
  "does s xs m \<longleftrightarrow> (case m s of (Inr _, t) \<Rightarrow> advances s xs t | (Inl _, t) \<Rightarrow> advances s [] t)"

lemma advances_refl [simp]: "advances s [] s"
  by (simp add: advances_def)

lemma advances_trans:
  assumes "advances s xs t" "advances t ys u"
  shows "advances s (xs @ ys) u"
proof -
  obtain es where es: "completed t = completed s @ es" "subseq xs es"
    "co_failed_exchange t \<longrightarrow> co_failed_exchange s \<or> DeclareExchange FAILED_EXCHANGE \<in> set es"
    using assms(1) by (auto simp: advances_def)
  obtain fs where fs: "completed u = completed t @ fs" "subseq ys fs"
    "co_failed_exchange u \<longrightarrow> co_failed_exchange t \<or> DeclareExchange FAILED_EXCHANGE \<in> set fs"
    using assms(2) by (auto simp: advances_def)
  have "completed u = completed s @ (es @ fs)" "subseq (xs @ ys) (es @ fs)"
    using es fs by (simp_all add: list_emb_append_mono)
  moreover have "co_failed_exchange u \<longrightarrow>
      co_failed_exchange s \<or> DeclareExchange FAILED_EXCHANGE \<in> set (es @ fs)" using es(3) fs(3) by auto
  ultimately show ?thesis using assms unfolding advances_def by (metis (no_types, lifting))
qed

lemma advances_weaken: "advances s xs t \<Longrightarrow> advances s [] t"
  by (auto simp: advances_def)

lemma does_then:
  assumes "does s xs m" "\<And>t. advances s xs t \<Longrightarrow> does t ys n"
  shows "does s (xs @ ys) (py_then m n)"
proof -
  obtain r t where m: "m s = (r, t)" by fastforce
  show ?thesis
  proof (cases r)
    case (Inl e)
    with assms(1) m show ?thesis by (simp add: does_def py_then_run)
  next
    case (Inr x)
    with assms m have t: "advances s xs t" "does t ys n" by (auto simp: does_def)
    obtain q u where n: "n t = (q, u)" by fastforce
    show ?thesis
    proof (cases q)
      case (Inl e)
      with t(2) n have "advances s (xs @ []) u" by (intro advances_trans[OF t(1)]) (simp add: does_def)
      from advances_weaken[OF this] m n Inr Inl show ?thesis by (simp add: does_def py_then_run)
    next
      case (Inr y)
      with t(2) n have "advances s (xs @ ys) u" by (intro advances_trans[OF t(1)]) (simp add: does_def)
      with m n \<open>r = Inr x\<close> Inr show ?thesis by (simp add: does_def py_then_run)
    qed
  qed
qed

lemma does_return: "does s [] (py_return x)"
  by (simp add: does_def py_return_run)

lemma does_call: "does s [e] (call e)"
  by (cases rule: io_cases[of e s])
    (simp_all add: does_def call_def py_then_run py_return_run advances_def completed_def)

lemma does_read: "does s xs (h (g s)) \<Longrightarrow> does s xs (py_bind (py_read g) h)"
  by (simp add: does_def py_bind_run py_read_run)

lemma does_lift: "(\<And>y. r = Inr y \<Longrightarrow> does s xs (h y)) \<Longrightarrow> does s xs (py_bind (py_lift r) h)"
  by (cases r) (simp_all add: does_def py_bind_run py_lift_run)

lemma does_declare_failed:
  "does s [DeclareQueue (failed_queue_name (co_service_name s) ev) True False False failed_arguments,
      BindQueue (failed_queue_name (co_service_name s) ev) FAILED_EXCHANGE
        (failed_queue_name (co_service_name s) ev)] (declare_failed_queue ev)"
proof -
  have flag: "does s [] (py_when (\<lambda>s. \<not> co_failed_exchange s)
          (py_then (call (DeclareExchange FAILED_EXCHANGE))
             (py_modify (\<lambda>s. s\<lparr>co_failed_exchange := True\<rparr>))))"
    by (cases rule: io_cases[of "DeclareExchange FAILED_EXCHANGE" s])
      (auto simp: does_def call_def py_if_run py_then_run py_return_run py_modify_run advances_def
        completed_def)
  show ?thesis
    unfolding declare_failed_queue_def
    by (rule does_then[OF flag, simplified], rule does_read, rule does_then[of _ "[x]" for x, simplified])
      (auto simp: does_call advances_def)
qed

lemma does_declare_work:
  "does s [DeclareQueue q True False False (work_arguments (projr (delivery_limit attempts)) k)]
     (declare_queue q True (Some (attempts, k)))"
  by (auto simp: declare_queue_def intro!: does_lift does_call)

lemma declare_work_limit:
  "declare_queue q True (Some (attempts, k)) s = (Inr (), t) \<Longrightarrow> \<exists>limit. delivery_limit attempts = Inr limit"
  by (auto simp: declare_queue_def py_bind_run py_lift_run split: sum.splits)

lemma does_declare_one_off: "does s [DeclareQueue q False True True []] (declare_queue q False None)"
  by (simp add: declare_queue_def does_call)


text \<open>The declarations of one event type, without the final append of the task.\<close>

definition event_declarations ::
  "string \<Rightarrow> string \<Rightarrow> event_endpoint \<Rightarrow> pyval \<Rightarrow> string \<Rightarrow> (consumer, unit) py" where
  "event_declarations service_name instance_id ep attempts ev =
     (let qname = event_queue_name service_name instance_id ep ev
      in py_then
           (if one_off ep then declare_queue qname False None
            else py_then (declare_failed_queue ev)
                   (declare_queue qname True (Some (attempts, failed_queue_name service_name ev))))
           (call (BindQueue qname EVENT_EXCHANGE (binding_key instance_id ep ev))))"

definition event_task_of ::
  "string \<Rightarrow> string \<Rightarrow> event_endpoint \<Rightarrow> signature \<Rightarrow> pyval \<Rightarrow> string \<Rightarrow> event_task" where
  "event_task_of service_name instance_id ep sig attempts ev =
     \<lparr>et_event_type = ev, et_queue = event_queue_name service_name instance_id ep ev,
      et_signature = sig, et_include_headers = ep_include_headers ep, et_max_attempts = attempts,
      et_requeue = \<not> one_off ep\<rparr>"

lemma add_event_type_run:
  "add_event_type ep sig attempts ev s =
     (case event_declarations (co_service_name s) (co_instance_id s) ep attempts ev s of
        (Inl e, t) \<Rightarrow> (Inl e, t)
      | (Inr _, t) \<Rightarrow> (Inr (), t\<lparr>co_event_tasks := co_event_tasks t @
           [(event_task_of (co_service_name s) (co_instance_id s) ep sig attempts ev, VNone)]\<rparr>))"
  by (simp add: add_event_type_def event_declarations_def event_task_of_def Let_def py_bind_run
      py_read_run py_then_run py_modify_run split: prod.split sum.split)

lemma work_calls_split:
  "work_queue_calls sn ev limit =
     ([DeclareQueue (failed_queue_name sn ev) True False False failed_arguments,
       BindQueue (failed_queue_name sn ev) FAILED_EXCHANGE (failed_queue_name sn ev)] @
      [DeclareQueue (sn @ ''.'' @ ev @ ''.queue'') True False False
         (work_arguments limit (failed_queue_name sn ev))]) @
      [BindQueue (sn @ ''.'' @ ev @ ''.queue'') EVENT_EXCHANGE ev]"
  by (simp add: work_queue_calls_def Let_def)

lemma declarations_work:
  assumes "\<not> one_off ep"
  shows "does s (work_queue_calls (co_service_name s) ev (projr (delivery_limit attempts)))
    (event_declarations (co_service_name s) (co_instance_id s) ep attempts ev)"
proof -
  have names: "event_queue_name (co_service_name s) (co_instance_id s) ep ev =
      co_service_name s @ ''.'' @ ev @ ''.queue''" "binding_key (co_instance_id s) ep ev = ev"
    using assms by (auto simp: event_queue_name_def binding_key_def one_off_def)
  show ?thesis
    unfolding event_declarations_def Let_def names work_calls_split if_not_P[OF assms]
    by (intro does_then does_declare_failed does_declare_work does_call)
qed

lemma declarations_one_off:
  assumes "one_off ep"
  shows "does s (one_off_calls (co_service_name s) (co_instance_id s) ev (binding_key (co_instance_id s) ep ev))
    (event_declarations (co_service_name s) (co_instance_id s) ep attempts ev)"
proof -
  have names: "event_queue_name (co_service_name s) (co_instance_id s) ep ev =
      co_service_name s @ ''.'' @ ev @ ''.'' @ co_instance_id s @ ''.queue''"
    using assms by (simp add: event_queue_name_def)
  have "does s ([DeclareQueue (co_service_name s @ ''.'' @ ev @ ''.'' @ co_instance_id s @ ''.queue'') False True True []] @
      [BindQueue (co_service_name s @ ''.'' @ ev @ ''.'' @ co_instance_id s @ ''.queue'') EVENT_EXCHANGE
         (binding_key (co_instance_id s) ep ev)])
    (event_declarations (co_service_name s) (co_instance_id s) ep attempts ev)"
    unfolding event_declarations_def Let_def names if_P[OF assms]
    by (intro does_then does_declare_one_off does_call)
  then show ?thesis by (simp add: one_off_calls_def Let_def)
qed

lemma declarations_limit:
  assumes "\<not> one_off ep" "event_declarations sn iid ep attempts ev s = (Inr (), t)"
  shows "\<exists>limit. delivery_limit attempts = Inr limit"
proof -
  from assms obtain u v where "declare_queue (event_queue_name sn iid ep ev) True
      (Some (attempts, failed_queue_name sn ev)) u = (Inr (), v)"
    by (auto simp: event_declarations_def Let_def py_then_run split: prod.splits sum.splits)
  then show ?thesis by (rule declare_work_limit)
qed

lemma task_supported_mono:
  assumes "task_supported s task" "co_service_name t = co_service_name s"
    "co_instance_id t = co_instance_id s" "completed t = completed s @ es"
  shows "task_supported t task"
proof -
  have "subseq xs (completed s) \<Longrightarrow> subseq xs (completed t)" for xs
    using assms(4) by (simp add: subseq_rev_drop_many)
  note grown = this
  show ?thesis
  proof (cases "et_requeue task")
    case True
    with assms(1) grown show ?thesis unfolding task_supported_def assms(2,3) by auto
  next
    case False
    then obtain key where "key = et_event_type task \<or> key = et_event_type task @ ''.'' @ co_instance_id s"
      "subseq (one_off_calls (co_service_name s) (co_instance_id s) (et_event_type task) key) (completed s)"
      using assms(1) unfolding task_supported_def by auto
    with grown False assms(1) show ?thesis unfolding task_supported_def assms(2,3)
      by (intro if_not_P[THEN iffD2] conjI exI[of _ key]) auto
  qed
qed

lemma advances_topology:
  assumes "topology_ok s" "advances s xs t"
  shows "topology_ok t"
  using assms task_supported_mono unfolding topology_ok_def advances_def
  by (metis UnCI set_append)

lemma add_event_type_topology:
  assumes "topology_ok s"
  shows "topology_ok (snd (add_event_type ep sig attempts ev s))"
proof -
  let ?d = "event_declarations (co_service_name s) (co_instance_id s) ep attempts ev"
  let ?task = "event_task_of (co_service_name s) (co_instance_id s) ep sig attempts ev"
  obtain r t where d: "?d s = (r, t)" by fastforce
  show ?thesis
  proof (cases r)
    case (Inl e)
    have "advances s [] t"
      using d Inl declarations_work[of ep s ev attempts] declarations_one_off[of ep s ev attempts]
      by (cases "one_off ep") (auto simp: does_def)
    with advances_topology[OF assms] d Inl show ?thesis by (simp add: add_event_type_run)
  next
    case (Inr x)
    let ?calls = "if one_off ep then one_off_calls (co_service_name s) (co_instance_id s) ev
          (binding_key (co_instance_id s) ep ev)
        else work_queue_calls (co_service_name s) ev (projr (delivery_limit attempts))"
    have adv: "advances s ?calls t"
      using d Inr declarations_work[of ep s ev attempts] declarations_one_off[of ep s ev attempts]
      by (cases "one_off ep") (auto simp: does_def)
    then obtain es where es: "completed t = completed s @ es" "subseq ?calls es"
      "co_service_name t = co_service_name s" "co_instance_id t = co_instance_id s"
      by (auto simp: advances_def)
    then have sub: "subseq ?calls (completed t)" by (simp add: list_emb_append2)
    have sup: "task_supported t ?task"
    proof (cases "one_off ep")
      case True
      with sub es show ?thesis
        unfolding task_supported_def
        by (auto simp: event_task_of_def event_queue_name_def binding_key_def
            intro!: exI[of _ "binding_key (co_instance_id s) ep ev"])
    next
      case False
      obtain limit where "delivery_limit attempts = Inr limit"
        using declarations_limit[OF False] d Inr by (metis old.unit.exhaust)
      with False sub es show ?thesis
        by (auto simp: task_supported_def event_task_of_def event_queue_name_def)
    qed
    let ?u = "t\<lparr>co_event_tasks := co_event_tasks t @ [(?task, VNone)]\<rparr>"
    have "completed ?u = completed t" by (simp add: completed_def)
    with sup advances_topology[OF assms adv] have "topology_ok ?u"
      by (auto simp: topology_ok_def task_supported_def)
    with d Inr show ?thesis by (simp add: add_event_type_run)
  qed
qed

lemma each_topology:
  assumes "\<And>x t. topology_ok t \<Longrightarrow> topology_ok (snd (f x t))"
  shows "topology_ok s \<Longrightarrow> topology_ok (snd (py_each f xs s))"
proof (induction xs arbitrary: s)
  case (Cons x xs)
  obtain r t where "f x s = (r, t)" by fastforce
  with Cons.IH[of t] assms[OF Cons.prems, of x] show ?case
    by (cases r) (simp_all add: py_each_run_Cons)
qed (simp add: py_simps)

lemma add_on_event_tasks_topology:
  assumes "topology_ok s"
  shows "topology_ok (snd (add_on_event_tasks tasks s))"
  unfolding add_on_event_tasks_def
proof (rule each_topology)
  fix p t
  assume t: "topology_ok t"
  show "topology_ok (snd (add_on_event_task p t))"
    using t each_topology[where f = "add_event_type ep sig attempts" for ep sig attempts]
    by (auto simp: add_on_event_task_def py_bind_run py_read_run py_lift_run add_event_type_topology
        split: prod.splits sum.splits)
qed (rule assms)


lemma topology_init: "topology_ok (consumer_init config sn iid answers)"
  by (simp add: topology_ok_def consumer_init_def)

lemma delivery_limit_nonneg:
  "delivery_limit attempts = Inr limit \<Longrightarrow> \<exists>n. number_value limit = Some n \<and> 0 \<le> n"
  by (cases attempts) (auto simp: delivery_limit_def split: if_splits option.splits)


definition demo_event_endpoint :: event_endpoint where
  "demo_event_endpoint = \<lparr>ep_event_type_or_key = VStr ''paid'', ep_use_config = False,
     ep_target_instance = False, ep_include_headers = False, ep_broadcast = False,
     ep_max_attempts = Some 5\<rparr>"

definition demo_event_task :: event_task where
  "demo_event_task = \<lparr>et_event_type = ''paid'', et_queue = ''orders.paid.queue'',
     et_signature = \<lparr>sig_params = [], sig_hints = Inr []\<rparr>, et_include_headers = False,
     et_max_attempts = VInt 5, et_requeue = True\<rparr>"

lemma demo_event_type:
  obtains t where "add_event_type demo_event_endpoint \<lparr>sig_params = [], sig_hints = Inr []\<rparr> (VInt 5) ''paid''
     (consumer_init (VDict []) ''orders'' ''i1'' []) = (Inr (), t)"
    "co_event_tasks t = [(demo_event_task, VNone)]"
  by (simp add: demo_event_endpoint_def demo_event_task_def consumer_init_def py_simps
      add_event_type_def one_off_def declare_failed_queue_def Let_def
      call_def declare_queue_def delivery_limit_def event_queue_name_def binding_key_def)

lemma demo_resolved:
  "resolve_parameter_path config (ep_event_type_or_key demo_event_endpoint)
     (ep_use_config demo_event_endpoint) = Inr (VStr ''paid'')"
  "normalize_event_types (VStr ''paid'') = Inr [''paid'']"
  "effective_max_attempts demo_event_endpoint v = VInt 5"
  by (simp_all add: demo_event_endpoint_def resolve_parameter_path_def normalize_event_types_def
      nonempty_text_def texts_def effective_max_attempts_def)

lemma demo_event_tasks:
  "co_event_tasks (snd (add_on_event_tasks [(demo_event_endpoint, \<lparr>sig_params = [], sig_hints = Inr []\<rparr>)]
     (consumer_init (VDict []) ''orders'' ''i1'' []))) = [(demo_event_task, VNone)]"
proof -
  obtain t where t: "add_event_type demo_event_endpoint \<lparr>sig_params = [], sig_hints = Inr []\<rparr> (VInt 5) ''paid''
     (consumer_init (VDict []) ''orders'' ''i1'' []) = (Inr (), t)"
    "co_event_tasks t = [(demo_event_task, VNone)]" by (rule demo_event_type)
  then show ?thesis
    by (simp add: add_on_event_tasks_def add_on_event_task_def py_each_run_Cons py_each_run_Nil
        py_bind_run py_read_run py_lift_run demo_resolved)
qed


text \<open>
  The queue names are joined with dots, and neither service names nor event types are kept free of
  them: two services can share a queue without meaning to.
\<close>

lemma queue_names_collide:
  "event_queue_name ''shop.orders'' iid demo_event_endpoint ''paid'' =
     event_queue_name ''shop'' iid demo_event_endpoint ''orders.paid'' \<and>
   failed_queue_name ''shop.orders'' ''paid'' = failed_queue_name ''shop'' ''orders.paid''"
  by (simp add: event_queue_name_def one_off_def demo_event_endpoint_def failed_queue_name_def)

end
