(* ===== verification/Messenger.thy ===== *)
theory Messenger
  imports Configuration Handler_Scope Serialization
begin

text \<open>
  The client side: \<open>Messenger\<close> of \<open>messaging/publisher/messenger.py\<close>, \<open>RpcProxy\<close> of
  \<open>messaging/publisher/rpc.py\<close> and \<open>EventSession\<close> of \<open>messaging/publisher/session.py\<close>.

  A remote call is one coroutine with a wait in the middle, during which replies to any call arrive;
  it is \<open>call_begin\<close> up to the wait and \<open>call_end\<close> from there, and the future of a call is found
  under its correlation id. A wait that ends with the future still pending has timed out. Random
  identifiers, the clock and the host name are arguments.
\<close>

section \<open>State\<close>

datatype msg_effect =
    MConnect pyval "tls_context option" bool
  | MOpenChannel
  | MDeclareExchange string
  | MDeclareCallback
  | MConsumeCallback
  | MClose
  | MPublish string json pydict
  | MRequest string json string pydict
  | MDone bool "exn option"

datatype future = Pending | Resolved pyval | Failed exn | Cancelled

record messenger = "msg_effect scoped_world" +
  ms_standalone :: bool
  ms_container :: bool
  ms_config :: pyval
  ms_shutting_down :: bool
  ms_amqp_url :: pyval
  ms_event_exchange :: string
  ms_service_name :: string
  ms_instance_id :: string
  ms_host :: string
  ms_connection :: bool
  ms_started :: bool
  ms_needs_reconnect :: bool
  ms_reconnecting :: bool
  ms_rpc_timeout :: pyval
  ms_futures :: "string list"
  ms_future :: "string \<Rightarrow> future"
  ms_response_models :: "(string \<times> string option) list"

text \<open>The constructor: a standalone client takes a prefixed name and an identifier of its own.\<close>

definition STANDALONE_PREFIX :: string where
  "STANDALONE_PREFIX = KONTIKI @ ''-standalone-''"

definition standalone_name :: "string \<Rightarrow> string" where
  "standalone_name client_name =
     (if take (length STANDALONE_PREFIX) client_name = STANDALONE_PREFIX then client_name
      else STANDALONE_PREFIX @ client_name)"

definition messenger_new :: "reply list \<Rightarrow> bool \<Rightarrow> string \<Rightarrow> string \<Rightarrow> messenger" where
  "messenger_new answers standalone client_name fresh =
     \<lparr>script = answers, trace = [], scope = scope_init, ms_standalone = standalone,
      ms_container = False, ms_config = VNone, ms_shutting_down = False,
      ms_amqp_url = VStr AMQP_DEFAULT_URL, ms_event_exchange = EVENT_EXCHANGE,
      ms_service_name = (if standalone then standalone_name client_name else []),
      ms_instance_id = (if standalone then fresh else []), ms_host = [],
      ms_connection = False, ms_started = False, ms_needs_reconnect = False, ms_reconnecting = False,
      ms_rpc_timeout = VNone, ms_futures = [], ms_future = (\<lambda>_. Cancelled), ms_response_models = []\<rparr>"

definition mcall :: "msg_effect \<Rightarrow> (messenger, unit) py" where
  "mcall e = py_then (io e) (py_return ())"

section \<open>Connecting\<close>

definition fail_fast :: "messenger \<Rightarrow> exn + bool" where
  "fail_fast s =
     (if \<not> ms_container s then Inr True else map_sum id truthy (is_amqp_required (ms_config s)))"

definition messenger_connect :: "pyval \<Rightarrow> (messenger, unit) py" where
  "messenger_connect config =
     py_bind (py_read ms_amqp_url) (\<lambda>own_url.
     py_bind (py_lift (get_amqp_url config own_url)) (\<lambda>url.
     py_bind (py_lift (create_tls_context config)) (\<lambda>tls_ctx.
     py_bind (py_read fail_fast) (\<lambda>ff. py_bind (py_lift ff) (\<lambda>fail.
     py_then (mcall (MConnect url tls_ctx fail))
     (py_then (py_modify (\<lambda>s. s\<lparr>ms_connection := True\<rparr>))
     (py_then (mcall MOpenChannel)
     (py_bind (py_read ms_event_exchange) (\<lambda>exchange.
     py_then (mcall (MDeclareExchange exchange))
     (py_then (mcall (MDeclareExchange RPC_EXCHANGE))
     (py_then (mcall MDeclareCallback)
     (py_then (mcall MConsumeCallback)
     (py_bind (py_lift (get_rpc_timeout config)) (\<lambda>timeout.
        py_modify (\<lambda>s. s\<lparr>ms_rpc_timeout := timeout\<rparr>)))))))))))))))"

definition standalone_config :: "pyval \<Rightarrow> pyval" where
  "standalone_config url = VDict [(KONTIKI, VDict [(''amqp'', VDict [(''url'', url)])])]"

definition messenger_setup :: "(messenger, unit) py" where
  "messenger_setup =
     py_if ms_started (py_return ())
       (py_then
          (\<lambda>s. if ms_standalone s then messenger_connect (standalone_config (ms_amqp_url s)) s
                else if ms_container s then messenger_connect (ms_config s) s
                else py_raise (AttributeError ''config'') s)
          (py_modify (\<lambda>s. s\<lparr>ms_started := True, ms_needs_reconnect := False\<rparr>)))"

definition messenger_stop :: "(messenger, unit) py" where
  "messenger_stop =
     py_then (py_when ms_connection (mcall MClose))
       (py_modify (\<lambda>s. s\<lparr>ms_connection := False, ms_futures := [], ms_response_models := [],
          ms_started := False, ms_needs_reconnect := False\<rparr>))"

definition shutdown_in_progress :: "messenger \<Rightarrow> bool" where
  "shutdown_in_progress s \<longleftrightarrow> ms_container s \<and> ms_shutting_down s"

definition reconnect :: "(messenger, unit) py" where
  "reconnect =
     py_if shutdown_in_progress (py_return ())
       (py_if ms_reconnecting (py_return ())
          (py_then (py_modify (\<lambda>s. s\<lparr>ms_reconnecting := True\<rparr>))
             (py_finally
                (py_then (py_when ms_connection (mcall MClose))
                   (py_then (py_modify (\<lambda>s. s\<lparr>ms_connection := False, ms_started := False,
                        ms_needs_reconnect := True\<rparr>))
                      messenger_setup))
                (py_modify (\<lambda>s. s\<lparr>ms_reconnecting := False\<rparr>)))))"

definition require_amqp :: "(messenger, unit) py" where
  "require_amqp = py_if (\<lambda>s. \<not> ms_started s) (py_raise AmqpDisconnectedError) (py_return ())"

definition ensure_amqp :: "(messenger, unit) py" where
  "ensure_amqp =
     py_then
       (py_when (\<lambda>s. \<not> ms_started s \<and> ms_needs_reconnect s \<and> \<not> ms_reconnecting s \<and>
             \<not> shutdown_in_progress s)
          reconnect)
       require_amqp"

text \<open>
  A publish on a channel in an invalid state is repeated once, after reconnecting, when the broker
  is required; otherwise the messenger is reported as disconnected.
\<close>

definition with_reconnect :: "msg_effect \<Rightarrow> (messenger, unit) py" where
  "with_reconnect e =
     py_try (mcall e) (\<lambda>x.
       if x = ChannelInvalidStateError then
         Some (py_bind (py_read fail_fast) (\<lambda>ff. py_bind (py_lift ff) (\<lambda>fail.
            if \<not> fail then py_raise AmqpDisconnectedError
            else py_then reconnect (mcall e))))
       else None)"

section \<open>Publishing\<close>

text \<open>What a caller may pass besides the payload, with the identifiers and the instant drawn for it.\<close>

record outbound =
  ob_extra_headers :: "pydict option"
  ob_flow_id :: pyval
  ob_fresh_flow :: string
  ob_fresh_hop :: string
  ob_now :: string

definition extra_headers :: "outbound \<Rightarrow> pydict" where
  "extra_headers ob = (case ob_extra_headers ob of None \<Rightarrow> [] | Some h \<Rightarrow> h)"

definition get_service_headers :: "messenger \<Rightarrow> string \<Rightarrow> pydict" where
  "get_service_headers s now_utc_iso =
     [(''service_name'', VStr (ms_service_name s)), (''instance_id'', VStr (ms_instance_id s)),
      (''host'', VStr (ms_host s)), (''timestamp'', VStr now_utc_iso)]"

text \<open>The two outbound helpers: the flow goes into the headers and the context, then the hop.\<close>

definition outbound_headers ::
  "outbound \<Rightarrow> nat \<Rightarrow> pydict \<Rightarrow> pyval \<Rightarrow> (messenger, pydict) py" where
  "outbound_headers ob t headers rpc_service = (\<lambda>s.
     case apply_outbound_flow_id headers (ob_flow_id ob) (Some (extra_headers ob)) (ob_fresh_flow ob) t
            (scope s) of
       (_, h, sc) \<Rightarrow>
         (Inr (apply_outbound_hop_headers h rpc_service (ob_fresh_hop ob) t sc), s\<lparr>scope := sc\<rparr>))"

definition event_headers_of :: "string \<Rightarrow> pyval \<Rightarrow> pyval \<Rightarrow> pydict" where
  "event_headers_of event_type reply_to session_id =
     [(''event_type'', VStr event_type), (''reply_to'', reply_to)] @
     (if session_id \<noteq> VNone then [(''session_id'', session_id)] else [])"

definition publish ::
  "string \<Rightarrow> pyval \<Rightarrow> pyval \<Rightarrow> outbound \<Rightarrow> pyval \<Rightarrow> nat \<Rightarrow> (messenger, unit) py" where
  "publish event_type obj reply_to ob session_id t =
     py_then ensure_amqp
     (py_then (py_lift (validate_extra_headers (extra_headers ob)))
     (py_bind (py_read (\<lambda>s. dunion (dunion (get_service_headers s (ob_now ob))
                 (event_headers_of event_type reply_to session_id)) (extra_headers ob))) (\<lambda>base.
     py_bind (outbound_headers ob t base VNone) (\<lambda>headers.
     py_bind (py_lift (dumps obj)) (\<lambda>body.
       with_reconnect (MPublish event_type body headers))))))"

section \<open>Remote calls\<close>

fun require_instance_id :: "pyval \<Rightarrow> exn + pyval" where
  "require_instance_id VNone = Inr VNone"
| "require_instance_id (VStr s) =
     (if strip s = [] then Inl (ValueError ''instance_id must be a non-empty string'') else Inr (VStr s))"
| "require_instance_id v = Inl (ValueError ''instance_id must be a non-empty string'')"

definition request_key :: "string \<Rightarrow> string \<Rightarrow> pyval \<Rightarrow> string" where
  "request_key service_name method_name instance_id =
     service_name @ ''.'' @ method_name @ (case instance_id of VStr i \<Rightarrow> ''.'' @ i | _ \<Rightarrow> [])"

definition register_call :: "string \<Rightarrow> string option \<Rightarrow> (messenger, unit) py" where
  "register_call cid response_model =
     py_modify (\<lambda>s. s\<lparr>ms_futures := List.insert cid (ms_futures s),
       ms_future := (ms_future s)(cid := Pending),
       ms_response_models := dset cid response_model (ms_response_models s)\<rparr>)"

definition call_begin ::
  "string \<Rightarrow> string \<Rightarrow> pyval list \<Rightarrow> pydict \<Rightarrow> outbound \<Rightarrow> pyval \<Rightarrow> string option \<Rightarrow> string \<Rightarrow> nat \<Rightarrow>
   (messenger, unit) py" where
  "call_begin service_name method_name args kwargs ob instance_id response_model cid t =
     py_then ensure_amqp
     (py_bind (py_lift (require_instance_id instance_id)) (\<lambda>iid.
     py_then (register_call cid response_model)
     (py_then (py_lift (validate_extra_headers (extra_headers ob)))
     (py_bind (py_read (\<lambda>s. dunion (dunion (get_service_headers s (ob_now ob))
                 [(''remote_method'', VStr method_name)]) (extra_headers ob))) (\<lambda>base.
     py_bind (outbound_headers ob t base (VStr service_name)) (\<lambda>headers.
     py_bind (py_lift (dumps (VDict [(''args'', VTuple args), (''kwargs'', VDict kwargs)]))) (\<lambda>body.
       with_reconnect (MRequest (request_key service_name method_name iid) body cid headers))))))))"

text \<open>\<open>wait_for\<close>: the future's outcome, or a timeout that cancels the future.\<close>

definition wait_for :: "string \<Rightarrow> (messenger, pyval) py" where
  "wait_for cid = (\<lambda>s. case ms_future s cid of
      Resolved v \<Rightarrow> (Inr v, s)
    | Failed e \<Rightarrow> (Inl e, s)
    | Cancelled \<Rightarrow> (Inl CancelledError, s)
    | Pending \<Rightarrow> (Inl TimeoutError, s\<lparr>ms_future := (ms_future s)(cid := Cancelled)\<rparr>))"

definition forget_call :: "string \<Rightarrow> (messenger, unit) py" where
  "forget_call cid =
     py_modify (\<lambda>s. s\<lparr>ms_futures := removeAll cid (ms_futures s),
       ms_response_models := dpop cid (ms_response_models s)\<rparr>)"

definition pop_response_model :: "string \<Rightarrow> (messenger, string option) py" where
  "pop_response_model cid = (\<lambda>s.
     (Inr (case dget (ms_response_models s) cid of None \<Rightarrow> None | Some m \<Rightarrow> m),
      s\<lparr>ms_response_models := dpop cid (ms_response_models s)\<rparr>))"

text \<open>What the caller gets for a response; \<open>build\<close> calls the response model.\<close>

definition interpret_response ::
  "constructors \<Rightarrow> string \<Rightarrow> string option \<Rightarrow> pyval \<Rightarrow> exn + pyval" where
  "interpret_response build method_name response_model response =
     (case response of
        VRpc success result message error_type error_code \<Rightarrow>
          (case (case (success, response_model, result) of
                   (True, Some m, VDict d) \<Rightarrow> build m d | _ \<Rightarrow> Inr result) of
             Inl e \<Rightarrow> Inl e
           | Inr result' \<Rightarrow>
               if success then Inr result'
               else if error_type = ET_CLIENT then Inl (RpcClientError method_name error_code message)
               else Inl (RpcServerError method_name error_code message))
      | _ \<Rightarrow> Inr response)"

definition call_end :: "constructors \<Rightarrow> string \<Rightarrow> string \<Rightarrow> (messenger, pyval) py" where
  "call_end build method_name cid =
     py_bind
       (py_try (wait_for cid) (\<lambda>e. if e = TimeoutError
          then Some (py_then (forget_call cid) (py_raise (RpcTimeoutError method_name))) else None))
       (\<lambda>response. py_bind (pop_response_model cid) (\<lambda>response_model.
          py_lift (interpret_response build method_name response_model response)))"

text \<open>The consumer of the callback queue: every reply is acknowledged, each future is set once.\<close>

definition on_response :: "pyval \<Rightarrow> exn + json \<Rightarrow> (messenger, unit) py" where
  "on_response correlation_id body =
     process_message MDone False (\<lambda>s.
       case correlation_id of
         VStr cid \<Rightarrow>
           if cid \<in> set (ms_futures s) then
             (let s' = s\<lparr>ms_futures := removeAll cid (ms_futures s)\<rparr>
              in if ms_future s cid = Pending
                 then (Inr (), s'\<lparr>ms_future := (ms_future s')(cid :=
                        (case (case body of Inl e \<Rightarrow> Inl e | Inr j \<Rightarrow> loads j) of
                           Inl e \<Rightarrow> Failed e | Inr v \<Rightarrow> Resolved v))\<rparr>)
                 else (Inr (), s'))
           else (Inr (), s)
       | _ \<Rightarrow> (Inr (), s))"


section \<open>What publishing puts on the wire\<close>

fun is_send :: "msg_effect \<Rightarrow> bool" where
  "is_send (MPublish k b h) = True"
| "is_send (MRequest k b c h) = True"
| "is_send _ = False"

abbreviation no_send :: "msg_effect \<Rightarrow> bool" where
  "no_send e \<equiv> \<not> is_send e"

lemma emits_mcall [emits_rules]: "P e \<Longrightarrow> emits P (mcall e)"
  unfolding mcall_def by (intro emits_rules)

lemma emits_connect: "emits no_send (messenger_connect config)"
  unfolding messenger_connect_def by (auto intro!: emits_rules)

lemma emits_setup: "emits no_send messenger_setup"
proof -
  have "emits no_send (\<lambda>s. if ms_standalone s then messenger_connect (standalone_config (ms_amqp_url s)) s
                else if ms_container s then messenger_connect (ms_config s) s
                else py_raise (AttributeError ''config'') s)"
    using emits_connect unfolding emits_def by (auto simp: py_raise_run)
  then show ?thesis unfolding messenger_setup_def by (auto intro!: emits_rules)
qed

lemma emits_reconnect: "emits no_send reconnect"
  unfolding reconnect_def by (auto intro!: emits_rules emits_setup)

lemma emits_ensure: "emits no_send ensure_amqp"
  unfolding ensure_amqp_def require_amqp_def by (auto intro!: emits_rules emits_reconnect)

text \<open>
  One send, or a failed one followed by reconnecting and then possibly the same send again. The
  caller returns normally exactly when the last send completed.
\<close>

definition sent :: "msg_effect \<Rightarrow> (msg_effect \<times> bool) list \<Rightarrow> bool \<Rightarrow> bool" where
  "sent e posts ok \<longleftrightarrow>
     posts = [(e, ok)] \<or>
     (\<exists>conn. list_all (\<lambda>p. no_send (fst p)) conn \<and>
        (posts = [(e, False)] @ conn @ [(e, ok)] \<or> (posts = [(e, False)] @ conn \<and> \<not> ok)))"

lemma mcall_cases:
  obtains (ok) t where "mcall e s = (Inr (), t)" "trace t = trace s @ [(e, True)]"
  | (fail) x t where "mcall e s = (Inl x, t)" "trace t = trace s @ [(e, False)]"
  by (cases rule: io_cases[of e s]) (auto simp: mcall_def py_then_run py_return_run)

lemma with_reconnect_sent:
  obtains posts where "trace (snd (with_reconnect e s)) = trace s @ posts"
    "sent e posts (\<exists>u. fst (with_reconnect e s) = Inr u)"
proof (cases rule: mcall_cases[of e s])
  case (ok t)
  with that[of "[(e, True)]"] show ?thesis by (simp add: with_reconnect_def py_try_run sent_def)
next
  case (fail x t)
  show ?thesis
  proof (cases "x = ChannelInvalidStateError")
    case False
    with fail that[of "[(e, False)]"] show ?thesis by (simp add: with_reconnect_def py_try_run sent_def)
  next
    case True
    show ?thesis
    proof (cases "fail_fast t = Inr True")
      case False
      then obtain y where "with_reconnect e s = (Inl y, t)"
        using fail True by (cases "fail_fast t")
          (auto simp: with_reconnect_def py_try_run py_bind_run py_read_run py_lift_run py_raise_run)
      with fail that[of "[(e, False)]"] show ?thesis by (simp add: sent_def)
    next
      case ff: True
      obtain q u where rec: "reconnect t = (q, u)" by fastforce
      obtain conn where conn: "trace u = trace t @ conn" "list_all (\<lambda>p. no_send (fst p)) conn"
        using emitsD[OF emits_reconnect, of t] rec by (metis snd_conv)
      have run: "with_reconnect e s = (case q of Inl y \<Rightarrow> (Inl y, u) | Inr _ \<Rightarrow> mcall e u)"
        using fail True ff rec
        by (simp add: with_reconnect_def py_try_run py_bind_run py_read_run py_lift_run py_then_run)
      show ?thesis
      proof (cases q)
        case (Inl y)
        with run fail conn that[of "[(e, False)] @ conn"] show ?thesis by (auto simp: sent_def)
      next
        case (Inr z)
        show ?thesis
          by (cases rule: mcall_cases[of e u])
            (use run Inr fail conn that[of "[(e, False)] @ conn @ [(e, True)]"]
              that[of "[(e, False)] @ conn @ [(e, False)]"] in \<open>auto simp: sent_def\<close>)
      qed
    qed
  qed
qed

text \<open>The headers of an outbound message: reserved names are Kontiki's, the rest the caller's.\<close>

lemma sort_Nil_iff: "sort xs = [] \<longleftrightarrow> xs = []"
  by (metis length_0_conv length_sort)

lemma validate_ok:
  "validate_extra_headers h = Inr () \<longleftrightarrow> (\<forall>k \<in> set (map fst h). k \<notin> set RESERVED_HEADERS)"
  by (auto simp: validate_extra_headers_def Let_def filter_empty_conv sort_Nil_iff)

text \<open>What connecting leaves alone: the identity, the context and the calls under way.\<close>

definition ms_own :: "messenger \<Rightarrow> (string \<times> string \<times> string \<times> scope_state) \<times>
    (string list \<times> (string \<Rightarrow> future) \<times> (string \<times> string option) list)" where
  "ms_own s = ((ms_service_name s, ms_instance_id s, ms_host s, scope s),
     (ms_futures s, ms_future s, ms_response_models s))"

lemma keeps_own_mcall [keeps_rules]: "keeps ms_own (mcall e)"
  unfolding mcall_def by (auto intro!: keeps_rules simp: ms_own_def)

lemma keeps_own_connect: "keeps ms_own (messenger_connect config)"
  unfolding messenger_connect_def by (auto intro!: keeps_rules simp: ms_own_def)

lemma keeps_own_setup: "keeps ms_own messenger_setup"
proof -
  have "keeps ms_own (\<lambda>s. if ms_standalone s then messenger_connect (standalone_config (ms_amqp_url s)) s
                else if ms_container s then messenger_connect (ms_config s) s
                else py_raise (AttributeError ''config'') s)"
    using keeps_own_connect unfolding keeps_def by (auto simp: py_raise_run)
  then show ?thesis unfolding messenger_setup_def by (auto intro!: keeps_rules simp: ms_own_def)
qed

lemma keeps_own_reconnect: "keeps ms_own reconnect"
  unfolding reconnect_def by (auto intro!: keeps_rules keeps_own_setup simp: ms_own_def)

lemma keeps_own_ensure: "keeps ms_own ensure_amqp"
  unfolding ensure_amqp_def require_amqp_def by (auto intro!: keeps_rules keeps_own_reconnect)

lemma keeps_own_with_reconnect: "keeps ms_own (with_reconnect e)"
  unfolding with_reconnect_def
  by (auto intro!: keeps_rules keeps_own_reconnect split: if_splits)

text \<open>The flow of an outbound message: the caller's choice, the context's flow, or a fresh one.\<close>

definition outbound_flow :: "outbound \<Rightarrow> nat \<Rightarrow> messenger \<Rightarrow> pyval" where
  "outbound_flow ob t s =
     (if ob_flow_id ob \<noteq> VNone then ob_flow_id ob
      else if current_flow_id t (scope s) \<noteq> VNone then current_flow_id t (scope s)
      else VStr (ob_fresh_flow ob))"

definition faithful_headers :: "outbound \<Rightarrow> nat \<Rightarrow> pydict \<Rightarrow> pydict \<Rightarrow> messenger \<Rightarrow> bool" where
  "faithful_headers ob t own h s \<longleftrightarrow>
     list_all (\<lambda>(k, v). dget h k = Some v) own \<and>
     list_all (\<lambda>(k, v). dget h k = Some v) (extra_headers ob) \<and>
     dget h ''flow_id'' = Some (outbound_flow ob t s) \<and>
     dget h ''hop_id'' = Some (VStr (ob_fresh_hop ob))"

definition hop_keys :: "string set" where
  "hop_keys = {''flow_id'', ''hop_id'', ''entrypoint'', ''operation'', ''parent_hop_id'', ''rpc_service''}"

lemma outbound_headers_run:
  assumes "validate_extra_headers (extra_headers ob) = Inr ()"
  shows "\<exists>s'. outbound_headers ob t base rpc s =
    (Inr (apply_outbound_hop_headers (dset ''flow_id'' (outbound_flow ob t s) base) rpc
        (ob_fresh_hop ob) t (scope s')), s')"
proof -
  have "dget (extra_headers ob) ''flow_id'' = None"
    using assms by (force simp: validate_ok RESERVED_HEADERS_def map_of_eq_None_iff)
  then have "fst (resolve_flow_id (ob_flow_id ob) (Some (extra_headers ob)) (ob_fresh_flow ob) t (scope s)) =
      outbound_flow ob t s"
    by (simp add: resolve_flow_id_def Let_def outbound_flow_def dget_default_def header_names)
  then show ?thesis
    by (auto simp: outbound_headers_def apply_outbound_flow_id_def header_names split: prod.splits
        intro!: exI[of _ "s\<lparr>scope := sc\<rparr>" for sc])
qed

lemma dget_hop_headers:
  "k \<notin> hop_keys \<Longrightarrow> dget (apply_outbound_hop_headers h rpc fresh t sc) k = dget h k"
  "dget (apply_outbound_hop_headers h rpc fresh t sc) ''flow_id'' = dget h ''flow_id''"
  "dget (apply_outbound_hop_headers h rpc fresh t sc) ''hop_id'' = Some (VStr fresh)"
  by (auto simp: apply_outbound_hop_headers_def Let_def dict_simps header_names hop_keys_def
      split: option.splits)

lemma faithful:
  assumes valid: "validate_extra_headers (extra_headers ob) = Inr ()"
    and dist: "distinct (map fst (extra_headers ob))" "distinct (map fst own)"
    and keys: "set (map fst own) \<subseteq> set RESERVED_HEADERS - hop_keys"
    and run: "outbound_headers ob t (dunion own (extra_headers ob)) rpc s = (Inr h, s')"
  shows "faithful_headers ob t own h s"
proof -
  let ?e = "extra_headers ob"
  obtain sc where h: "h = apply_outbound_hop_headers (dset ''flow_id'' (outbound_flow ob t s)
      (dunion own ?e)) rpc (ob_fresh_hop ob) t sc"
    using outbound_headers_run[OF valid, of t "dunion own ?e" rpc s] run by auto
  have ext: "k \<notin> set RESERVED_HEADERS" if "(k, v) \<in> set ?e" for k v
    using valid that unfolding validate_ok by force
  have hop: "hop_keys \<subseteq> set RESERVED_HEADERS" by (auto simp: hop_keys_def RESERVED_HEADERS_def)
  have "dget h k = Some v" if "(k, v) \<in> set own" for k v
  proof -
    have k: "k \<in> set RESERVED_HEADERS - hop_keys" using keys that by force
    then have "dget ?e k = None" using ext by (metis DiffD1 map_of_SomeD not_None_eq)
    moreover have "dget own k = Some v" using that dist(2) by (simp add: dget_iff_mem)
    moreover have "k \<noteq> ''flow_id''" using k by (auto simp: hop_keys_def)
    ultimately show ?thesis using k by (simp add: h dget_hop_headers dget_dunion[OF dist(1)])
  qed
  moreover have "dget h k = Some v" if "(k, v) \<in> set ?e" for k v
  proof -
    have "k \<notin> hop_keys" using ext[OF that] hop by blast
    moreover from this have "k \<noteq> ''flow_id''" by (auto simp: hop_keys_def)
    moreover have "dget ?e k = Some v" using that dist(1) by (simp add: dget_iff_mem)
    ultimately show ?thesis by (simp add: h dget_hop_headers dget_dunion[OF dist(1)])
  qed
  ultimately show ?thesis
    by (auto simp: faithful_headers_def list_all_iff h dget_hop_headers)
qed


lemma ms_own_eq:
  assumes "fst (ms_own u) = fst (ms_own s)"
  shows "get_service_headers u now = get_service_headers s now"
    "outbound_flow ob t u = outbound_flow ob t s" "faithful_headers ob t own h u = faithful_headers ob t own h s"
  using assms by (simp_all add: ms_own_def get_service_headers_def outbound_flow_def faithful_headers_def)

text \<open>The headers Kontiki gives to an event and to a request.\<close>

definition event_own_headers :: "messenger \<Rightarrow> outbound \<Rightarrow> string \<Rightarrow> pyval \<Rightarrow> pyval \<Rightarrow> pydict" where
  "event_own_headers s ob event_type reply_to session_id =
     get_service_headers s (ob_now ob) @ event_headers_of event_type reply_to session_id"

definition request_own_headers :: "messenger \<Rightarrow> outbound \<Rightarrow> string \<Rightarrow> pydict" where
  "request_own_headers s ob method_name =
     get_service_headers s (ob_now ob) @ [(''remote_method'', VStr method_name)]"

lemma own_headers_union:
  "dunion (get_service_headers s (ob_now ob)) (event_headers_of ev rt sid) = event_own_headers s ob ev rt sid"
  "dunion (get_service_headers s (ob_now ob)) [(''remote_method'', VStr m)] = request_own_headers s ob m"
  by (simp_all add: event_own_headers_def request_own_headers_def get_service_headers_def
      event_headers_of_def dset_fresh)

lemma own_headers_keys:
  "distinct (map fst (event_own_headers s ob ev rt sid))"
  "set (map fst (event_own_headers s ob ev rt sid)) \<subseteq> set RESERVED_HEADERS - hop_keys"
  "distinct (map fst (request_own_headers s ob m))"
  "set (map fst (request_own_headers s ob m)) \<subseteq> set RESERVED_HEADERS - hop_keys"
  by (auto simp: event_own_headers_def request_own_headers_def get_service_headers_def
      event_headers_of_def RESERVED_HEADERS_def hop_keys_def)

text \<open>The common shape: connection work, then nothing (with an exception) or one message sent.\<close>

definition sends_only ::
  "(msg_effect \<Rightarrow> bool) \<Rightarrow> messenger \<Rightarrow> (messenger, unit) py \<Rightarrow> bool" where
  "sends_only good s m \<longleftrightarrow>
     (\<exists>conn posts. trace (snd (m s)) = trace s @ conn @ posts \<and>
        list_all (\<lambda>p. no_send (fst p)) conn \<and>
        ((posts = [] \<and> (\<exists>e. fst (m s) = Inl e)) \<or>
         (\<exists>e. good e \<and> sent e posts (\<exists>u. fst (m s) = Inr u))))"

lemma sends_only_mono:
  assumes "sends_only good s m" "\<And>e. good e \<Longrightarrow> good' e"
  shows "sends_only good' s m"
  using assms unfolding sends_only_def by metis

lemma sends_only_with_reconnect:
  assumes "good e"
  shows "sends_only good s (with_reconnect e)"
proof -
  obtain posts where "trace (snd (with_reconnect e s)) = trace s @ posts"
    "sent e posts (\<exists>u. fst (with_reconnect e s) = Inr u)" by (rule with_reconnect_sent)
  with assms show ?thesis unfolding sends_only_def by (intro exI[of _ "[]"] exI[of _ posts]) auto
qed

lemma sends_only_then:
  assumes "emits no_send m" "\<And>x u. m s = (Inr x, u) \<Longrightarrow> sends_only good u n"
  shows "sends_only good s (py_then m n)"
proof -
  obtain es where es: "trace (snd (m s)) = trace s @ es" "list_all (\<lambda>p. no_send (fst p)) es"
    using assms(1) by (rule emitsD)
  obtain r u where m: "m s = (r, u)" by fastforce
  show ?thesis
  proof (cases r)
    case (Inl e)
    with m es show ?thesis
      unfolding sends_only_def by (intro exI[of _ es] exI[of _ "[]"]) (simp add: py_then_run)
  next
    case (Inr x)
    with assms(2) m have "sends_only good u n" by simp
    then obtain conn posts where n: "trace (snd (n u)) = trace u @ conn @ posts"
      "list_all (\<lambda>p. no_send (fst p)) conn"
      "(posts = [] \<and> (\<exists>e. fst (n u) = Inl e)) \<or> (\<exists>e. good e \<and> sent e posts (\<exists>v. fst (n u) = Inr v))"
      unfolding sends_only_def by blast
    from n es m Inr show ?thesis unfolding sends_only_def
      by (intro exI[of _ "es @ conn"] exI[of _ posts]) (simp add: py_then_run)
  qed
qed

lemma sends_only_bind:
  assumes "\<And>s. trace (snd (m s)) = trace s" "\<And>x u. m s = (Inr x, u) \<Longrightarrow> sends_only good u (n x)"
  shows "sends_only good s (py_bind m n)"
proof -
  obtain r u where m: "m s = (r, u)" by fastforce
  then have t: "trace u = trace s" using assms(1)[of s] by simp
  show ?thesis
  proof (cases r)
    case (Inl e)
    with m t show ?thesis
      by (auto simp: sends_only_def py_bind_run intro!: exI[of _ "[]"])
  next
    case (Inr x)
    with assms(2) m have "sends_only good u (n x)" by simp
    with m t Inr show ?thesis by (simp add: sends_only_def py_bind_run)
  qed
qed

lemma outbound_headers_trace [simp]: "trace (snd (outbound_headers ob t base rpc s)) = trace s"
  by (simp add: outbound_headers_def split: prod.splits)

lemma publish_sends_only:
  assumes "distinct (map fst (extra_headers ob))"
  shows "sends_only
    (\<lambda>e. \<exists>body h. e = MPublish event_type body h \<and> dumps obj = Inr body \<and>
       faithful_headers ob t (event_own_headers s ob event_type reply_to session_id) h s)
    s (publish event_type obj reply_to ob session_id t)"
  unfolding publish_def
proof (rule sends_only_then[OF emits_ensure], rule sends_only_then)
  fix x u y v
  assume "ensure_amqp s = (Inr x, u)" and val: "py_lift (validate_extra_headers (extra_headers ob)) u = (Inr y, v)"
  then have own: "fst (ms_own v) = fst (ms_own s)"
    using keepsD[OF keeps_own_ensure, of s] by (simp add: py_lift_run)
  have valid: "validate_extra_headers (extra_headers ob) = Inr ()" using val by (simp add: py_lift_run)
  let ?own = "event_own_headers s ob event_type reply_to session_id"
  have base: "dunion (dunion (get_service_headers v (ob_now ob))
        (event_headers_of event_type reply_to session_id)) (extra_headers ob) = dunion ?own (extra_headers ob)"
    by (simp add: own_headers_union ms_own_eq(1)[OF own, symmetric] event_own_headers_def)
  show "sends_only (\<lambda>e. \<exists>body h. e = MPublish event_type body h \<and> dumps obj = Inr body \<and>
       faithful_headers ob t ?own h s) v
     (py_bind (py_read (\<lambda>s. dunion (dunion (get_service_headers s (ob_now ob))
         (event_headers_of event_type reply_to session_id)) (extra_headers ob)))
       (\<lambda>base. py_bind (outbound_headers ob t base VNone)
          (\<lambda>headers. py_bind (py_lift (dumps obj))
             (\<lambda>body. with_reconnect (MPublish event_type body headers)))))"
  proof (rule sends_only_bind, simp add: py_read_run, rule sends_only_bind, simp,
      rule sends_only_bind, simp add: py_lift_run, rule sends_only_with_reconnect)
    fix base w headers z body a
    assume "py_read (\<lambda>s. dunion (dunion (get_service_headers s (ob_now ob))
         (event_headers_of event_type reply_to session_id)) (extra_headers ob)) v = (Inr base, w)"
      and run: "outbound_headers ob t base VNone w = (Inr headers, z)"
      and body: "py_lift (dumps obj) z = (Inr body, a)"
    then have "w = v" "base = dunion ?own (extra_headers ob)" by (simp_all add: py_read_run base)
    with faithful[OF valid assms own_headers_keys(1,2)[of s ob event_type reply_to session_id],
        of t VNone v] run ms_own_eq(3)[OF own] body
    show "\<exists>body' h. MPublish event_type body headers = MPublish event_type body' h \<and>
        dumps obj = Inr body' \<and> faithful_headers ob t ?own h s"
      by (auto simp: py_lift_run)
  qed
qed (auto intro: emits_rules)



definition demo_messenger :: "reply list \<Rightarrow> messenger" where
  "demo_messenger answers = (messenger_new answers True ''shop'' ''i1'')\<lparr>ms_started := True, ms_connection := True\<rparr>"

definition demo_outbound :: outbound where
  "demo_outbound = \<lparr>ob_extra_headers = Some [(''tenant'', VStr ''t1'')], ob_flow_id = VNone,
     ob_fresh_flow = ''f1'', ob_fresh_hop = ''h1'', ob_now = ''now''\<rparr>"


lemma keeps_ident_register: "fst (ms_own (snd (register_call cid m s))) = fst (ms_own s)"
  by (simp add: register_call_def py_modify_run ms_own_def)




section \<open>Calls and replies interleaved\<close>

datatype ms_event =
    BeginCall string string "pyval list" pydict outbound pyval "string option" string nat
  | GotReply pyval "exn + json"
  | EndCall constructors string string
  | PublishEvt string pyval pyval outbound pyval nat

fun ms_step :: "messenger \<Rightarrow> ms_event \<Rightarrow> messenger" where
  "ms_step s (BeginCall service_name method_name args kwargs ob instance_id response_model cid t) =
     snd (call_begin service_name method_name args kwargs ob instance_id response_model cid t s)"
| "ms_step s (GotReply correlation_id body) = snd (on_response correlation_id body s)"
| "ms_step s (EndCall build method_name cid) = snd (call_end build method_name cid s)"
| "ms_step s (PublishEvt event_type obj reply_to ob session_id t) =
     snd (publish event_type obj reply_to ob session_id t s)"

text \<open>The part of the state that calls are matched in.\<close>

definition ms_calls :: "messenger \<Rightarrow> string list \<times> (string \<Rightarrow> future) \<times> (string \<times> string option) list" where
  "ms_calls s = (ms_futures s, ms_future s, ms_response_models s)"

lemma ms_calls_own: "ms_calls s = snd (ms_own s)"
  by (simp add: ms_calls_def ms_own_def)

lemma keeps_calls: "keeps ms_own m \<Longrightarrow> keeps ms_calls m"
  by (simp add: keeps_def ms_calls_own)

lemma keeps_calls_outbound: "keeps ms_calls (outbound_headers ob t base rpc)"
  by (auto simp: keeps_def outbound_headers_def ms_calls_def split: prod.splits)

lemma keeps_calls_publish: "keeps ms_calls (publish ev obj rt ob sid t)"
  unfolding publish_def
  by (intro keeps_then keeps_bind keeps_lift keeps_read keeps_calls_outbound
      keeps_calls[OF keeps_own_ensure] keeps_calls[OF keeps_own_with_reconnect])

definition outcome :: "exn + json \<Rightarrow> future" where
  "outcome body = (case (case body of Inl e \<Rightarrow> Inl e | Inr j \<Rightarrow> loads j) of Inl e \<Rightarrow> Failed e | Inr v \<Rightarrow> Resolved v)"

lemma on_response_calls:
  "ms_calls (snd (on_response correlation_id body s)) =
     (case correlation_id of
        VStr cid \<Rightarrow> if cid \<in> set (ms_futures s)
          then (removeAll cid (ms_futures s),
             if ms_future s cid = Pending then (ms_future s)(cid := outcome body) else ms_future s,
             ms_response_models s)
          else ms_calls s
      | _ \<Rightarrow> ms_calls s)"
proof -
  have io: "ms_calls (snd (io e u)) = ms_calls u" for e u
    by (cases rule: io_cases[of e u]) (auto simp: ms_calls_def)
  have proc: "ms_calls (snd (process_message MDone False m s)) = ms_calls (snd (m s))" for m :: "(messenger, unit) py"
  proof -
    obtain r u where m: "m s = (r, u)" by fastforce
    let ?e = "MDone False (case r of Inl e \<Rightarrow> Some e | Inr _ \<Rightarrow> None)"
    have "snd (process_message MDone False m s) = snd (io ?e u)"
      using m by (simp add: process_message_run split: prod.splits sum.splits)
    with io m show ?thesis by simp
  qed
  show ?thesis
    unfolding on_response_def proc
    by (auto simp: ms_calls_def outcome_def Let_def split: pyval.split)
qed

lemma call_begin_calls:
  "ms_calls (snd (call_begin sn mn args kwargs ob iid model cid t s)) \<in>
     {ms_calls s, (List.insert cid (ms_futures s), (ms_future s)(cid := Pending),
        dset cid model (ms_response_models s))}"
proof -
  obtain r u where ens: "ensure_amqp s = (r, u)" by fastforce
  have u: "ms_calls u = ms_calls s" using keepsD[OF keeps_calls[OF keeps_own_ensure], of s] ens by simp
  show ?thesis
  proof (cases r)
    case (Inl e)
    with ens u show ?thesis by (simp add: call_begin_def py_then_run)
  next
    case (Inr x)
    show ?thesis
    proof (cases "require_instance_id iid")
      case (Inl e)
      with ens Inr u show ?thesis by (simp add: call_begin_def py_then_run py_bind_run py_lift_run)
    next
      case (Inr i)
      let ?rest = "py_then (py_lift (validate_extra_headers (extra_headers ob)))
        (py_bind (py_read (\<lambda>s. dunion (dunion (get_service_headers s (ob_now ob))
                 [(''remote_method'', VStr mn)]) (extra_headers ob))) (\<lambda>base.
         py_bind (outbound_headers ob t base (VStr sn)) (\<lambda>headers.
         py_bind (py_lift (dumps (VDict [(''args'', VTuple args), (''kwargs'', VDict kwargs)]))) (\<lambda>body.
           with_reconnect (MRequest (request_key sn mn i) body cid headers)))))"
      have k: "keeps ms_calls ?rest"
        by (intro keeps_then keeps_bind keeps_lift keeps_read keeps_calls_outbound
            keeps_calls[OF keeps_own_with_reconnect])
      have "snd (call_begin sn mn args kwargs ob iid model cid t s) =
          snd (?rest (snd (register_call cid model u)))"
        using ens \<open>r = Inr x\<close> Inr
        by (simp add: call_begin_def py_then_run py_bind_run py_lift_run register_call_def py_modify_run)
      then have "ms_calls (snd (call_begin sn mn args kwargs ob iid model cid t s)) =
          ms_calls (snd (register_call cid model u))" by (simp only: keepsD[OF k])
      with u show ?thesis by (simp add: register_call_def py_modify_run ms_calls_def)
    qed
  qed
qed

lemma call_end_calls:
  "ms_calls (snd (call_end build mn cid s)) =
     (case ms_future s cid of
        Pending \<Rightarrow> (removeAll cid (ms_futures s), (ms_future s)(cid := Cancelled), dpop cid (ms_response_models s))
      | Resolved v \<Rightarrow> (ms_futures s, ms_future s, dpop cid (ms_response_models s))
      | Failed e \<Rightarrow> if e = TimeoutError
          then (removeAll cid (ms_futures s), ms_future s, dpop cid (ms_response_models s)) else ms_calls s
      | Cancelled \<Rightarrow> ms_calls s)"
  by (auto simp: call_end_def py_bind_run py_try_run wait_for_def forget_call_def py_then_run py_modify_run
      py_raise_run pop_response_model_def py_lift_run ms_calls_def split: future.splits)

fun concerns :: "string \<Rightarrow> ms_event \<Rightarrow> bool" where
  "concerns cid (BeginCall sn mn args kwargs ob iid model c t) = (c = cid)"
| "concerns cid (EndCall build mn c) = (c = cid)"
| "concerns cid ev = False"

fun first_reply :: "string \<Rightarrow> ms_event list \<Rightarrow> (exn + json) option" where
  "first_reply cid [] = None"
| "first_reply cid (GotReply c body # evs) = (if c = VStr cid then Some body else first_reply cid evs)"
| "first_reply cid (ev # evs) = first_reply cid evs"

lemma ms_step_other:
  assumes "\<not> concerns cid ev" "\<And>body. ev \<noteq> GotReply (VStr cid) body"
  shows "ms_future (ms_step s ev) cid = ms_future s cid"
    "cid \<in> set (ms_futures (ms_step s ev)) \<longleftrightarrow> cid \<in> set (ms_futures s)"
proof -
  have "ms_future (ms_step s ev) cid = ms_future s cid \<and>
      (cid \<in> set (ms_futures (ms_step s ev)) \<longleftrightarrow> cid \<in> set (ms_futures s))"
  proof (cases ev)
    case (BeginCall sn mn args kwargs ob iid model c t)
    with assms(1) call_begin_calls[of sn mn args kwargs ob iid model c t s] show ?thesis
      by (auto simp: ms_calls_def)
  next
    case (GotReply c body)
    with assms(2)[of body] on_response_calls[of c body s] show ?thesis
      by (auto simp: ms_calls_def split: pyval.splits if_splits)
  next
    case (EndCall build mn c)
    with assms(1) call_end_calls[of build mn c s] show ?thesis
      by (auto simp: ms_calls_def split: future.splits if_splits)
  next
    case (PublishEvt ev' obj rt ob sid t)
    with keepsD[OF keeps_calls_publish, of ev' obj rt ob sid t s] show ?thesis by (simp add: ms_calls_def)
  qed
  then show "ms_future (ms_step s ev) cid = ms_future s cid"
    "cid \<in> set (ms_futures (ms_step s ev)) \<longleftrightarrow> cid \<in> set (ms_futures s)" by blast+
qed

lemma answered_stays:
  assumes "list_all (\<lambda>ev. \<not> concerns cid ev) evs" "cid \<notin> set (ms_futures s)"
  shows "ms_future (run_events ms_step s evs) cid = ms_future s cid"
  using assms
proof (induction evs arbitrary: s)
  case (Cons ev evs)
  show ?case
  proof (cases "\<exists>body. ev = GotReply (VStr cid) body")
    case True
    then obtain body where ev: "ev = GotReply (VStr cid) body" by blast
    with Cons.prems(2) on_response_calls[of "VStr cid" body s] have "ms_calls (ms_step s ev) = ms_calls s" by simp
    with Cons show ?thesis by (simp add: ms_calls_def)
  next
    case False
    with Cons ms_step_other[of cid ev s] show ?thesis by simp
  qed
qed simp

lemma pending_until_first_reply:
  assumes "list_all (\<lambda>ev. \<not> concerns cid ev) evs" "cid \<in> set (ms_futures s)" "ms_future s cid = Pending"
  shows "ms_future (run_events ms_step s evs) cid =
    (case first_reply cid evs of None \<Rightarrow> Pending | Some body \<Rightarrow> outcome body)"
  using assms
proof (induction evs arbitrary: s)
  case (Cons ev evs)
  show ?case
  proof (cases "\<exists>body. ev = GotReply (VStr cid) body")
    case True
    then obtain body where ev: "ev = GotReply (VStr cid) body" by blast
    have "ms_futures (ms_step s ev) = removeAll cid (ms_futures s)"
      "ms_future (ms_step s ev) cid = outcome body"
      using Cons.prems(2,3) on_response_calls[of "VStr cid" body s] ev by (simp_all add: ms_calls_def)
    with answered_stays[of cid evs "ms_step s ev"] Cons.prems(1) ev show ?thesis by simp
  next
    case False
    then have "first_reply cid (ev # evs) = first_reply cid evs"
      by (cases ev) auto
    with Cons False ms_step_other[of cid ev s] show ?thesis by simp
  qed
qed simp


lemma ms_step_models:
  assumes "\<not> concerns cid ev"
  shows "dget (ms_response_models (ms_step s ev)) cid = dget (ms_response_models s) cid"
proof (cases ev)
  case (BeginCall sn mn args kwargs ob iid model c t)
  with assms call_begin_calls[of sn mn args kwargs ob iid model c t s] show ?thesis
    by (auto simp: ms_calls_def dict_simps)
next
  case (GotReply c body)
  with on_response_calls[of c body s] show ?thesis
    by (auto simp: ms_calls_def split: pyval.splits if_splits)
next
  case (EndCall build mn c)
  with assms call_end_calls[of build mn c s] show ?thesis
    by (auto simp: ms_calls_def dict_simps split: future.splits if_splits)
next
  case (PublishEvt ev' obj rt ob sid t)
  with keepsD[OF keeps_calls_publish, of ev' obj rt ob sid t s] show ?thesis by (simp add: ms_calls_def)
qed

lemma run_models:
  "list_all (\<lambda>ev. \<not> concerns cid ev) evs \<Longrightarrow>
     dget (ms_response_models (run_events ms_step s evs)) cid = dget (ms_response_models s) cid"
  by (induction evs arbitrary: s) (simp_all add: ms_step_models)

definition response_model_of :: "messenger \<Rightarrow> string \<Rightarrow> string option" where
  "response_model_of s cid = (case dget (ms_response_models s) cid of None \<Rightarrow> None | Some m \<Rightarrow> m)"

text \<open>What the caller of a method is told for the outcome of its future.\<close>

definition call_result :: "constructors \<Rightarrow> string \<Rightarrow> string option \<Rightarrow> future \<Rightarrow> exn + pyval" where
  "call_result build method_name response_model f =
     (case f of
        Resolved response \<Rightarrow> interpret_response build method_name response_model response
      | Failed e \<Rightarrow> Inl (if e = TimeoutError then RpcTimeoutError method_name else e)
      | Pending \<Rightarrow> Inl (RpcTimeoutError method_name)
      | Cancelled \<Rightarrow> Inl CancelledError)"

lemma call_end_result:
  "fst (call_end build method_name cid s) =
     call_result build method_name (response_model_of s cid) (ms_future s cid)"
  by (auto simp: call_end_def py_bind_run py_try_run wait_for_def forget_call_def py_then_run
      py_modify_run py_raise_run pop_response_model_def py_lift_run response_model_of_def call_result_def
      split: future.split)

lemma call_end_after:
  assumes "cid \<in> set (ms_futures s)" "ms_future s cid = Pending"
    and "list_all (\<lambda>ev. \<not> concerns cid ev) evs"
  shows "fst (call_end build method_name cid (run_events ms_step s evs)) =
    call_result build method_name (response_model_of s cid)
      (case first_reply cid evs of None \<Rightarrow> Pending | Some body \<Rightarrow> outcome body)"
  using run_models[OF assms(3)] pending_until_first_reply[OF assms(3,1,2)]
  by (simp add: call_end_result response_model_of_def)

lemma answered_not_registered:
  assumes "list_all (\<lambda>ev. \<not> concerns cid ev) evs" "cid \<notin> set (ms_futures s)"
  shows "cid \<notin> set (ms_futures (run_events ms_step s evs))"
  using assms
proof (induction evs arbitrary: s)
  case (Cons ev evs)
  have "cid \<notin> set (ms_futures (ms_step s ev))"
  proof (cases "\<exists>body. ev = GotReply (VStr cid) body")
    case True
    then obtain body where ev: "ev = GotReply (VStr cid) body" by blast
    with Cons.prems(2) on_response_calls[of "VStr cid" body s] show ?thesis by (simp add: ms_calls_def)
  next
    case False
    with Cons.prems ms_step_other(2)[of cid ev s] show ?thesis by simp
  qed
  with Cons show ?case by simp
qed simp

lemma reply_unregisters:
  assumes "list_all (\<lambda>ev. \<not> concerns cid ev) evs" "first_reply cid evs \<noteq> None"
  shows "cid \<notin> set (ms_futures (run_events ms_step s evs))"
  using assms
proof (induction evs arbitrary: s)
  case (Cons ev evs)
  show ?case
  proof (cases "\<exists>body. ev = GotReply (VStr cid) body")
    case True
    then obtain body where ev: "ev = GotReply (VStr cid) body" by blast
    have "cid \<notin> set (ms_futures (ms_step s ev))"
      using on_response_calls[of "VStr cid" body s] ev by (auto simp: ms_calls_def split: if_splits)
    with answered_not_registered[of cid evs "ms_step s ev"] Cons.prems(1) show ?thesis by simp
  next
    case False
    then have "first_reply cid (ev # evs) = first_reply cid evs" by (cases ev) auto
    with Cons show ?thesis by simp
  qed
qed simp

text \<open>
  C25: Calls do not get each other's answers. Whatever else the messenger does while a call waits
  (other calls, their replies and ends, published events, unknown and repeated replies, in any order),
  the call ends with the first reply that carries its own correlation id, interpreted under its own
  response model, or with a timeout when there was none; and then no future is left registered for it.
\<close>

theorem call_ends_with_its_first_reply:
  assumes "cid \<in> set (ms_futures s)" "ms_future s cid = Pending"
    and "list_all (\<lambda>ev. \<not> concerns cid ev) evs"
  shows "fst (call_end build method_name cid (run_events ms_step s evs)) =
      (case first_reply cid evs of
         None \<Rightarrow> Inl (RpcTimeoutError method_name)
       | Some body \<Rightarrow>
           (case outcome body of
              Resolved response \<Rightarrow>
                interpret_response build method_name (response_model_of s cid) response
            | Failed e \<Rightarrow> Inl (if e = TimeoutError then RpcTimeoutError method_name else e)
            | _ \<Rightarrow> Inl CancelledError)) \<and>
    cid \<notin> set (ms_futures (snd (call_end build method_name cid (run_events ms_step s evs))))"
proof
  show "fst (call_end build method_name cid (run_events ms_step s evs)) =
      (case first_reply cid evs of
         None \<Rightarrow> Inl (RpcTimeoutError method_name)
       | Some body \<Rightarrow>
           (case outcome body of
              Resolved response \<Rightarrow>
                interpret_response build method_name (response_model_of s cid) response
            | Failed e \<Rightarrow> Inl (if e = TimeoutError then RpcTimeoutError method_name else e)
            | _ \<Rightarrow> Inl CancelledError))"
    unfolding call_end_after[OF assms]
    by (auto simp: call_result_def outcome_def split: option.split sum.split)
  let ?t = "run_events ms_step s evs"
  have "ms_future ?t cid = Pending \<or> cid \<notin> set (ms_futures ?t)"
    using pending_until_first_reply[OF assms(3,1,2)] reply_unregisters[OF assms(3)]
    by (cases "first_reply cid evs") auto
  then show "cid \<notin> set (ms_futures (snd (call_end build method_name cid ?t)))"
    using call_end_calls[of build method_name cid ?t]
    by (auto simp: ms_calls_def split: future.splits if_splits)
qed

definition demo_waiting :: messenger where
  "demo_waiting = (demo_messenger [])\<lparr>ms_futures := [''c1'', ''c2''], ms_future := (\<lambda>_. Pending)\<rparr>"

theorem call_ends_with_its_first_reply_witness:
  "fst (call_end (\<lambda>_ d. Inr (VDict d)) ''total'' ''c1'' (run_events ms_step demo_waiting
     [GotReply (VStr ''c2'') (Inr (JInt 1)), GotReply (VStr ''c1'') (Inr (JInt 2)),
      GotReply (VStr ''c1'') (Inr (JInt 3))])) = Inr (VInt 2)"
  using call_ends_with_its_first_reply[of "''c1''" demo_waiting
      "[GotReply (VStr ''c2'') (Inr (JInt 1)), GotReply (VStr ''c1'') (Inr (JInt 2)),
        GotReply (VStr ''c1'') (Inr (JInt 3))]" "\<lambda>_ d. Inr (VDict d)" "''total''"]
  by (simp add: demo_waiting_def outcome_def loads_def interpret_response_def)

text \<open>
  A call that fails before it waits (a reserved header, a body that cannot be encoded, a failed
  publish) has already registered its future, and nothing removes it; a reply that cannot be decoded
  leaves the response model behind.
\<close>

lemma refused_call_stays_registered:
  assumes "ms_started s" "validate_extra_headers (extra_headers ob) = Inl e"
  shows "fst (call_begin sn mn args kwargs ob VNone model cid t s) = Inl e \<and>
    cid \<in> set (ms_futures (snd (call_begin sn mn args kwargs ob VNone model cid t s))) \<and>
    dget (ms_response_models (snd (call_begin sn mn args kwargs ob VNone model cid t s))) cid = Some model"
  using assms
  by (simp add: call_begin_def ensure_amqp_def require_amqp_def py_then_run py_if_run py_return_run
      py_bind_run py_lift_run register_call_def py_modify_run)

lemma undecodable_reply_keeps_model:
  assumes "ms_future s cid = Failed e" "e \<noteq> TimeoutError"
  shows "ms_response_models (snd (call_end build mn cid s)) = ms_response_models s"
  using call_end_calls[of build mn cid s] assms by (simp add: ms_calls_def)

section \<open>Connection\<close>

text \<open>
  The flags of the connection between operations: no reconnection is under way, a started messenger
  holds a connection and needs none, and one that has been started, and not stopped since, is
  started or knows that it must reconnect.
\<close>

definition conn_base :: "messenger \<Rightarrow> bool" where
  "conn_base s \<longleftrightarrow> (ms_started s \<longrightarrow> ms_connection s \<and> \<not> ms_needs_reconnect s) \<and>
     (ms_started s \<or> ms_needs_reconnect s)"

definition conn_ok :: "messenger \<Rightarrow> bool" where
  "conn_ok s \<longleftrightarrow> \<not> ms_reconnecting s \<and> conn_base s"

definition ms_flags :: "messenger \<Rightarrow> bool \<times> bool \<times> bool \<times> bool" where
  "ms_flags s = (ms_reconnecting s, ms_started s, ms_connection s, ms_needs_reconnect s)"

lemma keeps_flags_mcall [keeps_rules]: "keeps ms_flags (mcall e)"
  unfolding mcall_def by (auto intro!: keeps_rules simp: ms_flags_def)

lemma flags_base: "keeps ms_flags m \<Longrightarrow> preserves conn_base m" "keeps ms_flags m \<Longrightarrow> preserves conn_ok m"
  by (auto simp: keeps_def preserves_def conn_base_def conn_ok_def ms_flags_def)

lemma mcall_ok [preserves_rules]: "preserves conn_base (mcall e)" "preserves conn_ok (mcall e)"
  by (simp_all add: flags_base keeps_flags_mcall)

text \<open>Connecting sets the connection when it succeeds; until then only the connection may change.\<close>

lemma messenger_connect_flags:
  obtains (failed) e where "fst (messenger_connect config s) = Inl e"
      "ms_flags (snd (messenger_connect config s)) \<in> {ms_flags s, ms_flags (s\<lparr>ms_connection := True\<rparr>)}"
  | (connected) "fst (messenger_connect config s) = Inr ()"
      "ms_flags (snd (messenger_connect config s)) = ms_flags (s\<lparr>ms_connection := True\<rparr>)"
proof -
  let ?rest = "py_then (mcall MOpenChannel)
     (py_bind (py_read ms_event_exchange) (\<lambda>exchange.
     py_then (mcall (MDeclareExchange exchange))
     (py_then (mcall (MDeclareExchange RPC_EXCHANGE))
     (py_then (mcall MDeclareCallback)
     (py_then (mcall MConsumeCallback)
     (py_bind (py_lift (get_rpc_timeout config)) (\<lambda>timeout.
        py_modify (\<lambda>s. s\<lparr>ms_rpc_timeout := timeout\<rparr>))))))))"
  have keeps: "keeps ms_flags ?rest" by (auto intro!: keeps_rules simp: ms_flags_def)
  have final: "thesis" if "messenger_connect config s = ?rest (u\<lparr>ms_connection := True\<rparr>)" "ms_flags u = ms_flags s" for u
  proof -
    have flags: "ms_flags (snd (messenger_connect config s)) = ms_flags (s\<lparr>ms_connection := True\<rparr>)"
      using that keepsD[OF keeps, of "u\<lparr>ms_connection := True\<rparr>"] by (simp add: ms_flags_def)
    show ?thesis
    proof (cases "fst (messenger_connect config s)")
      case (Inl e)
      with failed flags show ?thesis by blast
    next
      case (Inr x)
      with connected flags show ?thesis by simp
    qed
  qed
  have stop: "thesis" if "messenger_connect config s = (Inl e, u)" "ms_flags u = ms_flags s" for e u
    using that failed[of e] by simp
  show ?thesis
  proof (cases "get_amqp_url config (ms_amqp_url s)")
    case (Inl e)
    with stop[of e s] show ?thesis by (simp add: messenger_connect_def py_bind_run py_read_run py_lift_run)
  next
    case url: (Inr url)
    show ?thesis
    proof (cases "create_tls_context config")
      case (Inl e)
      with url stop[of e s] show ?thesis
        by (simp add: messenger_connect_def py_bind_run py_read_run py_lift_run)
    next
      case tls: (Inr tls)
      show ?thesis
      proof (cases "fail_fast s")
        case (Inl e)
        with url tls stop[of e s] show ?thesis
          by (simp add: messenger_connect_def py_bind_run py_read_run py_lift_run)
      next
        case (Inr ff)
        have io: "ms_flags (snd (mcall (MConnect url tls ff) s)) = ms_flags s"
          by (rule keepsD[OF keeps_flags_mcall])
        obtain q u where c: "mcall (MConnect url tls ff) s = (q, u)" by fastforce
        with url tls Inr stop[of _ u] final[of u] io show ?thesis
          by (cases q) (simp_all add: messenger_connect_def py_bind_run py_read_run py_lift_run
              py_then_run[where m = "mcall (MConnect url tls ff)"]
              py_then_run[where m = "py_modify f" for f] py_modify_run)
      qed
    qed
  qed
qed

lemma setup_base: "preserves conn_base messenger_setup"
proof (rule preservesI)
  fix s
  assume inv: "conn_base s"
  let ?c = "\<lambda>s. if ms_standalone s then messenger_connect (standalone_config (ms_amqp_url s)) s
                else if ms_container s then messenger_connect (ms_config s) s
                else py_raise (AttributeError ''config'') s"
  obtain r u where c: "?c s = (r, u)" by fastforce
  have flags: "(\<exists>e. r = Inl e \<and> ms_flags u \<in> {ms_flags s, ms_flags (s\<lparr>ms_connection := True\<rparr>)}) \<or>
      (r = Inr () \<and> ms_flags u = ms_flags (s\<lparr>ms_connection := True\<rparr>))"
  proof (cases "ms_standalone s \<or> ms_container s")
    case True
    then obtain config where "messenger_connect config s = (r, u)" using c by (auto split: if_splits)
    with messenger_connect_flags[of config s] show ?thesis by (metis fst_conv snd_conv)
  next
    case False
    with c show ?thesis by (auto simp: py_raise_run)
  qed
  show "conn_base (snd (messenger_setup s))"
  proof (cases "ms_started s")
    case True
    with inv show ?thesis by (simp add: messenger_setup_def py_if_run py_return_run)
  next
    case False
    then have run: "messenger_setup s = (case r of Inl e \<Rightarrow> (Inl e, u)
        | Inr _ \<Rightarrow> (Inr (), u\<lparr>ms_started := True, ms_needs_reconnect := False\<rparr>))"
      using c by (simp add: messenger_setup_def py_if_run py_then_run py_modify_run split: sum.split)
    from flags run inv False show ?thesis by (auto simp: conn_base_def ms_flags_def)
  qed
qed

lemma reconnect_ok: "preserves conn_ok reconnect"
proof (rule preservesI)
  fix s
  assume inv: "conn_ok s"
  let ?body = "py_then (py_when ms_connection (mcall MClose))
                   (py_then (py_modify (\<lambda>s. s\<lparr>ms_connection := False, ms_started := False,
                        ms_needs_reconnect := True\<rparr>))
                      messenger_setup)"
  have body: "preserves conn_base ?body"
    by (auto intro!: preserves_rules setup_base simp: conn_base_def)
  show "conn_ok (snd (reconnect s))"
  proof (cases "shutdown_in_progress s \<or> ms_reconnecting s")
    case True
    with inv show ?thesis by (auto simp: reconnect_def py_if_run py_return_run)
  next
    case False
    have fin: "py_finally ?body (py_modify (\<lambda>s. s\<lparr>ms_reconnecting := False\<rparr>)) u =
        (fst (?body u), (snd (?body u))\<lparr>ms_reconnecting := False\<rparr>)" for u
      by (rule py_finally_outcome) (simp add: py_modify_run)
    have "conn_base (s\<lparr>ms_reconnecting := True\<rparr>)" using inv by (simp add: conn_ok_def conn_base_def)
    from preservesD[OF body this] False show ?thesis
      by (simp add: reconnect_def py_if_run py_then_run[where m = "py_modify f" for f] py_modify_run fin
          conn_ok_def conn_base_def)
  qed
qed

lemma ensure_ok: "preserves conn_ok ensure_amqp"
  unfolding ensure_amqp_def require_amqp_def by (intro preserves_rules reconnect_ok)

lemma with_reconnect_ok: "preserves conn_ok (with_reconnect e)"
  unfolding with_reconnect_def
  by (auto intro!: preserves_rules reconnect_ok split: if_splits)

lemma outbound_ok: "preserves conn_ok (outbound_headers ob t base rpc)"
  by (auto simp: preserves_def outbound_headers_def conn_ok_def conn_base_def split: prod.splits)

lemma ms_step_ok:
  assumes "conn_ok s"
  shows "conn_ok (ms_step s ev)"
proof (cases ev)
  case (BeginCall sn mn args kwargs ob iid model cid t)
  have "preserves conn_ok (call_begin sn mn args kwargs ob iid model cid t)"
    unfolding call_begin_def register_call_def
    by (intro preserves_rules ensure_ok with_reconnect_ok outbound_ok) (simp add: conn_ok_def conn_base_def)
  with BeginCall assms show ?thesis by (simp add: preservesD)
next
  case (GotReply c body)
  have "preserves conn_ok (on_response c body)"
    unfolding on_response_def
  proof (rule preserves_process)
    show "preserves conn_ok (io e :: (messenger, pyval) py)" for e
      by (rule flags_base) (auto intro!: keeps_rules simp: ms_flags_def)
  qed (auto simp: preserves_def conn_ok_def conn_base_def Let_def split: pyval.splits)
  with GotReply assms show ?thesis by (simp add: preservesD)
next
  case (EndCall build mn cid)
  have "ms_flags (snd (call_end build mn cid s)) = ms_flags s"
    by (auto simp: call_end_def py_bind_run py_try_run wait_for_def forget_call_def py_then_run
        py_modify_run py_raise_run pop_response_model_def py_lift_run ms_flags_def split: future.splits)
  with EndCall assms show ?thesis by (simp add: ms_flags_def conn_ok_def conn_base_def)
next
  case (PublishEvt ev' obj rt ob sid t)
  have "preserves conn_ok (publish ev' obj rt ob sid t)"
    unfolding publish_def by (intro preserves_rules ensure_ok with_reconnect_ok outbound_ok)
  with PublishEvt assms show ?thesis by (simp add: preservesD)
qed

interpretation ms_conn: invariant_system ms_step conn_ok
  by unfold_locales (rule ms_step_ok)


text \<open>A messenger whose configuration can be read, with a broker that answers from now on.\<close>

definition setup_config :: "messenger \<Rightarrow> pyval" where
  "setup_config s = (if ms_standalone s then standalone_config (ms_amqp_url s) else ms_config s)"

definition broker_back :: "messenger \<Rightarrow> bool" where
  "broker_back s \<longleftrightarrow> no_failure s \<and> (ms_standalone s \<or> ms_container s) \<and>
     (\<exists>v. get_amqp_url (setup_config s) (ms_amqp_url s) = Inr v) \<and>
     (\<exists>v. create_tls_context (setup_config s) = Inr v) \<and> (\<exists>v. fail_fast s = Inr v) \<and>
     (\<exists>v. get_rpc_timeout (setup_config s) = Inr v)"

definition succeeds :: "messenger \<Rightarrow> (messenger, 'a) py \<Rightarrow> bool" where
  "succeeds s m \<longleftrightarrow> (\<exists>x t. m s = (Inr x, t) \<and> broker_back t \<and> setup_config t = setup_config s)"

lemma succeeds_bind:
  assumes "succeeds s m"
    and "\<And>x t. m s = (Inr x, t) \<Longrightarrow> broker_back t \<Longrightarrow> setup_config t = setup_config s \<Longrightarrow> succeeds t (n x)"
  shows "succeeds s (py_bind m n)"
  using assms by (fastforce simp: succeeds_def py_bind_run)

lemma succeeds_then:
  assumes "succeeds s m"
    and "\<And>t. broker_back t \<Longrightarrow> setup_config t = setup_config s \<Longrightarrow> succeeds t n"
  shows "succeeds s (py_then m n)"
  unfolding py_then_def by (rule succeeds_bind[OF assms(1)]) (rule assms(2))

lemma broker_back_upd:
  fixes s :: messenger
  shows "broker_back (s\<lparr>ms_connection := a\<rparr>) = broker_back s"
    "broker_back (s\<lparr>ms_started := b\<rparr>) = broker_back s"
    "broker_back (s\<lparr>ms_needs_reconnect := b\<rparr>) = broker_back s"
    "broker_back (s\<lparr>ms_reconnecting := b\<rparr>) = broker_back s"
    "broker_back (s\<lparr>ms_rpc_timeout := v\<rparr>) = broker_back s"
  by (simp_all add: broker_back_def no_failure_def setup_config_def fail_fast_def)

lemma setup_config_upd [simp]:
  fixes s :: messenger
  shows "setup_config (s\<lparr>ms_connection := a\<rparr>) = setup_config s"
    "setup_config (s\<lparr>ms_started := b\<rparr>) = setup_config s"
    "setup_config (s\<lparr>ms_needs_reconnect := b\<rparr>) = setup_config s"
    "setup_config (s\<lparr>ms_reconnecting := b\<rparr>) = setup_config s"
    "setup_config (s\<lparr>ms_rpc_timeout := v\<rparr>) = setup_config s"
  by (simp_all add: setup_config_def)

lemma succeeds_modify:
  "broker_back s \<Longrightarrow> (\<And>t. broker_back (f t) = broker_back t) \<Longrightarrow> (\<And>t. setup_config (f t) = setup_config t) \<Longrightarrow>
     succeeds s (py_modify f)"
  by (simp add: succeeds_def py_modify_run)

lemma succeeds_return: "broker_back s \<Longrightarrow> succeeds s (py_return x)"
  by (simp add: succeeds_def py_return_run)

lemma succeeds_mcall: "broker_back s \<Longrightarrow> succeeds s (mcall e)"
proof -
  assume b: "broker_back s"
  then have "\<forall>x. Raises x \<notin> set (script s)" by (simp add: broker_back_def no_failure_def)
  then obtain v r where "io e s = (Inr v, s\<lparr>script := r, trace := trace s @ [(e, True)]\<rparr>)"
    "set r \<subseteq> set (script s)" by (cases rule: io_cases[of e s]) auto
  with b show ?thesis
    by (auto simp: succeeds_def mcall_def py_then_run py_return_run broker_back_def no_failure_def
        setup_config_def fail_fast_def)
qed

lemma succeeds_read: "succeeds s (h (g s)) \<Longrightarrow> succeeds s (py_bind (py_read g) h)"
  by (simp add: succeeds_def py_bind_run py_read_run)

lemma succeeds_lift: "r = Inr y \<Longrightarrow> succeeds s (h y) \<Longrightarrow> succeeds s (py_bind (py_lift r) h)"
  by (simp add: succeeds_def py_bind_run py_lift_run)

lemma succeeds_connect:
  assumes "broker_back s" "config = setup_config s"
  shows "succeeds s (messenger_connect config)"
proof -
  obtain url where url: "get_amqp_url config (ms_amqp_url s) = Inr url" using assms by (auto simp: broker_back_def)
  obtain tls where tls: "create_tls_context config = Inr tls" using assms by (auto simp: broker_back_def)
  obtain ff where ff: "fail_fast s = Inr ff" using assms by (auto simp: broker_back_def)
  obtain to where to: "get_rpc_timeout config = Inr to" using assms by (auto simp: broker_back_def)
  have mod: "succeeds t (py_modify (\<lambda>s. s\<lparr>ms_connection := True\<rparr>))"
    "succeeds t (py_modify (\<lambda>s. s\<lparr>ms_rpc_timeout := to\<rparr>))" if "broker_back t" for t
    using that by (auto intro!: succeeds_modify simp: broker_back_upd)
  show ?thesis
    unfolding messenger_connect_def
    by (rule succeeds_read, rule succeeds_lift[OF url], rule succeeds_lift[OF tls], rule succeeds_read,
        rule succeeds_lift[OF ff])
      (intro succeeds_then succeeds_read succeeds_lift[OF to] succeeds_mcall mod assms(1) | assumption)+
qed

lemma succeeds_setup: "broker_back s \<Longrightarrow> succeeds s messenger_setup \<and> ms_started (snd (messenger_setup s))"
proof -
  assume b: "broker_back s"
  show ?thesis
  proof (cases "ms_started s")
    case True
    with b show ?thesis by (simp add: messenger_setup_def py_if_run py_return_run succeeds_def)
  next
    case False
    obtain x t where t: "messenger_connect (setup_config s) s = (Inr x, t)" "broker_back t"
      "setup_config t = setup_config s"
      using succeeds_connect[OF b refl] by (auto simp: succeeds_def)
    have "messenger_setup s = (Inr (), t\<lparr>ms_started := True, ms_needs_reconnect := False\<rparr>)"
      using False t(1) b
      by (auto simp: messenger_setup_def py_if_run py_then_run py_modify_run setup_config_def broker_back_def)
    with t(2,3) show ?thesis by (simp add: succeeds_def broker_back_upd)
  qed
qed

lemma succeeds_reconnect:
  assumes "broker_back s" "\<not> shutdown_in_progress s" "\<not> ms_reconnecting s"
  shows "fst (reconnect s) = Inr () \<and> ms_started (snd (reconnect s))"
proof -
  let ?u = "s\<lparr>ms_reconnecting := True\<rparr>"
  have "succeeds ?u (py_when ms_connection (mcall MClose))"
    using succeeds_mcall[of ?u MClose] succeeds_return[of ?u "()"] assms(1)
    by (simp add: succeeds_def py_if_run broker_back_upd)
  then obtain v where v: "(py_when ms_connection (mcall MClose)) ?u = (Inr (), v)" "broker_back v"
    by (auto simp: succeeds_def)
  let ?w = "v\<lparr>ms_connection := False, ms_started := False, ms_needs_reconnect := True\<rparr>"
  have "broker_back ?w" using v(2) by (simp add: broker_back_upd)
  from succeeds_setup[OF this] obtain x where x: "messenger_setup ?w = (Inr (), x)" "ms_started x"
    by (auto simp: succeeds_def)
  let ?body = "py_then (py_when ms_connection (mcall MClose))
                   (py_then (py_modify (\<lambda>s. s\<lparr>ms_connection := False, ms_started := False,
                        ms_needs_reconnect := True\<rparr>)) messenger_setup)"
  have "?body ?u = (Inr (), x)" using v(1) x(1) by (simp only: py_then_run py_modify_run prod.case sum.case)
  with assms(2,3) x(2) show ?thesis
    by (simp only: reconnect_def py_if_run if_False py_then_run[where m = "py_modify f" for f] py_modify_run
        prod.case sum.case py_finally_run) simp
qed

text \<open>
  C26: A messenger that has been started never gets stuck without a connection. After any sequence of
  publishes, calls, replies and ends, whatever failed on the way, no reconnection is left half done, a
  started messenger has its connection, and one that lost it knows: the next operation reconnects,
  and succeeds in it as soon as the broker answers (unless the service is shutting down).
\<close>

theorem messenger_never_stuck:
  assumes "conn_ok s"
  shows "conn_ok (run_events ms_step s evs) \<and>
    (broker_back (run_events ms_step s evs) \<and> \<not> shutdown_in_progress (run_events ms_step s evs) \<longrightarrow>
       fst (ensure_amqp (run_events ms_step s evs)) = Inr () \<and>
       ms_started (snd (ensure_amqp (run_events ms_step s evs))))"
proof -
  let ?t = "run_events ms_step s evs"
  have ok: "conn_ok ?t" by (rule ms_conn.run_inv[OF assms])
  moreover have "fst (ensure_amqp ?t) = Inr () \<and> ms_started (snd (ensure_amqp ?t))"
    if alive: "broker_back ?t" and up: "\<not> shutdown_in_progress ?t"
  proof (cases "ms_started ?t")
    case True
    then show ?thesis by (simp add: ensure_amqp_def require_amqp_def py_then_run py_if_run py_return_run)
  next
    case False
    with ok have flags: "ms_needs_reconnect ?t" "\<not> ms_reconnecting ?t"
      by (auto simp: conn_ok_def conn_base_def)
    obtain u where "reconnect ?t = (Inr (), u)" "ms_started u"
      using succeeds_reconnect[OF alive up flags(2)] by (metis prod.collapse)
    with False flags up show ?thesis
      by (simp add: ensure_amqp_def require_amqp_def py_then_run py_if_run py_return_run)
  qed
  ultimately show ?thesis by blast
qed

theorem messenger_never_stuck_witness:
  "conn_ok (run_events ms_step (demo_messenger [Raises ChannelInvalidStateError, Returns VNone,
       Raises (OtherError ''ConnectionError'' ''refused'')])
     [PublishEvt ''paid'' (VInt 7) VNone demo_outbound VNone 0])"
  by (rule messenger_never_stuck[THEN conjunct1])
    (simp add: demo_messenger_def messenger_new_def conn_ok_def conn_base_def)

section \<open>Standalone clients\<close>

text \<open>\<open>start\<close> is another name of \<open>setup\<close>; \<open>async with\<close> starts the messenger and stops it after the body.\<close>

definition messenger_start :: "(messenger, unit) py" where
  "messenger_start = messenger_setup"

definition with_messenger :: "(messenger, 'a) py \<Rightarrow> (messenger, 'a) py" where
  "with_messenger body = py_then messenger_start (py_finally body messenger_stop)"

lemma stop_disconnects: "fst (messenger_stop s) = Inr () \<Longrightarrow> \<not> ms_connection (snd (messenger_stop s))"
  by (auto simp: messenger_stop_def py_then_run py_modify_run split: prod.splits sum.splits)

text \<open>A client block that ends normally has closed its connection.\<close>

lemma client_block_disconnects:
  assumes "fst (with_messenger body s) = Inr x"
  shows "\<not> ms_connection (snd (with_messenger body s))"
proof -
  from assms obtain s1 r t where "messenger_start s = (Inr (), s1)" and body: "body s1 = (r, t)"
      and stop: "fst (messenger_stop t) = Inr ()"
      and run: "snd (with_messenger body s) = snd (messenger_stop t)"
    by (auto simp: with_messenger_def py_then_run py_finally_run split: prod.splits sum.splits)
  from stop_disconnects[OF stop] show ?thesis by (simp add: run)
qed

text \<open>A start that fails after the connection was made is not undone: the block is never entered.\<close>

lemma failed_start_keeps_the_connection:
  "let (r, t) = with_messenger (py_return ()) (messenger_new [Returns VNone, Raises ChannelInvalidStateError] True ''edge'' ''1'')
   in r = Inl ChannelInvalidStateError \<and> ms_connection t"
  by code_simp

end
