(* ===== verification/Remote_Calls.thy ===== *)
theory Remote_Calls
  imports Consumer_Setup Messenger
begin

text \<open>
  Proxies and sessions (\<open>messaging/publisher/rpc.py\<close>, \<open>messaging/publisher/session.py\<close>, and
  \<open>open_session\<close> of the messenger), and what client and server promise together: the result of a
  remote call is the outcome of the remote handler, and the events of a session reach the handlers
  of the instance that opened it.
\<close>

section \<open>Targets\<close>

text \<open>The service a peer name stands for, \<open>kontiki.peers.<peer>\<close> of the container's configuration.\<close>

definition peer_target :: "messenger \<Rightarrow> string \<Rightarrow> exn + string" where
  "peer_target s peer =
     (if \<not> ms_container s then
        Inl (RuntimeError ''peer requires a messenger bound to a service container'')
      else (case get_kontiki_parameter (ms_config s) (''peers.'' @ peer) VMissing of
         Inl e \<Rightarrow> Inl e
       | Inr v \<Rightarrow> (case v of
           VStr name \<Rightarrow>
             if name = [] then Inl (ValueError ''kontiki.peers: must be a non-empty string'') else Inr name
         | _ \<Rightarrow> Inl (ValueError ''kontiki.peers: must be a non-empty string''))))"

text \<open>A peer argument: \<open>None\<close>, or a non-empty string; anything else is refused.\<close>

definition checked_peer :: "pyval \<Rightarrow> exn + string option" where
  "checked_peer peer =
     (case peer of
        VNone \<Rightarrow> Inr None
      | VStr p \<Rightarrow> if p = [] then Inl (ValueError ''peer must be a non-empty string'') else Inr (Some p)
      | _ \<Rightarrow> Inl (ValueError ''peer must be a non-empty string''))"

section \<open>Proxies\<close>

record rpc_proxy =
  px_peer :: "string option"
  px_service_name :: "string option"
  px_instance_id :: pyval

definition rpc_proxy_new :: "string option \<Rightarrow> pyval \<Rightarrow> pyval \<Rightarrow> exn + rpc_proxy" where
  "rpc_proxy_new service_name peer instance_id =
     (if service_name \<noteq> None \<and> peer \<noteq> VNone then
        Inl (ValueError ''RpcProxy(): pass service_name or peer, not both'')
      else (case checked_peer peer of
         Inl e \<Rightarrow> Inl e
       | Inr p \<Rightarrow> (case require_instance_id instance_id of
           Inl e \<Rightarrow> Inl e
         | Inr iid \<Rightarrow> Inr \<lparr>px_peer = p, px_service_name = service_name, px_instance_id = iid\<rparr>)))"

definition proxy_bind :: "string \<Rightarrow> rpc_proxy \<Rightarrow> rpc_proxy" where
  "proxy_bind service_name px = px\<lparr>px_peer := None, px_service_name := Some service_name\<rparr>"

text \<open>A peer is looked up once; the proxy keeps the name it found.\<close>

definition resolve_service_name :: "messenger \<Rightarrow> rpc_proxy \<Rightarrow> (exn + string option) \<times> rpc_proxy" where
  "resolve_service_name s px =
     (case px_peer px of
        None \<Rightarrow> (Inr (px_service_name px), px)
      | Some peer \<Rightarrow>
          (case px_service_name px of
             Some name \<Rightarrow> (Inr (Some name), px)
           | None \<Rightarrow>
               (case peer_target s peer of
                  Inl e \<Rightarrow> (Inl e, px)
                | Inr name \<Rightarrow> (Inr (Some name), px\<lparr>px_service_name := Some name\<rparr>))))"

text \<open>Reading a method off the proxy resolves the service; calling it begins a remote call.\<close>

definition proxy_getattr :: "messenger \<Rightarrow> rpc_proxy \<Rightarrow> (exn + string) \<times> rpc_proxy" where
  "proxy_getattr s px =
     (case resolve_service_name s px of
        (Inl e, px') \<Rightarrow> (Inl e, px')
      | (Inr None, px') \<Rightarrow> (Inl (AttributeError ''Service name not set''), px')
      | (Inr (Some name), px') \<Rightarrow> (Inr name, px'))"

text \<open>
  A keyword \<open>response_model\<close> is passed on with the others, and is then the call's response model.
\<close>

definition proxy_call ::
  "rpc_proxy \<Rightarrow> string \<Rightarrow> string \<Rightarrow> pyval list \<Rightarrow> pydict \<Rightarrow> string option \<Rightarrow> outbound \<Rightarrow> pyval \<Rightarrow>
   string \<Rightarrow> nat \<Rightarrow> (messenger, unit) py" where
  "proxy_call px service_name method_name args kwargs response_model ob instance_id cid t =
     call_begin service_name method_name args kwargs ob
       (if instance_id = VNone then px_instance_id px else instance_id) response_model cid t"

section \<open>Sessions\<close>

definition open_session_target :: "messenger \<Rightarrow> string option \<Rightarrow> pyval \<Rightarrow> exn + string" where
  "open_session_target s service_name peer =
     (if service_name \<noteq> None \<and> peer \<noteq> VNone then
        Inl (ValueError ''open_session(): pass service_name or peer, not both'')
      else (case checked_peer peer of
         Inl e \<Rightarrow> Inl e
       | Inr (Some p) \<Rightarrow> peer_target s p
       | Inr None \<Rightarrow> (case service_name of
           None \<Rightarrow> Inl (ValueError ''open_session(): pass service_name or peer'')
         | Some name \<Rightarrow> Inr name)))"

record event_session =
  es_service_name :: string
  es_instance_id :: string
  es_session_id :: string

definition open_session_begin ::
  "string option \<Rightarrow> pyval \<Rightarrow> outbound \<Rightarrow> string \<Rightarrow> nat \<Rightarrow> (messenger, string) py" where
  "open_session_begin service_name peer ob cid t =
     py_bind (py_read (\<lambda>s. open_session_target s service_name peer)) (\<lambda>r.
     py_bind (py_lift r) (\<lambda>name.
       py_then (call_begin name KONTIKI_SESSION_OPEN_RPC [] [] ob VNone None cid t) (py_return name)))"

text \<open>
  The answer is unpacked into instance and session, and both are turned into text (\<open>str\<close>); a
  string is its own text, of another value it is the standard library's (\<open>str_of\<close>).
\<close>

fun text_of :: "(pyval \<Rightarrow> string) \<Rightarrow> pyval \<Rightarrow> string" where
  "text_of str_of (VStr s) = s"
| "text_of str_of v = str_of v"

definition session_of :: "(pyval \<Rightarrow> string) \<Rightarrow> string \<Rightarrow> pyval \<Rightarrow> exn + event_session" where
  "session_of str_of service_name response =
     (case iterate response of
        Inl e \<Rightarrow> Inl e
      | Inr [iid, sid] \<Rightarrow> Inr \<lparr>es_service_name = service_name, es_instance_id = text_of str_of iid,
            es_session_id = text_of str_of sid\<rparr>
      | Inr _ \<Rightarrow> Inl (ValueError ''not exactly two values to unpack''))"

definition open_session_end ::
  "(pyval \<Rightarrow> string) \<Rightarrow> constructors \<Rightarrow> string \<Rightarrow> string \<Rightarrow> (messenger, event_session) py" where
  "open_session_end str_of build service_name cid =
     py_bind (call_end build KONTIKI_SESSION_OPEN_RPC cid) (\<lambda>response.
       py_lift (session_of str_of service_name response))"

definition session_key :: "event_session \<Rightarrow> string \<Rightarrow> string" where
  "session_key session event_type = event_type @ ''.'' @ es_instance_id session"

definition session_publish ::
  "event_session \<Rightarrow> string \<Rightarrow> pyval \<Rightarrow> outbound \<Rightarrow> nat \<Rightarrow> (messenger, unit) py" where
  "session_publish session event_type obj ob t =
     py_then (py_lift (validate_extra_headers (extra_headers ob)))
       (publish (session_key session event_type) obj VNone ob (VStr (es_session_id session)) t)"

section \<open>The result of a remote call\<close>

text \<open>
  The specification of a call: what the handler returned, as the wire carries it, or the error its
  failure stands for.
\<close>

definition caller_result :: "string \<Rightarrow> (exn \<Rightarrow> string) \<Rightarrow> reply \<Rightarrow> exn + pyval" where
  "caller_result method_name exn_text r =
     (case r of
        Raises e \<Rightarrow> Inl (RpcServerError method_name (VStr ''INTERNAL_ERROR'') (VStr (exn_text e)))
      | Returns v \<Rightarrow> (case v of
          VRpc success result message error_type error_code \<Rightarrow>
            if success then Inr (wire result)
            else if error_type = ET_CLIENT then Inl (RpcClientError method_name (wire error_code) (wire message))
            else Inl (RpcServerError method_name (wire error_code) (wire message))
        | _ \<Rightarrow> Inr (wire v)))"

lemma wire_response:
  assumes "dumps (response_to exn_text r) = Inr j" "transportable (response_to exn_text r)"
  shows "call_result build method_name None (outcome (Inr j)) = caller_result method_name exn_text r"
proof -
  have loads: "loads j = Inr (wire (response_to exn_text r))"
    using transportable_travels[OF assms(2)] assms(1) by (auto simp: travels_def dumps_def loads_def)
  show ?thesis
  proof (cases r)
    case (Raises e)
    with loads show ?thesis
      by (simp add: outcome_def call_result_def response_to_def internal_error_def
          interpret_response_def caller_result_def)
  next
    case (Returns v)
    with loads show ?thesis
      by (cases v) (auto simp: outcome_def call_result_def response_to_def as_rpc_return_def
          interpret_response_def caller_result_def)
  qed
qed


definition demo_reply :: json where
  "demo_reply = JObj [(''__rpcreturn__'', JBool True), (''success'', JBool True),
     (''result'', JArr [JInt 10]), (''message'', JNull), (''error_type'', JStr ''NONE''),
     (''error_code'', JNull)]"

lemma demo_reply_dumps:
  "dumps (response_to exn_text (Returns (VTuple [VInt 10]))) = Inr demo_reply"
  by (simp add: dumps_def response_to_def as_rpc_return_def demo_reply_def
      jencode.simps[of "VRpc a b c d e" for a b c d e] jencode.simps[of "VDict d" for d]
      jencode.simps[of "VTuple d" for d] default_encoder_def json_native_def entry_res_pair)



section \<open>Session events\<close>

lemma last_dot_unique:
  assumes "CHR ''.'' \<notin> set i" "CHR ''.'' \<notin> set i'"
  shows "a @ ''.'' @ i = b @ ''.'' @ i' \<longleftrightarrow> a = b \<and> i = i'"
proof -
  have "takeWhile (\<lambda>c. c \<noteq> CHR ''.'') (rev (a @ ''.'' @ i)) = rev i" if "CHR ''.'' \<notin> set i" for a i
  proof -
    have "takeWhile (\<lambda>c. c \<noteq> CHR ''.'') (rev i @ CHR ''.'' # rev a) = rev i"
      using that by (subst takeWhile_append2) auto
    then show ?thesis by simp
  qed
  from this[OF assms(1), of a] this[OF assms(2), of b] show ?thesis by (metis append_same_eq rev_rev_ident)
qed

lemma session_of_handler:
  "session_of str_of service_name (wire (session_open_handler iid sid)) =
     Inr \<lparr>es_service_name = service_name, es_instance_id = iid, es_session_id = sid\<rparr>"
  by (simp add: session_of_def session_open_handler_def iterate_def)

lemma session_publish_sends:
  assumes "distinct (map fst (extra_headers ob))"
  shows "sends_only (\<lambda>e. \<exists>body h. e = MPublish (session_key session ev) body h \<and> dumps obj = Inr body \<and>
      dget h ''session_id'' = Some (VStr (es_session_id session))) s (session_publish session ev obj ob t)"
  unfolding session_publish_def
proof (rule sends_only_then)
  fix x u
  show "sends_only (\<lambda>e. \<exists>body h. e = MPublish (session_key session ev) body h \<and> dumps obj = Inr body \<and>
      dget h ''session_id'' = Some (VStr (es_session_id session))) u
      (publish (session_key session ev) obj VNone ob (VStr (es_session_id session)) t)"
    by (rule sends_only_mono[OF publish_sends_only[OF assms]])
      (auto simp: faithful_headers_def event_own_headers_def event_headers_of_def list_all_iff)
qed (auto intro: emits_rules)

text \<open>
  C28: The events of a session reach the instance that opened it, and no other. The answer of an
  instance's internal handler makes a session bound to that instance; an event published in it goes
  out once, under a routing key that is the binding key of the session handlers for this event type
  on this instance, and of no other instance or event type, and it carries the session's identifier.
  Instance identifiers contain no dot (they are UUIDs).
\<close>

theorem session_events_reach_their_instance:
  assumes "CHR ''.'' \<notin> set iid" "CHR ''.'' \<notin> set iid'" "ep_target_instance ep"
    and "distinct (map fst (extra_headers ob))"
  shows "\<exists>session. session_of str_of service_name (wire (session_open_handler iid sid)) = Inr session \<and>
    sends_only (\<lambda>e. \<exists>body h. e = MPublish (binding_key iid ep ev) body h \<and> dumps obj = Inr body \<and>
      dget h ''session_id'' = Some (VStr sid)) s (session_publish session ev obj ob t) \<and>
    (binding_key iid' ep ev' = binding_key iid ep ev \<longleftrightarrow> iid' = iid \<and> ev' = ev)"
proof (intro exI conjI)
  let ?s = "\<lparr>es_service_name = service_name, es_instance_id = iid, es_session_id = sid\<rparr>"
  show "session_of str_of service_name (wire (session_open_handler iid sid)) = Inr ?s"
    by (rule session_of_handler)
  show "sends_only (\<lambda>e. \<exists>body h. e = MPublish (binding_key iid ep ev) body h \<and> dumps obj = Inr body \<and>
      dget h ''session_id'' = Some (VStr sid)) s (session_publish ?s ev obj ob t)"
    using session_publish_sends[OF assms(4), of ?s ev obj s t] assms(3)
    by (simp add: binding_key_def session_key_def)
  show "binding_key iid' ep ev' = binding_key iid ep ev \<longleftrightarrow> iid' = iid \<and> ev' = ev"
    using last_dot_unique[OF assms(2,1)] assms(3) by (auto simp: binding_key_def)
qed

definition demo_session_endpoint :: event_endpoint where
  "demo_session_endpoint = demo_event_endpoint\<lparr>ep_target_instance := True\<rparr>"

theorem session_events_reach_their_instance_witness:
  "\<exists>session. session_of (\<lambda>_. []) ''orders'' (wire (session_open_handler ''i1'' ''s1'')) = Inr session \<and>
    sends_only (\<lambda>e. \<exists>body h. e = MPublish (binding_key ''i1'' demo_session_endpoint ''step'') body h \<and>
        dumps (VInt 1) = Inr body \<and> dget h ''session_id'' = Some (VStr ''s1''))
      (demo_messenger []) (session_publish session ''step'' (VInt 1) demo_outbound 0) \<and>
    (binding_key ''i2'' demo_session_endpoint ''step'' = binding_key ''i1'' demo_session_endpoint ''step'' \<longleftrightarrow>
       ''i2'' = ''i1'' \<and> ''step'' = ''step'')"
  by (rule session_events_reach_their_instance)
    (simp_all add: demo_session_endpoint_def demo_outbound_def extra_headers_def)

section \<open>Peers\<close>

text \<open>A peer means the same service to a proxy and to a session, and a proxy looks it up once.\<close>

lemma peer_proxy_agrees_with_session:
  assumes "p \<noteq> []"
  shows "fst (resolve_service_name s \<lparr>px_peer = Some p, px_service_name = None, px_instance_id = iid\<rparr>) =
    map_sum id Some (open_session_target s None (VStr p))"
  using assms
  by (simp add: resolve_service_name_def open_session_target_def checked_peer_def split: sum.split)

lemma resolved_once:
  assumes "resolve_service_name s px = (Inr (Some name), px')"
  shows "resolve_service_name s' px' = (Inr (Some name), px')"
  using assms by (auto simp: resolve_service_name_def split: option.splits sum.splits)

lemma peer_target_nonempty: "peer_target s p = Inr name \<Longrightarrow> name \<noteq> []"
  by (auto simp: peer_target_def split: if_splits sum.splits pyval.splits)

end
