(* ===== verification/Event_Delivery.thy ===== *)
theory Event_Delivery
  imports Remote_Calls
begin

text \<open>
  An event from the publisher to the handlers: what \<open>Messenger.publish\<close> puts on the exchange
  (Messenger) is bound to the queues the subscribers declared (Consumer_Setup) and handled by their
  tasks (Event_Consumer), in a scope that continues the publisher's flow (Handler_Scope).

  The broker is between the two: it hands the body and the headers of a message, as they were
  published, to a consumer of each queue whose binding key is the message's routing key.
\<close>

section \<open>What was posted\<close>

text \<open>The messages a computation posted, whether or not the broker took them at the first attempt.\<close>

definition posted :: "messenger \<Rightarrow> (messenger, 'a) py \<Rightarrow> msg_effect list" where
  "posted s m = filter is_send (map fst (drop (length (trace s)) (trace (snd (m s)))))"

lemma sent_members: "sent e posts ok \<Longrightarrow> (x, b) \<in> set posts \<Longrightarrow> is_send x \<Longrightarrow> x = e"
  by (fastforce simp: sent_def list_all_iff)

lemma posted_good:
  assumes "sends_only good s m" "x \<in> set (posted s m)"
  shows "good x"
proof -
  obtain conn posts where t: "trace (snd (m s)) = trace s @ conn @ posts"
    "list_all (\<lambda>p. no_send (fst p)) conn"
    "posts = [] \<or> (\<exists>e. good e \<and> sent e posts (\<exists>u. fst (m s) = Inr u))"
    using assms(1) unfolding sends_only_def by blast
  have "\<exists>b. (x, b) \<in> set (conn @ posts)" "is_send x"
    using assms(2) t(1) by (auto simp: posted_def)
  with t(2,3) sent_members show ?thesis by (fastforce simp: list_all_iff)
qed

text \<open>
  What a subscriber needs of a posted event: its routing key, its body as the wire carries it, and
  the flow, the hop and the caller's own headers.
\<close>

lemma posted_event:
  assumes "distinct (map fst (extra_headers ob))" "transportable obj"
    and "MPublish key body h \<in> set (posted s (publish event_type obj reply_to ob session_id t))"
  shows "key = event_type" "loads body = Inr (wire obj)" "h \<noteq> []"
    "dget h flow_id_header_name = Some (outbound_flow ob t s)"
    "dget h hop_id_header_name = Some (VStr (ob_fresh_hop ob))"
    "list_all (\<lambda>(k, v). dget h k = Some v) (extra_headers ob)"
proof -
  from posted_good[OF publish_sends_only[OF assms(1)] assms(3)]
  have post: "key = event_type" "dumps obj = Inr body"
    "faithful_headers ob t (event_own_headers s ob event_type reply_to session_id) h s" by auto
  then show "key = event_type" "dget h flow_id_header_name = Some (outbound_flow ob t s)"
    "dget h hop_id_header_name = Some (VStr (ob_fresh_hop ob))"
    "list_all (\<lambda>(k, v). dget h k = Some v) (extra_headers ob)"
    by (simp_all add: faithful_headers_def header_names)
  then show "h \<noteq> []" by auto
  show "loads body = Inr (wire obj)"
    using transportable_travels[OF assms(2)] post(2) by (auto simp: travels_def dumps_def loads_def)
qed

section \<open>What the handler sees\<close>

text \<open>The scope in which the handler of an event runs: entered by its own task.\<close>

definition handler_scope :: "event_task \<Rightarrow> string \<Rightarrow> nat \<Rightarrow> nat \<Rightarrow> message \<Rightarrow> consumer_state \<Rightarrow> scope_state" where
  "handler_scope task fresh parent child m c =
     snd (enter_handler_scope ''event'' (et_event_type task) (Some (msg_headers m)) True fresh child
       (create_task parent child (scope c)))"

lemma handler_scope_context:
  assumes "msg_headers m \<noteq> []" "dget (msg_headers m) flow_id_header_name = Some flow" "truthy flow"
    and "dget (msg_headers m) hop_id_header_name = Some hop"
  shows "get_raw_context child (handler_scope task fresh parent child m c) =
    Some \<lparr>ctx_kind = VStr ''event'', ctx_operation = VStr (et_event_type task), ctx_flow = flow, ctx_hop = hop\<rparr>"
  using assms by (simp add: handler_scope_def enter_raw_context untraced_kind_def dget_default_def)

text \<open>The handler is run once with its argument, and the message is settled after it.\<close>

definition handled_with :: "event_task \<Rightarrow> message \<Rightarrow> pyval \<Rightarrow> (cns_effect \<times> bool) list \<Rightarrow> bool" where
  "handled_with task m arg calls \<longleftrightarrow>
     (\<exists>ok r b rep.
        calls = [(RunHandler (et_event_type task) [arg] [] (event_headers task m), ok),
                 (MsgDone (et_requeue task) r, b)] @ rep \<and>
        (ok \<longleftrightarrow> r = None) \<and> (\<forall>x \<in> set rep. \<exists>e f. fst x = RegisterException e f))"

lemma delivery_handled:
  assumes "event_delivery build task m calls" "event_payload build task m = Inr arg"
  shows "handled_with task m arg calls"
  using assms unfolding event_delivery_def handled_with_def reports_def by fastforce

text \<open>
  C18: A published event is handled by its subscribers, and the flow goes on. Whatever happens on the
  way (reconnections, failures of the broker and of the handlers), every message that publishing
  an event posts carries the key under which the queue of a handler for this event is bound; the task of
  a live service that is handed it runs the handler once, with the payload as the wire carries it,
  rebuilt to the type of its parameter, and settles the message after it; and the handler runs in the
  flow of the publisher, so that what it sends carries that flow and names the event as its parent hop.
\<close>

theorem published_event_is_handled:
  assumes "distinct (map fst (extra_headers ob))" "transportable obj" "truthy (outbound_flow ob t s)"
      "ob_fresh_hop ob \<noteq> []"
    and posts: "MPublish key body h \<in> set (posted s (publish event_type obj reply_to ob session_id t))"
    and subscriber: "\<not> ep_target_instance ep" "\<not> cns_shutting_down c"
      "task = event_task_of service_name iid ep sig attempts event_type"
      "reconstruct_from_type_hint build sig (wire obj) = Inr arg"
    and delivered: "msg_body m = Inr body" "msg_headers m = h"
  shows "key = binding_key iid ep event_type \<and>
    (\<exists>calls. trace (snd (on_event_message build task fresh parent child m c)) = trace c @ calls \<and>
       handled_with task m arg calls) \<and>
    current_flow_id child (handler_scope task fresh parent child m c) = outbound_flow ob t s \<and>
    dget (apply_outbound_hop_headers base rpc fresh' child (handler_scope task fresh parent child m c))
      parent_hop_id_header_name = Some (VStr (ob_fresh_hop ob))"
proof -
  note p = posted_event[OF assms(1,2) posts]
  have "event_payload build task m = Inr arg"
    using p(2) subscriber(3,4) delivered(1) by (simp add: event_payload_def loads_body_def event_task_of_def)
  moreover obtain calls where
    "trace (snd (on_event_message build task fresh parent child m c)) = trace c @ calls"
    "event_delivery build task m calls" by (rule event_message_calls[OF subscriber(2)])
  ultimately have "\<exists>calls. trace (snd (on_event_message build task fresh parent child m c)) = trace c @ calls \<and>
      handled_with task m arg calls" using delivery_handled by blast
  moreover have raw: "get_raw_context child (handler_scope task fresh parent child m c) =
      Some \<lparr>ctx_kind = VStr ''event'', ctx_operation = VStr (et_event_type task),
        ctx_flow = outbound_flow ob t s, ctx_hop = VStr (ob_fresh_hop ob)\<rparr>"
    using p(3-5) assms(3) delivered(2) by (intro handler_scope_context) simp_all
  have "current_flow_id child (handler_scope task fresh parent child m c) = outbound_flow ob t s"
    by (simp add: current_flow_id_def raw)
  moreover have "key = binding_key iid ep event_type" using p(1) subscriber(1) by (simp add: binding_key_def)
  ultimately show ?thesis
    using outbound_hop_headers_in_scope(4)[OF raw] assms(4) by (simp add: untraced_kind_def)
qed

definition demo_posted_headers :: pydict where
  "demo_posted_headers = [(''service_name'', VStr ''kontiki-standalone-shop''), (''instance_id'', VStr ''i1''),
     (''host'', VStr []), (''timestamp'', VStr ''now''), (''event_type'', VStr ''paid''), (''reply_to'', VNone),
     (''tenant'', VStr ''t1''), (''flow_id'', VStr ''f1''), (''hop_id'', VStr ''h1'')]"

lemma demo_posted:
  "posted (demo_messenger []) (publish ''paid'' (VTuple [VInt 7]) VNone demo_outbound VNone 0) =
     [MPublish ''paid'' (JArr [JInt 7]) demo_posted_headers]"
  by code_simp

theorem published_event_is_handled_witness:
  "(\<exists>calls. trace (snd (on_event_message (\<lambda>_ d. Inr (VDict d)) demo_event_task ''f2'' 0 1
       \<lparr>msg_body = Inr (JArr [JInt 7]), msg_headers = demo_posted_headers, msg_cid = VNone, msg_reply_to = VNone\<rparr>
       (demo_consumer []))) = trace (demo_consumer []) @ calls \<and>
     handled_with demo_event_task
       \<lparr>msg_body = Inr (JArr [JInt 7]), msg_headers = demo_posted_headers, msg_cid = VNone, msg_reply_to = VNone\<rparr>
       (VList [VInt 7]) calls)"
proof -
  let ?m = "\<lparr>msg_body = Inr (JArr [JInt 7]), msg_headers = demo_posted_headers, msg_cid = VNone, msg_reply_to = VNone\<rparr>"
  have "distinct (map fst (extra_headers demo_outbound))" "transportable (VTuple [VInt 7])"
    "truthy (outbound_flow demo_outbound 0 (demo_messenger []))" "ob_fresh_hop demo_outbound \<noteq> []"
    "MPublish ''paid'' (JArr [JInt 7]) demo_posted_headers \<in>
      set (posted (demo_messenger []) (publish ''paid'' (VTuple [VInt 7]) VNone demo_outbound VNone 0))"
    "\<not> ep_target_instance demo_event_endpoint" "\<not> cns_shutting_down (demo_consumer [])"
    "demo_event_task = event_task_of ''orders'' ''i9'' demo_event_endpoint
      \<lparr>sig_params = [], sig_hints = Inr []\<rparr> (VInt 5) ''paid''"
    "reconstruct_from_type_hint (\<lambda>_ d. Inr (VDict d)) \<lparr>sig_params = [], sig_hints = Inr []\<rparr>
      (wire (VTuple [VInt 7])) = Inr (VList [VInt 7])"
    "msg_body ?m = Inr (JArr [JInt 7])" "msg_headers ?m = demo_posted_headers"
    unfolding demo_posted by (code_simp | simp add: reconstruct_from_type_hint_def)+
  from published_event_is_handled[OF this] show ?thesis by blast
qed

end
