(* ===== verification/Registry_Server.thy ===== *)
theory Registry_Server
  imports Configuration
begin

text \<open>
  The service registry: the table of services and instances (\<open>registry/server/delegates/registry.py\<close>),
  heartbeats and degraded instances (\<open>heartbeat_manager.py\<close>), the status tracking, the queries and
  the handling of failed messages of \<open>registry/server/core.py\<close>, with the payloads of
  \<open>registry/events.py\<close> and the helpers of \<open>registry/common.py\<close>.

  Time is an integer number of microseconds; each operation reads the clock once (\<open>clock\<close> also
  holds the ISO text of the instant). Message bodies arrive decoded, as the value or the exception
  \<open>serializer.loads\<close> returned. Service names and instance identifiers are strings; a registration
  that carries anything else is refused as a \<open>TypeError\<close>.
\<close>

section \<open>Names and helpers\<close>

definition REGISTER_RKEY :: string where "REGISTER_RKEY = ''registry.register''"
definition UNREGISTER_RKEY :: string where "UNREGISTER_RKEY = ''registry.unregister''"
definition HEARTBEAT_RKEY :: string where "HEARTBEAT_RKEY = ''registry.heartbeat''"
definition EXCEPTION_RKEY :: string where "EXCEPTION_RKEY = ''registry.exception''"
definition CONTEXT_RKEY :: string where "CONTEXT_RKEY = ''registry.context''"
definition REGISTRATION_GROUP_DEFAULT :: string where "REGISTRATION_GROUP_DEFAULT = ''business''"

definition INSTANCE_REGISTERED :: string where
  "INSTANCE_REGISTERED = ''registry.instance.registered''"
definition INSTANCE_DEREGISTERED :: string where
  "INSTANCE_DEREGISTERED = ''registry.instance.deregistered''"
definition INSTANCE_STATUS_CHANGED :: string where
  "INSTANCE_STATUS_CHANGED = ''registry.instance.status_changed''"
definition EXCEPTION_RECORDED :: string where "EXCEPTION_RECORDED = ''registry.exception.recorded''"
definition CONTEXT_RECORDED :: string where "CONTEXT_RECORDED = ''registry.context.recorded''"

lemmas registry_event_names = INSTANCE_REGISTERED_def INSTANCE_DEREGISTERED_def
  INSTANCE_STATUS_CHANGED_def EXCEPTION_RECORDED_def CONTEXT_RECORDED_def

fun normalize_registration_group :: "pyval \<Rightarrow> string" where
  "normalize_registration_group (VStr value) =
     (if strip value = [] then REGISTRATION_GROUP_DEFAULT else strip value)"
| "normalize_registration_group _ = REGISTRATION_GROUP_DEFAULT"

record clock =
  now_us :: int
  now_iso :: string

text \<open>\<open>v * n\<close> for a number or a sequence; a bool counts as a number.\<close>

fun py_times :: "pyval \<Rightarrow> int \<Rightarrow> exn + pyval" where
  "py_times (VInt i) n = Inr (VInt (i * n))"
| "py_times (VFloat r) n = Inr (VFloat (r * of_int n))"
| "py_times (VBool b) n = Inr (VInt (if b then n else 0))"
| "py_times (VStr s) n = Inr (VStr (concat (replicate (nat n) s)))"
| "py_times (VList xs) n = Inr (VList (concat (replicate (nat n) xs)))"
| "py_times (VTuple xs) n = Inr (VTuple (concat (replicate (nat n) xs)))"
| "py_times _ n = Inl (TypeError ''unsupported operand type(s) for *'')"

definition round_half_even :: "rat \<Rightarrow> int" where
  "round_half_even r =
     (let f = \<lfloor>r\<rfloor>; d = r - of_int f
      in if d < 1 / 2 then f else if 1 / 2 < d then f + 1 else if even f then f else f + 1)"

text \<open>\<open>timedelta(seconds=v)\<close> in microseconds; it holds less than a billion days either way.\<close>

definition DAY_US :: int where "DAY_US = 86400000000"

definition MAX_DELTA_DAYS :: int where "MAX_DELTA_DAYS = 999999999"

definition timedelta_us :: "int \<Rightarrow> exn + int" where
  "timedelta_us us =
     (if MAX_DELTA_DAYS < \<bar>us div DAY_US\<bar> then Inl (OtherError ''OverflowError'' []) else Inr us)"

fun timedelta_seconds :: "pyval \<Rightarrow> exn + int" where
  "timedelta_seconds (VInt i) = timedelta_us (i * 1000000)"
| "timedelta_seconds (VBool b) = timedelta_us (if b then 1000000 else 0)"
| "timedelta_seconds (VFloat r) = timedelta_us (round_half_even (r * 1000000))"
| "timedelta_seconds _ = Inl (TypeError ''unsupported type for timedelta seconds component'')"

section \<open>Event payloads\<close>

datatype service_status = ACTIVE | DEGRADED | DOWN

fun status_value :: "service_status \<Rightarrow> string" where
  "status_value ACTIVE = ''active''"
| "status_value DEGRADED = ''degraded''"
| "status_value DOWN = ''down''"

text \<open>\<open>ServiceStatus(value)\<close>.\<close>

definition service_status_of :: "string \<Rightarrow> service_status option" where
  "service_status_of v =
     (if v = ''active'' then Some ACTIVE
      else if v = ''degraded'' then Some DEGRADED
      else if v = ''down'' then Some DOWN else None)"

lemma service_status_roundtrip [simp]: "service_status_of (status_value st) = Some st"
  by (cases st) (simp_all add: service_status_of_def)

definition registered_payload :: "string \<Rightarrow> pydict \<Rightarrow> exn + pydict" where
  "registered_payload ts data =
     (case dget data ''service_name'' of
        None \<Rightarrow> Inl (KeyError ''service_name'')
      | Some sn \<Rightarrow> (case dget data ''instance_id'' of
          None \<Rightarrow> Inl (KeyError ''instance_id'')
        | Some iid \<Rightarrow> Inr (
            [(''service_name'', sn), (''instance_id'', iid),
             (''host'', dget_default data ''host'' VNone),
             (''pid'', dget_default data ''pid'' VNone),
             (''service_version'', dget_default data ''service_version'' VNone),
             (''kontiki_version'', dget_default data ''kontiki_version'' VNone),
             (''heartbeat_interval'', dget_default data ''heartbeat_interval'' VNone),
             (''group'', VStr (normalize_registration_group (dget_default data ''group'' VNone)))]
            @ (case dget data ''entrypoints'' of None \<Rightarrow> [] | Some e \<Rightarrow> [(''entrypoints'', e)])
            @ [(''timestamp'', VStr ts)]
            @ (if truthy (dget_default data ''config'' VNone)
               then [(''config'', dget_default data ''config'' VNone)] else []))))"

definition deregistered_payload :: "string \<Rightarrow> string \<Rightarrow> string \<Rightarrow> pydict" where
  "deregistered_payload ts sn iid =
     [(''service_name'', VStr sn), (''instance_id'', VStr iid), (''timestamp'', VStr ts)]"

definition status_changed_payload ::
  "string \<Rightarrow> string \<Rightarrow> string \<Rightarrow> service_status \<Rightarrow> service_status \<Rightarrow> pyval \<Rightarrow> pydict" where
  "status_changed_payload ts sn iid previous_status new_status reason =
     [(''service_name'', VStr sn), (''instance_id'', VStr iid),
      (''previous_status'', VStr (status_value previous_status)),
      (''new_status'', VStr (status_value new_status)), (''timestamp'', VStr ts)]
     @ (if new_status = DEGRADED then [(''reason'', reason)] else [])"

fun pick_required :: "pydict \<Rightarrow> string list \<Rightarrow> exn + pydict" where
  "pick_required d [] = Inr []"
| "pick_required d (k # ks) =
     (case dget d k of
        None \<Rightarrow> Inl (KeyError k)
      | Some v \<Rightarrow> (case pick_required d ks of Inl e \<Rightarrow> Inl e | Inr p \<Rightarrow> Inr ((k, v) # p)))"

definition exception_recorded_payload :: "pydict \<Rightarrow> exn + pydict" where
  "exception_recorded_payload exception_data =
     pick_required exception_data
       [''service_name'', ''instance_id'', ''exception_type'', ''message'', ''timestamp'',
        ''flow_id'', ''hop_id'', ''exception_id'', ''entrypoint'', ''operation'']"

section \<open>State\<close>

type_synonym instance_key = "string \<times> string"
type_synonym service_table = "(string \<times> (string \<times> pydict) list) list"

datatype reg_effect =
    PublishEvent string pydict
  | PublishAdmin string
  | Settle bool "exn option"

record registry = "reg_effect world" +
  services :: service_table
  heartbeats :: "instance_key \<Rightarrow> int option"
  degraded_services :: "instance_key list"
  degraded_reasons :: "instance_key \<Rightarrow> pyval option"
  tracked_status :: "instance_key \<Rightarrow> service_status option"
  started_at :: int

definition registry_init :: "int \<Rightarrow> reply list \<Rightarrow> registry" where
  "registry_init t answers = \<lparr>script = answers, trace = [], services = [], heartbeats = (\<lambda>_. None),
     degraded_services = [], degraded_reasons = (\<lambda>_. None), tracked_status = (\<lambda>_. None),
     started_at = t\<rparr>"

text \<open>
  \<open>services\<close> is a \<open>defaultdict\<close> of dictionaries: storing an instance creates the entry of its
  service, removing the last one deletes it.
\<close>

definition get_instance :: "service_table \<Rightarrow> instance_key \<Rightarrow> pydict option" where
  "get_instance svcs key =
     (case dget svcs (fst key) of None \<Rightarrow> None | Some insts \<Rightarrow> dget insts (snd key))"

definition put_instance :: "instance_key \<Rightarrow> pydict \<Rightarrow> service_table \<Rightarrow> service_table" where
  "put_instance key data svcs =
     (let insts = (case dget svcs (fst key) of None \<Rightarrow> [] | Some i \<Rightarrow> i)
      in dset (fst key) (dset (snd key) data insts) svcs)"

definition del_instance :: "instance_key \<Rightarrow> service_table \<Rightarrow> service_table" where
  "del_instance key svcs =
     (case dget svcs (fst key) of
        None \<Rightarrow> svcs
      | Some insts \<Rightarrow>
          (let insts' = dpop (snd key) insts; svcs' = dset (fst key) insts' svcs
           in if insts' = [] then dpop (fst key) svcs' else svcs'))"

definition table_ok :: "service_table \<Rightarrow> bool" where
  "table_ok svcs \<longleftrightarrow> distinct (map fst svcs) \<and>
     (\<forall>(sn, insts) \<in> set svcs. distinct (map fst insts) \<and> insts \<noteq> [])"

lemma table_ok_entry:
  "table_ok svcs \<Longrightarrow> dget svcs sn = Some insts \<Longrightarrow> distinct (map fst insts) \<and> insts \<noteq> []"
  by (auto simp: table_ok_def dest: map_of_SomeD)

lemma table_ok_dset:
  assumes "table_ok svcs" "distinct (map fst insts)" "insts \<noteq> []"
  shows "table_ok (dset sn insts svcs)"
proof -
  have d: "distinct (map fst (dset sn insts svcs))"
    using assms(1) by (auto simp: table_ok_def intro: distinct_dset)
  have "distinct (map fst i) \<and> i \<noteq> []" if "(m, i) \<in> set (dset sn insts svcs)" for m i
  proof -
    have "dget (dset sn insts svcs) m = Some i" using d that by (simp add: dget_iff_mem)
    with assms table_ok_entry show ?thesis by (auto simp: dict_simps split: if_splits)
  qed
  with d show ?thesis by (auto simp: table_ok_def)
qed

lemma table_ok_dpop: "table_ok svcs \<Longrightarrow> table_ok (dpop sn svcs)"
proof -
  assume ok: "table_ok svcs"
  have d: "distinct (map fst (dpop sn svcs))"
    using ok by (auto simp: table_ok_def intro: distinct_dpop)
  have "distinct (map fst i) \<and> i \<noteq> []" if "(m, i) \<in> set (dpop sn svcs)" for m i
  proof -
    have "dget (dpop sn svcs) m = Some i" using d that by (simp add: dget_iff_mem)
    with ok table_ok_entry show ?thesis by (auto simp: dict_simps split: if_splits)
  qed
  with d show ?thesis by (auto simp: table_ok_def)
qed

lemma get_put_instance:
  "get_instance (put_instance key data svcs) j = (if j = key then Some data else get_instance svcs j)"
  by (cases key; cases j)
    (auto simp: get_instance_def put_instance_def Let_def dict_simps split: option.splits)

lemma get_del_instance:
  "get_instance (del_instance key svcs) j = (if j = key then None else get_instance svcs j)"
proof -
  have "dget insts k = None" if "dpop i insts = []" "k \<noteq> i" for i k and insts :: "(string \<times> pydict) list"
    using that by (metis dget_dpop map_of.simps(1))
  then show ?thesis
    by (cases key; cases j)
      (auto simp: get_instance_def del_instance_def Let_def dict_simps split: option.splits)
qed

lemma put_instance_ok: "table_ok svcs \<Longrightarrow> table_ok (put_instance key data svcs)"
  by (auto simp: put_instance_def Let_def split: option.splits
      intro!: table_ok_dset distinct_dset dest: table_ok_entry)

lemma dset_dpop_table:
  "table_ok svcs \<Longrightarrow> table_ok (dpop sn (dset sn insts svcs))"
  by (simp add: delete_update_same table_ok_dpop)

lemma del_instance_ok: "table_ok svcs \<Longrightarrow> table_ok (del_instance key svcs)"
  by (auto simp: del_instance_def Let_def split: option.splits
      intro!: table_ok_dset dset_dpop_table distinct_dpop dest: table_ok_entry)

interpretation instances: kv_store get_instance put_instance del_instance table_ok
  by unfold_locales (auto simp: get_put_instance get_del_instance put_instance_ok del_instance_ok)

lemma table_no_empty_service: "table_ok svcs \<Longrightarrow> dget svcs sn \<noteq> Some []"
  using table_ok_entry by blast

definition has_service :: "registry \<Rightarrow> string \<Rightarrow> bool" where
  "has_service s sn \<longleftrightarrow> dget (services s) sn \<noteq> None"

definition has_service_instance :: "registry \<Rightarrow> string \<Rightarrow> string \<Rightarrow> bool" where
  "has_service_instance s sn iid \<longleftrightarrow>
     has_service s sn \<and> (case dget (services s) sn of None \<Rightarrow> False | Some insts \<Rightarrow> dget insts iid \<noteq> None)"

lemma has_service_instance_iff:
  "has_service_instance s sn iid \<longleftrightarrow> get_instance (services s) (sn, iid) \<noteq> None"
  by (auto simp: has_service_instance_def has_service_def get_instance_def split: option.splits)

section \<open>Status of an instance\<close>

definition get_last_heartbeat :: "registry \<Rightarrow> string \<Rightarrow> string \<Rightarrow> int option" where
  "get_last_heartbeat s sn iid = heartbeats s (sn, iid)"

definition is_degraded :: "registry \<Rightarrow> string \<Rightarrow> string \<Rightarrow> bool" where
  "is_degraded s sn iid \<longleftrightarrow> (sn, iid) \<in> set (degraded_services s)"

definition get_degraded_reason :: "registry \<Rightarrow> string \<Rightarrow> string \<Rightarrow> pyval" where
  "get_degraded_reason s sn iid =
     (if \<not> is_degraded s sn iid then VNone
      else (case degraded_reasons s (sn, iid) of None \<Rightarrow> VNone | Some r \<Rightarrow> r))"

definition default_timeout_factor :: int where "default_timeout_factor = 3"

definition get_timeout :: "pyval \<Rightarrow> exn + pyval" where
  "get_timeout heartbeat_interval =
     py_times (if heartbeat_interval = VNone then VInt 10 else heartbeat_interval)
       default_timeout_factor"

definition get_instance_status ::
  "registry \<Rightarrow> int \<Rightarrow> string \<Rightarrow> string \<Rightarrow> pyval \<Rightarrow> exn + service_status" where
  "get_instance_status s now iid sn timeout =
     (case get_last_heartbeat s sn iid of
        None \<Rightarrow> Inr DOWN
      | Some last_heartbeat \<Rightarrow>
          (case timedelta_seconds timeout of
             Inl e \<Rightarrow> Inl e
           | Inr d \<Rightarrow>
               if now - last_heartbeat > d then Inr DOWN
               else if is_degraded s sn iid then Inr DEGRADED
               else Inr ACTIVE))"

text \<open>The two calls every query makes: the timeout from the registration data, then the status.\<close>

definition instance_status ::
  "registry \<Rightarrow> int \<Rightarrow> string \<Rightarrow> string \<Rightarrow> pydict \<Rightarrow> exn + service_status" where
  "instance_status s now sn iid data =
     (case get_timeout (dget_default data ''heartbeat_interval'' (VInt 10)) of
        Inl e \<Rightarrow> Inl e
      | Inr timeout \<Rightarrow> get_instance_status s now iid sn timeout)"

definition live_status :: "service_status \<Rightarrow> bool" where
  "live_status st \<longleftrightarrow> st = ACTIVE \<or> st = DEGRADED"

section \<open>Handlers\<close>

definition publish_registry_event :: "string \<Rightarrow> pydict \<Rightarrow> (registry, unit) py" where
  "publish_registry_event event_type payload =
     py_then (io (PublishEvent event_type payload)) (py_return ())"

definition set_tracked :: "instance_key \<Rightarrow> service_status option \<Rightarrow> (registry, unit) py" where
  "set_tracked key st = py_modify (\<lambda>s. s\<lparr>tracked_status := (tracked_status s)(key := st)\<rparr>)"

definition on_instance_registered :: "clock \<Rightarrow> instance_key \<Rightarrow> pydict \<Rightarrow> (registry, unit) py" where
  "on_instance_registered c key data =
     py_bind (py_lift (registered_payload (now_iso c) data)) (\<lambda>payload.
       py_then (publish_registry_event INSTANCE_REGISTERED payload)
         (set_tracked key (Some DOWN)))"

definition on_instance_deregistered :: "clock \<Rightarrow> string \<Rightarrow> string \<Rightarrow> (registry, unit) py" where
  "on_instance_deregistered c sn iid =
     py_then (publish_registry_event INSTANCE_DEREGISTERED
                (deregistered_payload (now_iso c) sn iid))
       (set_tracked (sn, iid) None)"

definition on_exception_recorded :: "pydict \<Rightarrow> (registry, unit) py" where
  "on_exception_recorded exception_data =
     py_bind (py_lift (exception_recorded_payload exception_data))
       (publish_registry_event EXCEPTION_RECORDED)"

definition refresh_instance_status ::
  "clock \<Rightarrow> string \<Rightarrow> string \<Rightarrow> pyval \<Rightarrow> (registry, unit) py" where
  "refresh_instance_status c sn iid reason = (\<lambda>s.
     (case (if has_service_instance s sn iid then get_instance (services s) (sn, iid) else None) of
        None \<Rightarrow> (Inr (), s)
      | Some data \<Rightarrow>
          (case instance_status s (now_us c) sn iid data of
             Inl e \<Rightarrow> (Inl e, s)
           | Inr new_status \<Rightarrow>
               if tracked_status s (sn, iid) = Some new_status then (Inr (), s)
               else (case tracked_status s (sn, iid) of
                  None \<Rightarrow> set_tracked (sn, iid) (Some new_status) s
                | Some previous_status \<Rightarrow>
                    py_then (set_tracked (sn, iid) (Some new_status))
                      (publish_registry_event INSTANCE_STATUS_CHANGED
                         (status_changed_payload (now_iso c) sn iid previous_status new_status reason))
                      s))))"

text \<open>The identity fields every registry message carries, in the order the handlers read them.\<close>

definition as_name :: "pyval \<Rightarrow> exn + string" where
  "as_name v = (case v of VStr s \<Rightarrow> Inr s | _ \<Rightarrow> Inl (TypeError ''not a name''))"

definition read_identity :: "exn + pyval \<Rightarrow> exn + instance_key \<times> pydict" where
  "read_identity loaded =
     (case loaded of
        Inl e \<Rightarrow> Inl e
      | Inr data \<Rightarrow> (case subscript data ''service_name'' of
          Inl e \<Rightarrow> Inl e
        | Inr a \<Rightarrow> (case subscript data ''instance_id'' of
            Inl e \<Rightarrow> Inl e
          | Inr b \<Rightarrow> (case (as_name a, as_name b, data) of
              (Inr sn, Inr iid, VDict d) \<Rightarrow> Inr ((sn, iid), d)
            | _ \<Rightarrow> Inl (TypeError ''not a name'')))))"

definition log_error :: "exn \<Rightarrow> (registry, unit) py" where
  "log_error e = py_return ()"

definition handle_register :: "clock \<Rightarrow> exn + pyval \<Rightarrow> (registry, unit) py" where
  "handle_register c loaded =
     process_message Settle False (py_except
       (py_bind (py_lift (read_identity loaded)) (\<lambda>(key, d).
          let data = dset ''group''
                (VStr (normalize_registration_group (dget_default d ''group'' VNone))) d
          in py_then (py_modify (\<lambda>s. s\<lparr>services := put_instance key data (services s)\<rparr>))
               (on_instance_registered c key data)))
       log_error)"

definition handle_unregister :: "clock \<Rightarrow> exn + pyval \<Rightarrow> (registry, unit) py" where
  "handle_unregister c loaded =
     process_message Settle False (py_except
       (py_bind (py_lift (read_identity loaded)) (\<lambda>(key, d).
          py_if (\<lambda>s. \<not> has_service s (fst key)) (py_return ())
            (py_if (\<lambda>s. \<not> has_service_instance s (fst key) (snd key)) (py_return ())
               (py_then (py_modify (\<lambda>s. s\<lparr>services := del_instance key (services s)\<rparr>))
                  (on_instance_deregistered c (fst key) (snd key))))))
       log_error)"

definition HEARTBEAT_GRACE_US :: int where "HEARTBEAT_GRACE_US = 15000000"

text \<open>What \<open>store_heartbeat\<close> assigns before it refreshes the status of a known instance.\<close>

definition record_degraded :: "instance_key \<Rightarrow> pyval \<Rightarrow> pyval \<Rightarrow> registry \<Rightarrow> registry" where
  "record_degraded key degraded reason s =
     (if truthy degraded then
        (let s1 = (if key \<notin> set (degraded_services s)
                   then s\<lparr>degraded_services := degraded_services s @ [key]\<rparr> else s)
         in if truthy reason
            then s1\<lparr>degraded_reasons := (degraded_reasons s1)(key := Some reason)\<rparr> else s1)
      else
        (let s1 = (if key \<in> set (degraded_services s)
                   then s\<lparr>degraded_services := remove1 key (degraded_services s)\<rparr> else s)
         in s1\<lparr>degraded_reasons := (degraded_reasons s1)(key := None)\<rparr>))"

definition store_heartbeat ::
  "clock \<Rightarrow> string \<Rightarrow> string \<Rightarrow> pyval \<Rightarrow> pyval \<Rightarrow> (registry, unit) py" where
  "store_heartbeat c sn iid degraded reason =
     py_except
       (py_if (\<lambda>s. has_service_instance s sn iid)
          (py_then
             (py_modify (\<lambda>s. (record_degraded (sn, iid) degraded reason s)
                \<lparr>heartbeats := (heartbeats s)((sn, iid) \<mapsto> now_us c)\<rparr>))
             (refresh_instance_status c sn iid (if truthy degraded then reason else VNone)))
          (py_if (\<lambda>s. now_us c - started_at s < HEARTBEAT_GRACE_US) (py_return ())
             (py_then (io (PublishAdmin (sn @ ''.'' @ iid @ ''.register_again''))) (py_return ()))))
       log_error"

definition handle_heartbeat :: "clock \<Rightarrow> exn + pyval \<Rightarrow> (registry, unit) py" where
  "handle_heartbeat c loaded =
     process_message Settle False (py_except
       (py_bind (py_lift (read_identity loaded)) (\<lambda>(key, d).
          py_bind (py_lift (subscript (VDict d) ''degraded'')) (\<lambda>degraded.
            store_heartbeat c (fst key) (snd key) degraded (dget_default d ''reason'' VNone))))
       log_error)"

text \<open>
  The periodic pass of \<open>monitor_instance_statuses\<close>, every five seconds, over all instances. No
  other handler runs in between here.
\<close>

definition all_instances :: "service_table \<Rightarrow> instance_key list" where
  "all_instances svcs = concat (map (\<lambda>(sn, insts). map (\<lambda>(iid, d). (sn, iid)) insts) svcs)"

definition refresh_all_instance_statuses :: "clock \<Rightarrow> (registry, unit) py" where
  "refresh_all_instance_statuses c = (\<lambda>s.
     py_each (\<lambda>(sn, iid). refresh_instance_status c sn iid VNone) (all_instances (services s)) s)"

section \<open>Queries\<close>

text \<open>
  The queries walk the table and ask each instance its status; an instance whose registered
  interval is not a number makes \<open>timedelta\<close> raise. \<open>get_services\<close> catches that and returns what it
  had collected; the other queries let it out.
\<close>

definition service_entry ::
  "registry \<Rightarrow> string \<Rightarrow> string \<Rightarrow> pydict \<Rightarrow> (int \<Rightarrow> string) \<Rightarrow> service_status \<Rightarrow> pyval" where
  "service_entry s sn iid data iso_of current_status =
     VDict [(''status'', VStr (status_value current_status)),
       (''last_heartbeat'', case get_last_heartbeat s sn iid of
            None \<Rightarrow> VNone | Some t \<Rightarrow> VStr (iso_of t)),
       (''degraded_reason'', get_degraded_reason s sn iid),
       (''metadata'', VDict data)]"

definition status_selected :: "string option \<Rightarrow> service_status \<Rightarrow> bool" where
  "status_selected status st \<longleftrightarrow>
     (case status of None \<Rightarrow> True | Some w \<Rightarrow> w = [] \<or> status_value st = w)"

fun services_loop ::
  "registry \<Rightarrow> int \<Rightarrow> (int \<Rightarrow> string) \<Rightarrow> string option \<Rightarrow> (instance_key \<times> pydict) list \<Rightarrow>
   (string \<times> (string \<times> pyval) list) list \<Rightarrow> (string \<times> (string \<times> pyval) list) list" where
  "services_loop s now iso_of status [] acc = acc"
| "services_loop s now iso_of status (((sn, iid), data) # rest) acc =
     (case instance_status s now sn iid data of
        Inl e \<Rightarrow> acc
      | Inr st \<Rightarrow>
          services_loop s now iso_of status rest
            (if status_selected status st
             then dset sn (dset iid (service_entry s sn iid data iso_of st)
                    (case dget acc sn of None \<Rightarrow> [] | Some e \<Rightarrow> e)) acc
             else acc))"

definition instance_entries :: "service_table \<Rightarrow> (instance_key \<times> pydict) list" where
  "instance_entries svcs = concat (map (\<lambda>(sn, insts). map (\<lambda>(iid, d). ((sn, iid), d)) insts) svcs)"

definition get_services ::
  "registry \<Rightarrow> int \<Rightarrow> (int \<Rightarrow> string) \<Rightarrow> string option \<Rightarrow> (string \<times> (string \<times> pyval) list) list" where
  "get_services s now iso_of status = services_loop s now iso_of status (instance_entries (services s)) []"

fun live_loop ::
  "registry \<Rightarrow> int \<Rightarrow> string \<Rightarrow> (string \<times> pydict) list \<Rightarrow> string list \<Rightarrow> exn + string list" where
  "live_loop s now sn [] live = Inr live"
| "live_loop s now sn ((iid, data) # rest) live =
     (case instance_status s now sn iid data of
        Inl e \<Rightarrow> Inl e
      | Inr st \<Rightarrow> live_loop s now sn rest (if live_status st then live @ [iid] else live))"

definition list_instances :: "registry \<Rightarrow> int \<Rightarrow> pyval \<Rightarrow> exn + string list" where
  "list_instances s now service_name =
     (case service_name of
        VStr sn \<Rightarrow>
          if strip sn = [] then Inr []
          else (case dget (services s) sn of
             None \<Rightarrow> Inr []
           | Some insts \<Rightarrow>
               (case live_loop s now sn insts [] of Inl e \<Rightarrow> Inl e | Inr live \<Rightarrow> Inr (sort live)))
      | _ \<Rightarrow> Inr [])"

fun any_live_loop :: "registry \<Rightarrow> int \<Rightarrow> string \<Rightarrow> (string \<times> pydict) list \<Rightarrow> exn + bool" where
  "any_live_loop s now sn [] = Inr False"
| "any_live_loop s now sn ((iid, data) # rest) =
     (case instance_status s now sn iid data of
        Inl e \<Rightarrow> Inl e
      | Inr st \<Rightarrow> if live_status st then Inr True else any_live_loop s now sn rest)"

definition is_live :: "registry \<Rightarrow> int \<Rightarrow> string \<Rightarrow> string \<Rightarrow> exn + bool" where
  "is_live s now own_name sn =
     (if sn = own_name then Inr True
      else (case dget (services s) sn of
         None \<Rightarrow> Inr False
       | Some insts \<Rightarrow> any_live_loop s now sn insts))"

definition competing_entry :: "string \<Rightarrow> pyval \<Rightarrow> bool" where
  "competing_entry event_name entry \<longleftrightarrow>
     (case entry of
        VDict e \<Rightarrow>
          dget_default e ''type'' VNone = VStr ''event'' \<and>
          dget_default e ''name'' VNone = VStr event_name \<and>
          dget_default e ''mode'' VNone = VStr ''competing''
      | _ \<Rightarrow> False)"

text \<open>The entrypoints are whatever was registered; an entry that is no mapping has no \<open>get\<close>.\<close>

fun entries_declare :: "string \<Rightarrow> pyval list \<Rightarrow> exn + bool" where
  "entries_declare event_name [] = Inr False"
| "entries_declare event_name (entry # rest) =
     (if \<not> is_dict entry then Inl (AttributeError ''get'')
      else if competing_entry event_name entry then Inr True
      else entries_declare event_name rest)"

fun declares_loop ::
  "registry \<Rightarrow> int \<Rightarrow> string \<Rightarrow> string \<Rightarrow> (string \<times> pydict) list \<Rightarrow> exn + bool" where
  "declares_loop s now sn event_name [] = Inr False"
| "declares_loop s now sn event_name ((iid, data) # rest) =
     (case instance_status s now sn iid data of
        Inl e \<Rightarrow> Inl e
      | Inr st \<Rightarrow>
          if \<not> live_status st then declares_loop s now sn event_name rest
          else if \<not> truthy (dget_default data ''entrypoints'' VNone)
            then declares_loop s now sn event_name rest
          else (case iterate (dget_default data ''entrypoints'' VNone) of
             Inl e \<Rightarrow> Inl e
           | Inr entrypoints \<Rightarrow> (case entries_declare event_name entrypoints of
               Inl e \<Rightarrow> Inl e
             | Inr declared \<Rightarrow>
                 if declared then Inr True else declares_loop s now sn event_name rest)))"

definition declares_competing_event ::
  "registry \<Rightarrow> int \<Rightarrow> string \<Rightarrow> string \<Rightarrow> exn + bool" where
  "declares_competing_event s now sn event_name =
     (case dget (services s) sn of
        None \<Rightarrow> Inr False
      | Some insts \<Rightarrow> declares_loop s now sn event_name insts)"

section \<open>The registry as a state machine\<close>

datatype reg_event =
    OnRegister clock "exn + pyval"
  | OnUnregister clock "exn + pyval"
  | OnHeartbeat clock "exn + pyval"
  | OnMonitor clock

fun reg_step :: "registry \<Rightarrow> reg_event \<Rightarrow> registry" where
  "reg_step s (OnRegister c loaded) = snd (handle_register c loaded s)"
| "reg_step s (OnUnregister c loaded) = snd (handle_unregister c loaded s)"
| "reg_step s (OnHeartbeat c loaded) = snd (handle_heartbeat c loaded s)"
| "reg_step s (OnMonitor c) = snd (refresh_all_instance_statuses c s)"

lemma snd_py_except_log [simp]: "snd (py_except m log_error s) = snd (m s)"
  by (simp add: py_simps log_error_def split: prod.splits sum.splits option.splits)

lemma snd_process_message:
  "snd (process_message settle rq m s) =
     snd (io (settle rq (case fst (m s) of Inl e \<Rightarrow> Some e | Inr _ \<Rightarrow> None)) (snd (m s)))"
  by (simp add: py_simps split: prod.splits sum.splits list.splits reply.splits)

text \<open>A predicate on the component's own fields ignores what \<open>io\<close> does.\<close>

definition own_fields :: "registry \<Rightarrow> service_table \<times> (instance_key \<Rightarrow> int option) \<times>
    instance_key list \<times> (instance_key \<Rightarrow> pyval option) \<times> (instance_key \<Rightarrow> service_status option)"
where
  "own_fields s = (services s, heartbeats s, degraded_services s, degraded_reasons s,
     tracked_status s)"

lemma io_own_fields [simp]: "own_fields (snd (io e s)) = own_fields s"
  by (simp add: io_def own_fields_def split: list.splits reply.splits)

lemma own_fields_simps:
  fixes s :: registry
  shows "services (snd (io e s)) = services s" "heartbeats (snd (io e s)) = heartbeats s"
  "degraded_services (snd (io e s)) = degraded_services s"
  "degraded_reasons (snd (io e s)) = degraded_reasons s"
  "tracked_status (snd (io e s)) = tracked_status s"
  using io_own_fields[of e s] by (simp_all add: own_fields_def)

lemma snd_publish: "snd (publish_registry_event ty p s) = snd (io (PublishEvent ty p) s)"
  by (simp add: publish_registry_event_def py_simps split: prod.splits sum.splits list.splits reply.splits)

lemma snd_set_tracked: "snd (set_tracked k st s) = s\<lparr>tracked_status := (tracked_status s)(k := st)\<rparr>"
  by (simp add: set_tracked_def py_simps)

subsection \<open>The table and the health records stay consistent\<close>

definition reg_ok :: "registry \<Rightarrow> bool" where
  "reg_ok s \<longleftrightarrow> table_ok (services s) \<and> distinct (degraded_services s) \<and>
     dom (degraded_reasons s) \<subseteq> set (degraded_services s) \<and>
     set (degraded_services s) \<subseteq> dom (heartbeats s)"

lemma reg_ok_io [simp]: "reg_ok (snd (io e s)) = reg_ok s"
  by (simp add: reg_ok_def own_fields_simps)

lemma reg_ok_tracked [simp]: "reg_ok (s\<lparr>tracked_status := m\<rparr>) = reg_ok s"
  by (simp add: reg_ok_def)

lemma snd_then_publish_tracked:
  "snd (py_then (publish_registry_event ty p) (set_tracked k st) s) =
     (case io (PublishEvent ty p) s of
        (Inl e, t) \<Rightarrow> t
      | (Inr v, t) \<Rightarrow> t\<lparr>tracked_status := (tracked_status t)(k := st)\<rparr>)"
  by (simp add: publish_registry_event_def set_tracked_def py_simps
      split: prod.splits sum.splits list.splits reply.splits)

lemma reg_ok_publish_tracked:
  "reg_ok (snd (py_then (publish_registry_event ty p) (set_tracked k st) s)) = reg_ok s"
  using reg_ok_io[of "PublishEvent ty p" s]
  by (auto simp: snd_then_publish_tracked split: prod.splits sum.splits simp del: reg_ok_io)

lemma reg_ok_refresh: "reg_ok (snd (refresh_instance_status c sn iid reason s)) = reg_ok s"
proof -
  have "reg_ok (snd (py_then (set_tracked k st) (publish_registry_event ty p) s)) = reg_ok s"
    for k st ty p
    by (simp add: set_tracked_def py_then_run py_modify_run snd_publish split: prod.splits)
  then show ?thesis
    by (auto simp: refresh_instance_status_def snd_set_tracked split: option.splits sum.splits)
qed

lemma reg_ok_each:
  "(\<And>x t. reg_ok (snd (f x t)) = reg_ok t) \<Longrightarrow> reg_ok (snd (py_each f xs s)) = reg_ok s"
proof (induction xs arbitrary: s)
  case (Cons x xs)
  obtain r t where ft: "f x s = (r, t)" by fastforce
  have "reg_ok t = reg_ok s" using Cons.prems[of x s] ft by simp
  moreover have "reg_ok (snd (py_each f xs t)) = reg_ok t" by (rule Cons.IH) (rule Cons.prems)
  ultimately show ?case using ft by (cases r) (simp_all add: py_each_run_Cons)
qed (simp add: py_simps)

lemma reg_ok_record_degraded:
  assumes "reg_ok s"
  shows "reg_ok ((record_degraded k d r s)\<lparr>heartbeats := (heartbeats s)(k \<mapsto> t)\<rparr>)"
  using assms by (auto simp: reg_ok_def record_degraded_def Let_def)

lemma record_degraded_services [simp]:
  "services (record_degraded k d r s) = services s"
  "tracked_status (record_degraded k d r s) = tracked_status s"
  "script (record_degraded k d r s) = script s"
  "trace (record_degraded k d r s) = trace s"
  by (simp_all add: record_degraded_def Let_def)

lemma reg_ok_register:
  "reg_ok s \<Longrightarrow> reg_ok (snd (handle_register c loaded s))"
proof -
  assume ok: "reg_ok s"
  have put: "reg_ok (s\<lparr>services := put_instance k d (services s)\<rparr>)" for k d
    using ok by (simp add: reg_ok_def put_instance_ok)
  have "reg_ok (snd (on_instance_registered c k d t)) = reg_ok t" for k d t
    by (simp add: on_instance_registered_def py_bind_run py_lift_run reg_ok_publish_tracked
        split: sum.splits)
  with ok put show ?thesis
    by (simp add: handle_register_def snd_process_message py_bind_run py_lift_run py_then_run
        py_modify_run Let_def split: sum.splits prod.splits)
qed

lemma reg_ok_unregister:
  "reg_ok s \<Longrightarrow> reg_ok (snd (handle_unregister c loaded s))"
proof -
  assume ok: "reg_ok s"
  have del: "reg_ok (s\<lparr>services := del_instance k (services s)\<rparr>)" for k
    using ok by (simp add: reg_ok_def del_instance_ok)
  have "reg_ok (snd (on_instance_deregistered c a b t)) = reg_ok t" for a b t
    by (simp add: on_instance_deregistered_def reg_ok_publish_tracked)
  with ok del show ?thesis
    by (simp add: handle_unregister_def snd_process_message py_bind_run py_lift_run py_then_run
        py_modify_run py_if_run py_return_run split: sum.splits prod.splits)
qed

lemma reg_ok_store_heartbeat:
  "reg_ok s \<Longrightarrow> reg_ok (snd (store_heartbeat c sn iid degraded reason s))"
proof -
  assume ok: "reg_ok s"
  have "snd (py_then (io e) (py_return ()) t) = snd (io e t)" for e and t :: registry
    by (simp add: py_simps split: prod.splits sum.splits list.splits reply.splits)
  with ok show ?thesis
    by (simp add: store_heartbeat_def py_if_run py_then_run[where m = "py_modify f" for f]
        py_modify_run reg_ok_refresh reg_ok_record_degraded py_return_run)
qed

lemma reg_step_ok: "reg_ok s \<Longrightarrow> reg_ok (reg_step s ev)"
proof (cases ev)
  case (OnHeartbeat c loaded)
  assume ok: "reg_ok s"
  with OnHeartbeat show ?thesis
    by (auto simp: handle_heartbeat_def snd_process_message py_bind_run py_lift_run
        reg_ok_store_heartbeat split: sum.splits prod.splits)
next
  case (OnMonitor c)
  assume "reg_ok s"
  with OnMonitor show ?thesis
    using reg_ok_each[of "\<lambda>(sn, iid). refresh_instance_status c sn iid VNone"]
    by (simp add: refresh_all_instance_statuses_def reg_ok_refresh split: prod.splits)
qed (auto simp: reg_ok_register reg_ok_unregister)

interpretation reg_health: invariant_system reg_step reg_ok
  by unfold_locales (rule reg_step_ok)

lemma reg_ok_init: "reg_ok (registry_init t answers)"
  by (simp add: reg_ok_def registry_init_def table_ok_def)

subsection \<open>What a subscriber of the registry events knows\<close>

text \<open>
  The abstract specification of the published events: a subscriber that starts with no knowledge
  and applies them in order. A registration makes the instance known and down, a deregistration
  forgets it, and a status change must start from the status the subscriber has and go to another
  one; otherwise the subscriber has missed something and the feed is broken (\<open>None\<close>).
\<close>

type_synonym view = "instance_key \<Rightarrow> service_status option"

definition payload_name :: "pydict \<Rightarrow> string \<Rightarrow> string option" where
  "payload_name p k = (case dget p k of Some (VStr s) \<Rightarrow> Some s | _ \<Rightarrow> None)"

definition feed_event :: "view \<Rightarrow> string \<Rightarrow> pydict \<Rightarrow> view option" where
  "feed_event v ty p =
     (case (payload_name p ''service_name'', payload_name p ''instance_id'') of
        (Some sn, Some iid) \<Rightarrow>
          if ty = INSTANCE_REGISTERED then Some (v((sn, iid) := Some DOWN))
          else if ty = INSTANCE_DEREGISTERED then Some (v((sn, iid) := None))
          else if ty = INSTANCE_STATUS_CHANGED then
            (case (Option.bind (payload_name p ''previous_status'') service_status_of,
                   Option.bind (payload_name p ''new_status'') service_status_of) of
               (Some a, Some b) \<Rightarrow>
                 if v (sn, iid) = Some a \<and> a \<noteq> b then Some (v((sn, iid) := Some b)) else None
             | _ \<Rightarrow> None)
          else Some v
      | _ \<Rightarrow> Some v)"

fun feed_step :: "view option \<Rightarrow> reg_effect \<Rightarrow> view option" where
  "feed_step (Some v) (PublishEvent ty p) = feed_event v ty p"
| "feed_step v _ = v"

definition feed :: "reg_effect list \<Rightarrow> view option" where
  "feed es = foldl feed_step (Some (\<lambda>_. None)) es"

lemma feed_snoc [simp]: "feed (es @ [e]) = feed_step (feed es) e"
  by (simp add: feed_def)

lemma feed_registered:
  assumes "dget d ''service_name'' = Some (VStr sn)" "dget d ''instance_id'' = Some (VStr iid)"
    and "registered_payload ts d = Inr p"
  shows "feed_event v INSTANCE_REGISTERED p = Some (v((sn, iid) := Some DOWN))"
  using assms by (auto simp: registered_payload_def feed_event_def payload_name_def)

lemma feed_deregistered:
  "feed_event v INSTANCE_DEREGISTERED (deregistered_payload ts sn iid) = Some (v((sn, iid) := None))"
  by (simp add: deregistered_payload_def feed_event_def payload_name_def registry_event_names)

lemma feed_status_changed:
  assumes "v (sn, iid) = Some a" "a \<noteq> b"
  shows "feed_event v INSTANCE_STATUS_CHANGED (status_changed_payload ts sn iid a b r) =
    Some (v((sn, iid) := Some b))"
  using assms
  by (simp add: status_changed_payload_def feed_event_def payload_name_def registry_event_names)

text \<open>
  The subscriber's view is the tracked status, and exactly the registered instances are tracked,
  as long as the broker takes every event.
\<close>

definition feed_inv :: "registry \<Rightarrow> bool" where
  "feed_inv s \<longleftrightarrow> no_failure s \<and> feed (completed s) = Some (tracked_status s) \<and>
     (\<forall>key. get_instance (services s) key \<noteq> None \<longleftrightarrow> tracked_status s key \<noteq> None)"

lemma io_no_failure:
  fixes s :: registry
  assumes "no_failure s"
  obtains v r where "io e s = (Inr v, s\<lparr>script := r, trace := trace s @ [(e, True)]\<rparr>)"
    "\<forall>x. Raises x \<notin> set r"
  using assms by (cases rule: io_cases[of e s]) (auto simp: no_failure_def)

lemma completed_append:
  "completed (s\<lparr>script := r, trace := trace s @ [(e, True)]\<rparr>) = completed s @ [e]"
  by (simp add: completed_def)

lemma completed_upd [simp]:
  fixes s :: registry
  shows "completed (s\<lparr>services := a\<rparr>) = completed s"
    "completed (s\<lparr>tracked_status := b\<rparr>) = completed s"
    "completed (s\<lparr>heartbeats := h\<rparr>) = completed s"
    "completed (record_degraded k d q s) = completed s"
  by (simp_all add: completed_def)

lemma no_failure_upd [simp]:
  fixes s :: registry
  shows "no_failure (s\<lparr>services := a\<rparr>) = no_failure s"
    "no_failure (s\<lparr>tracked_status := b\<rparr>) = no_failure s"
    "no_failure (s\<lparr>heartbeats := h\<rparr>) = no_failure s"
    "no_failure (record_degraded k d q s) = no_failure s"
  by (simp_all add: no_failure_def)

lemma feed_inv_settle:
  "feed_inv s \<Longrightarrow> feed_inv (snd (io (Settle b x) s))"
proof -
  assume inv: "feed_inv s"
  then have "no_failure s" by (simp add: feed_inv_def)
  then obtain v r where "io (Settle b x) s = (Inr v, s\<lparr>script := r, trace := trace s @ [(Settle b x, True)]\<rparr>)"
    "\<forall>x. Raises x \<notin> set r" by (rule io_no_failure)
  with inv show ?thesis by (simp add: feed_inv_def completed_append no_failure_def)
qed

lemma feed_inv_admin:
  "feed_inv s \<Longrightarrow> feed_inv (snd (io (PublishAdmin k) s))"
proof -
  assume inv: "feed_inv s"
  then have "no_failure s" by (simp add: feed_inv_def)
  then obtain v r where "io (PublishAdmin k) s = (Inr v, s\<lparr>script := r, trace := trace s @ [(PublishAdmin k, True)]\<rparr>)"
    "\<forall>x. Raises x \<notin> set r" by (rule io_no_failure)
  with inv show ?thesis by (simp add: feed_inv_def completed_append no_failure_def)
qed

text \<open>Publishing an event and updating the tracked status accordingly, in either order.\<close>

lemma feed_publish_then_track:
  fixes s :: registry
  assumes "no_failure s" "feed (completed s) = Some v"
    and "feed_event v ty p = Some (v(k := st))"
  obtains v' r where
    "py_then (publish_registry_event ty p) (set_tracked k st) s =
       (Inr (), s\<lparr>script := r, trace := trace s @ [(PublishEvent ty p, True)],
          tracked_status := (tracked_status s)(k := st)\<rparr>)"
    "\<forall>x. Raises x \<notin> set r"
    "feed (completed s @ [PublishEvent ty p]) = Some (v(k := st))"
proof -
  obtain v' r where io: "io (PublishEvent ty p) s =
      (Inr v', s\<lparr>script := r, trace := trace s @ [(PublishEvent ty p, True)]\<rparr>)"
    "\<forall>x. Raises x \<notin> set r" using assms(1) by (rule io_no_failure)
  then show ?thesis
    using assms that[of r] by (simp add: publish_registry_event_def set_tracked_def py_then_run
        py_modify_run py_return_run)
qed

lemma feed_inv_refresh:
  assumes inv: "feed_inv s"
  shows "feed_inv (snd (refresh_instance_status c sn iid reason s))"
proof (cases "get_instance (services s) (sn, iid)")
  case None
  with inv show ?thesis by (simp add: refresh_instance_status_def)
next
  case (Some data)
  then have has: "has_service_instance s sn iid" by (simp add: has_service_instance_iff)
  show ?thesis
  proof (cases "instance_status s (now_us c) sn iid data")
    case (Inl e)
    with has Some inv show ?thesis by (simp add: refresh_instance_status_def)
  next
    case (Inr st)
    obtain old where old: "tracked_status s (sn, iid) = Some old"
      using inv Some by (auto simp: feed_inv_def)
    show ?thesis
    proof (cases "old = st")
      case True
      with has Some Inr old inv show ?thesis by (simp add: refresh_instance_status_def)
    next
      case False
      let ?p = "status_changed_payload (now_iso c) sn iid old st reason"
      let ?t = "s\<lparr>tracked_status := (tracked_status s)((sn, iid) := Some st)\<rparr>"
      have "no_failure ?t" using inv by (simp add: feed_inv_def)
      then obtain v r where io: "io (PublishEvent INSTANCE_STATUS_CHANGED ?p) ?t =
          (Inr v, ?t\<lparr>script := r, trace := trace ?t @ [(PublishEvent INSTANCE_STATUS_CHANGED ?p, True)]\<rparr>)"
        "\<forall>x. Raises x \<notin> set r" by (rule io_no_failure)
      have "snd (refresh_instance_status c sn iid reason s) =
          snd (io (PublishEvent INSTANCE_STATUS_CHANGED ?p) ?t)"
        using has Some Inr old False
        by (simp add: refresh_instance_status_def py_then_run set_tracked_def py_modify_run snd_publish)
      with io inv feed_status_changed[of "tracked_status s" sn iid old st] old False Some
      show ?thesis
        by (auto simp: feed_inv_def completed_def no_failure_def simp flip: completed_def)
    qed
  qed
qed

lemma feed_inv_each:
  assumes "\<And>x t. feed_inv t \<Longrightarrow> feed_inv (snd (f x t))"
  shows "feed_inv s \<Longrightarrow> feed_inv (snd (py_each f xs s))"
proof (induction xs arbitrary: s)
  case (Cons x xs)
  obtain r t where ft: "f x s = (r, t)" by fastforce
  have "feed_inv t" using assms[OF Cons.prems, of x] ft by simp
  with Cons.IH[of t] ft show ?case by (cases r) (simp_all add: py_each_run_Cons)
qed (simp add: py_simps)

lemma read_identity_Inr:
  "read_identity loaded = Inr ((sn, iid), d) \<Longrightarrow>
     loaded = Inr (VDict d) \<and> dget d ''service_name'' = Some (VStr sn) \<and>
     dget d ''instance_id'' = Some (VStr iid)"
  by (auto simp: read_identity_def as_name_def split: sum.splits pyval.splits option.splits)

lemma feed_inv_register:
  assumes inv: "feed_inv s"
  shows "feed_inv (snd (handle_register c loaded s))"
proof (cases "read_identity loaded")
  case (Inl e)
  with inv show ?thesis
    by (simp add: handle_register_def snd_process_message py_bind_run py_lift_run feed_inv_settle)
next
  case (Inr r)
  then obtain sn iid d where id: "read_identity loaded = Inr ((sn, iid), d)" by (cases r) auto
  define data where "data = dset ''group''
      (VStr (normalize_registration_group (dget_default d ''group'' VNone))) d"
  have names: "dget data ''service_name'' = Some (VStr sn)" "dget data ''instance_id'' = Some (VStr iid)"
    using read_identity_Inr[OF id] by (simp_all add: data_def)
  then obtain p where p: "registered_payload (now_iso c) data = Inr p"
    by (simp add: registered_payload_def)
  let ?t = "s\<lparr>services := put_instance (sn, iid) data (services s)\<rparr>"
  have nf: "no_failure ?t" "feed (completed ?t) = Some (tracked_status s)"
    using inv by (simp_all add: feed_inv_def)
  obtain v' r where run:
    "py_then (publish_registry_event INSTANCE_REGISTERED p) (set_tracked (sn, iid) (Some DOWN)) ?t =
       (Inr (), ?t\<lparr>script := r, trace := trace ?t @ [(PublishEvent INSTANCE_REGISTERED p, True)],
          tracked_status := (tracked_status ?t)((sn, iid) := Some DOWN)\<rparr>)"
    "\<forall>x. Raises x \<notin> set r"
    "feed (completed ?t @ [PublishEvent INSTANCE_REGISTERED p]) =
       Some ((tracked_status s)((sn, iid) := Some DOWN))"
    by (rule feed_publish_then_track[OF nf feed_registered[OF names p]])
  have "feed_inv (snd (on_instance_registered c (sn, iid) data ?t))"
    using run inv
    by (auto simp: on_instance_registered_def py_bind_run py_lift_run p feed_inv_def no_failure_def
        get_put_instance completed_def)
  with id show ?thesis
    by (simp add: handle_register_def snd_process_message py_bind_run py_lift_run py_then_run
        py_modify_run Let_def data_def feed_inv_settle)
qed

lemma feed_inv_unregister:
  assumes inv: "feed_inv s"
  shows "feed_inv (snd (handle_unregister c loaded s))"
proof (cases "read_identity loaded")
  case (Inl e)
  with inv show ?thesis
    by (simp add: handle_unregister_def snd_process_message py_bind_run py_lift_run feed_inv_settle)
next
  case (Inr r)
  then obtain sn iid d where id: "read_identity loaded = Inr ((sn, iid), d)" by (cases r) auto
  let ?t = "s\<lparr>services := del_instance (sn, iid) (services s)\<rparr>"
  have nf: "no_failure ?t" "feed (completed ?t) = Some (tracked_status s)"
    using inv by (simp_all add: feed_inv_def)
  let ?p = "deregistered_payload (now_iso c) sn iid"
  obtain v' r where run:
    "py_then (publish_registry_event INSTANCE_DEREGISTERED ?p) (set_tracked (sn, iid) None) ?t =
       (Inr (), ?t\<lparr>script := r, trace := trace ?t @ [(PublishEvent INSTANCE_DEREGISTERED ?p, True)],
          tracked_status := (tracked_status ?t)((sn, iid) := None)\<rparr>)"
    "\<forall>x. Raises x \<notin> set r"
    "feed (completed ?t @ [PublishEvent INSTANCE_DEREGISTERED ?p]) =
       Some ((tracked_status s)((sn, iid) := None))"
    by (rule feed_publish_then_track[OF nf feed_deregistered])
  have "feed_inv (snd (on_instance_deregistered c sn iid ?t))"
    using run inv
    by (auto simp: on_instance_deregistered_def feed_inv_def no_failure_def get_del_instance
        completed_def)
  with id inv show ?thesis
    by (auto simp: handle_unregister_def snd_process_message py_bind_run py_lift_run py_then_run
        py_modify_run py_if_run py_return_run feed_inv_settle)
qed

lemma feed_inv_store_heartbeat:
  assumes inv: "feed_inv s"
  shows "feed_inv (snd (store_heartbeat c sn iid degraded reason s))"
proof -
  have "snd (py_then (io e) (py_return ()) t) = snd (io e t)" for e and t :: registry
    by (simp add: py_simps split: prod.splits sum.splits list.splits reply.splits)
  moreover have "feed_inv ((record_degraded k d q s)\<lparr>heartbeats := h\<rparr>)" for k d q h
    using inv by (simp add: feed_inv_def)
  ultimately show ?thesis
    using inv
    by (simp add: store_heartbeat_def py_if_run py_then_run[where m = "py_modify f" for f]
        py_modify_run feed_inv_refresh feed_inv_admin py_return_run)
qed

lemma feed_step_inv: "feed_inv s \<Longrightarrow> feed_inv (reg_step s ev)"
proof (cases ev)
  case (OnHeartbeat c loaded)
  assume "feed_inv s"
  with OnHeartbeat show ?thesis
    by (auto simp: handle_heartbeat_def snd_process_message py_bind_run py_lift_run
        feed_inv_store_heartbeat feed_inv_settle split: sum.splits prod.splits)
next
  case (OnMonitor c)
  assume "feed_inv s"
  with OnMonitor show ?thesis
    using feed_inv_each[of "\<lambda>(sn, iid). refresh_instance_status c sn iid VNone"]
    by (simp add: refresh_all_instance_statuses_def feed_inv_refresh split: prod.splits)
qed (auto simp: feed_inv_register feed_inv_unregister)

interpretation reg_feed: invariant_system reg_step feed_inv
  by unfold_locales (rule feed_step_inv)

lemma feed_inv_init:
  assumes "\<forall>x. Raises x \<notin> set answers"
  shows "feed_inv (registry_init t answers)"
  using assms
  by (simp add: feed_inv_def registry_init_def no_failure_def feed_def completed_def get_instance_def)

section \<open>The queries report exactly the live instances\<close>

definition interval_of :: "pydict \<Rightarrow> pyval" where
  "interval_of data = dget_default data ''heartbeat_interval'' (VInt 10)"

text \<open>The allowed silence of an instance in microseconds: three heartbeat intervals.\<close>

definition silence_us :: "pydict \<Rightarrow> int" where
  "silence_us data =
     (case interval_of data of
        VInt i \<Rightarrow> 3 * i * 1000000
      | VFloat r \<Rightarrow> round_half_even (r * 3 * 1000000)
      | VBool b \<Rightarrow> if b then 3000000 else 0
      | _ \<Rightarrow> 30000000)"

text \<open>An interval that is a number (or not given), and three of which a \<open>timedelta\<close> can hold.\<close>

definition interval_ok :: "pydict \<Rightarrow> bool" where
  "interval_ok data \<longleftrightarrow>
     (interval_of data = VNone \<or> number_value (interval_of data) \<noteq> None) \<and>
     \<bar>silence_us data div DAY_US\<bar> \<le> MAX_DELTA_DAYS"

definition status_spec :: "registry \<Rightarrow> int \<Rightarrow> string \<Rightarrow> string \<Rightarrow> pydict \<Rightarrow> service_status" where
  "status_spec s now sn iid data =
     (case heartbeats s (sn, iid) of
        None \<Rightarrow> DOWN
      | Some t \<Rightarrow>
          if now - t > silence_us data then DOWN
          else if (sn, iid) \<in> set (degraded_services s) then DEGRADED else ACTIVE)"

lemma timedelta_us_silence:
  "interval_ok data \<Longrightarrow> silence_us data = us \<Longrightarrow> timedelta_us us = Inr us"
  by (auto simp: interval_ok_def timedelta_us_def)

lemma instance_status_spec:
  assumes "interval_ok data"
  shows "instance_status s now sn iid data = Inr (status_spec s now sn iid data)"
  using assms timedelta_us_silence[OF assms] unfolding interval_ok_def
  by (cases "interval_of data")
    (auto simp: instance_status_def interval_of_def get_timeout_def default_timeout_factor_def
      get_instance_status_def get_last_heartbeat_def is_degraded_def status_spec_def silence_us_def
      mult.commute split: option.splits)

definition intervals_ok :: "service_table \<Rightarrow> bool" where
  "intervals_ok svcs \<longleftrightarrow> list_all (\<lambda>(sn, insts). list_all (\<lambda>(iid, d). interval_ok d) insts) svcs"

lemma intervals_ok_entry:
  "intervals_ok svcs \<Longrightarrow> dget svcs sn = Some insts \<Longrightarrow> (iid, d) \<in> set insts \<Longrightarrow> interval_ok d"
  by (fastforce simp: intervals_ok_def list_all_iff dest: map_of_SomeD)

lemma live_loop_spec:
  "(\<And>iid d. (iid, d) \<in> set insts \<Longrightarrow> interval_ok d) \<Longrightarrow>
     live_loop s now sn insts live =
       Inr (live @ map fst (filter (\<lambda>(iid, d). live_status (status_spec s now sn iid d)) insts))"
proof (induction s now sn insts live rule: live_loop.induct)
  case (2 s now sn iid data rest live)
  have "interval_ok data" "\<And>i d. (i, d) \<in> set rest \<Longrightarrow> interval_ok d" using "2.prems" by auto
  with "2.IH" show ?case by (simp add: instance_status_spec)
qed simp

lemma any_live_loop_spec:
  "(\<And>iid d. (iid, d) \<in> set insts \<Longrightarrow> interval_ok d) \<Longrightarrow>
     any_live_loop s now sn insts =
       Inr (list_ex (\<lambda>(iid, d). live_status (status_spec s now sn iid d)) insts)"
proof (induction s now sn insts rule: any_live_loop.induct)
  case (2 s now sn iid data rest)
  have "interval_ok data" "\<And>i d. (i, d) \<in> set rest \<Longrightarrow> interval_ok d" using "2.prems" by auto
  with "2.IH" show ?case by (simp add: instance_status_spec)
qed simp

definition live_instances :: "registry \<Rightarrow> int \<Rightarrow> string \<Rightarrow> string set" where
  "live_instances s now sn =
     {iid. \<exists>d. get_instance (services s) (sn, iid) = Some d \<and> live_status (status_spec s now sn iid d)}"

lemma live_instances_table:
  "table_ok (services s) \<Longrightarrow> dget (services s) sn = Some insts \<Longrightarrow>
     live_instances s now sn =
       set (map fst (filter (\<lambda>(iid, d). live_status (status_spec s now sn iid d)) insts))"
  by (force simp: live_instances_def get_instance_def dget_iff_mem dest: table_ok_entry)

lemma live_instances_none: "dget (services s) sn = None \<Longrightarrow> live_instances s now sn = {}"
  by (simp add: live_instances_def get_instance_def)

lemma list_instances_spec:
  assumes "table_ok (services s)" "intervals_ok (services s)" "strip sn \<noteq> []"
  obtains xs where "list_instances s now (VStr sn) = Inr xs" "sorted xs" "distinct xs"
    "set xs = live_instances s now sn"
proof (cases "dget (services s) sn")
  case None
  with assms(3) that[of "[]"] show ?thesis by (simp add: list_instances_def live_instances_none)
next
  case (Some insts)
  let ?live = "map fst (filter (\<lambda>(iid, d). live_status (status_spec s now sn iid d)) insts)"
  have "live_loop s now sn insts [] = Inr ?live"
    using live_loop_spec intervals_ok_entry[OF assms(2) Some] by simp
  with Some assms(3) have "list_instances s now (VStr sn) = Inr (sort ?live)"
    by (simp add: list_instances_def)
  moreover have "distinct ?live"
    using table_ok_entry[OF assms(1) Some] by (simp add: distinct_map_filter)
  ultimately show ?thesis
    using that live_instances_table[OF assms(1) Some] by simp
qed

lemma is_live_spec:
  assumes "table_ok (services s)" "intervals_ok (services s)" "sn \<noteq> own"
  shows "is_live s now own sn = Inr (live_instances s now sn \<noteq> {})"
proof (cases "dget (services s) sn")
  case None
  with assms(3) show ?thesis by (simp add: is_live_def live_instances_none)
next
  case (Some insts)
  then have "any_live_loop s now sn insts =
      Inr (list_ex (\<lambda>(iid, d). live_status (status_spec s now sn iid d)) insts)"
    using any_live_loop_spec intervals_ok_entry[OF assms(2) Some] by simp
  with Some assms(3) live_instances_table[OF assms(1) Some] show ?thesis
    by (auto simp: is_live_def list_ex_iff filter_empty_conv)
qed

subsection \<open>A heartbeat sets the status for the next three intervals\<close>

lemma io_fields_kept:
  fixes s :: registry
  shows "get_instance (services (snd (io e s))) k = get_instance (services s) k"
    "status_spec (snd (io e s)) now sn iid d = status_spec s now sn iid d"
  by (simp_all add: own_fields_simps status_spec_def)

lemma set_tracked_status_spec [simp]:
  "status_spec (s\<lparr>tracked_status := m\<rparr>) now sn iid d = status_spec s now sn iid d"
  by (simp add: status_spec_def)

lemma refresh_fields_kept:
  shows "services (snd (refresh_instance_status c sn iid r s)) = services s"
    and "status_spec (snd (refresh_instance_status c sn iid r s)) now a b d = status_spec s now a b d"
proof -
  have "own_fields (snd (py_then (set_tracked k st) (publish_registry_event ty p) s)) =
      own_fields (s\<lparr>tracked_status := (tracked_status s)(k := st)\<rparr>)" for k st ty p
    by (simp add: set_tracked_def py_then_run py_modify_run snd_publish)
  then have "services (snd (refresh_instance_status c sn iid r s)) = services s \<and>
      heartbeats (snd (refresh_instance_status c sn iid r s)) = heartbeats s \<and>
      degraded_services (snd (refresh_instance_status c sn iid r s)) = degraded_services s"
    by (auto simp: refresh_instance_status_def snd_set_tracked own_fields_def
        split: option.splits sum.splits)
  then show "services (snd (refresh_instance_status c sn iid r s)) = services s"
    "status_spec (snd (refresh_instance_status c sn iid r s)) now a b d = status_spec s now a b d"
    by (auto simp: status_spec_def)
qed

lemma store_heartbeat_known:
  assumes "get_instance (services s) (sn, iid) = Some data" "distinct (degraded_services s)"
  shows "services (snd (store_heartbeat c sn iid degraded reason s)) = services s"
    and "status_spec (snd (store_heartbeat c sn iid degraded reason s)) now sn iid data =
      (if now - now_us c > silence_us data then DOWN
       else if truthy degraded then DEGRADED else ACTIVE)"
proof -
  have has: "has_service_instance s sn iid" using assms(1) by (simp add: has_service_instance_iff)
  let ?t = "(record_degraded (sn, iid) degraded reason s)\<lparr>heartbeats := (heartbeats s)((sn, iid) \<mapsto> now_us c)\<rparr>"
  have run: "snd (store_heartbeat c sn iid degraded reason s) =
      snd (refresh_instance_status c sn iid (if truthy degraded then reason else VNone) ?t)"
    using has by (simp add: store_heartbeat_def py_if_run py_then_run py_modify_run)
  show "services (snd (store_heartbeat c sn iid degraded reason s)) = services s"
    by (simp add: run refresh_fields_kept)
  have "(sn, iid) \<in> set (degraded_services ?t) \<longleftrightarrow> truthy degraded"
    using assms(2) by (simp add: record_degraded_def Let_def)
  then show "status_spec (snd (store_heartbeat c sn iid degraded reason s)) now sn iid data =
      (if now - now_us c > silence_us data then DOWN
       else if truthy degraded then DEGRADED else ACTIVE)"
    unfolding run refresh_fields_kept by (simp add: status_spec_def)
qed

subsection \<open>A monitoring pass brings every status up to date\<close>

lemma refresh_tracks:
  assumes "feed_inv s" "get_instance (services s) (sn, iid) = Some data" "interval_ok data"
  shows "fst (refresh_instance_status c sn iid r s) = Inr ()"
    and "tracked_status (snd (refresh_instance_status c sn iid r s)) =
      (tracked_status s)((sn, iid) := Some (status_spec s (now_us c) sn iid data))"
proof -
  have has: "has_service_instance s sn iid" using assms(2) by (simp add: has_service_instance_iff)
  obtain old where old: "tracked_status s (sn, iid) = Some old"
    using assms(1,2) by (auto simp: feed_inv_def)
  let ?st = "status_spec s (now_us c) sn iid data"
  let ?t = "s\<lparr>tracked_status := (tracked_status s)((sn, iid) := Some ?st)\<rparr>"
  let ?e = "PublishEvent INSTANCE_STATUS_CHANGED (status_changed_payload (now_iso c) sn iid old ?st r)"
  have "no_failure ?t" using assms(1) by (simp add: feed_inv_def)
  then obtain v q where io: "io ?e ?t = (Inr v, ?t\<lparr>script := q, trace := trace ?t @ [(?e, True)]\<rparr>)"
    by (rule io_no_failure)
  have "refresh_instance_status c sn iid r s =
      (if old = ?st then (Inr (), s)
       else (Inr (), ?t\<lparr>script := q, trace := trace ?t @ [(?e, True)]\<rparr>))"
    using has assms(2,3) old io
    by (simp add: refresh_instance_status_def instance_status_spec set_tracked_def py_then_run
        py_modify_run publish_registry_event_def py_return_run)
  with old show "fst (refresh_instance_status c sn iid r s) = Inr ()"
    "tracked_status (snd (refresh_instance_status c sn iid r s)) =
      (tracked_status s)((sn, iid) := Some ?st)"
    by auto
qed

lemma refresh_each_tracks:
  assumes "\<And>sn iid. (sn, iid) \<in> set keys \<Longrightarrow>
      \<exists>d. get_instance (services s) (sn, iid) = Some d \<and> interval_ok d"
    and "feed_inv s"
  shows "tracked_status (snd (py_each (\<lambda>(sn, iid). refresh_instance_status c sn iid VNone) keys s)) =
    (\<lambda>(sn, iid). if (sn, iid) \<in> set keys
       then Some (status_spec s (now_us c) sn iid (the (get_instance (services s) (sn, iid))))
       else tracked_status s (sn, iid))"
  using assms
proof (induction keys arbitrary: s)
  case Nil
  then show ?case by (auto simp: py_simps)
next
  case (Cons k keys)
  obtain sn iid where k: "k = (sn, iid)" by fastforce
  obtain d where d: "get_instance (services s) (sn, iid) = Some d" "interval_ok d"
    using Cons.prems(1)[of sn iid] k by auto
  let ?t = "snd (refresh_instance_status c sn iid VNone s)"
  note tr = refresh_tracks[OF Cons.prems(2) d, of c VNone]
  have inv: "feed_inv ?t" by (rule feed_inv_refresh[OF Cons.prems(2)])
  obtain t where "refresh_instance_status c sn iid VNone s = (Inr (), t)"
    using tr(1) by (metis prod.collapse)
  then have "py_each (\<lambda>(sn, iid). refresh_instance_status c sn iid VNone) (k # keys) s =
      py_each (\<lambda>(sn, iid). refresh_instance_status c sn iid VNone) keys ?t"
    by (simp add: py_each_run_Cons k)
  moreover have "tracked_status (snd (py_each (\<lambda>(sn, iid). refresh_instance_status c sn iid VNone) keys ?t)) =
      (\<lambda>(a, b). if (a, b) \<in> set keys
         then Some (status_spec ?t (now_us c) a b (the (get_instance (services ?t) (a, b))))
         else tracked_status ?t (a, b))"
    by (rule Cons.IH) (use Cons.prems(1) inv in \<open>auto simp: refresh_fields_kept\<close>)
  ultimately show ?case using tr(2) d by (auto simp: k refresh_fields_kept fun_eq_iff)
qed

lemma set_all_instances:
  "table_ok svcs \<Longrightarrow> (sn, iid) \<in> set (all_instances svcs) \<longleftrightarrow> get_instance svcs (sn, iid) \<noteq> None"
proof
  assume ok: "table_ok svcs"
  then have dist: "distinct (map fst svcs)" by (simp add: table_ok_def)
  {
    assume "(sn, iid) \<in> set (all_instances svcs)"
    then obtain insts d where m: "(sn, insts) \<in> set svcs" "(iid, d) \<in> set insts"
      by (auto simp: all_instances_def)
    with ok dist have "dget svcs sn = Some insts" "dget insts iid = Some d"
      by (auto simp: dget_iff_mem table_ok_def)
    then show "get_instance svcs (sn, iid) \<noteq> None" by (simp add: get_instance_def)
  }
  assume "get_instance svcs (sn, iid) \<noteq> None"
  then obtain insts d where "dget svcs sn = Some insts" "dget insts iid = Some d"
    by (auto simp: get_instance_def split: option.splits)
  then show "(sn, iid) \<in> set (all_instances svcs)"
    by (force simp: all_instances_def dest: map_of_SomeD)
qed

lemma monitor_tracks:
  assumes "feed_inv s" "table_ok (services s)" "intervals_ok (services s)"
    and "get_instance (services s) (sn, iid) = Some d"
  shows "tracked_status (snd (refresh_all_instance_statuses c s)) (sn, iid) =
    Some (status_spec s (now_us c) sn iid d)"
proof -
  have h: "\<exists>d. get_instance (services s) (a, b) = Some d \<and> interval_ok d"
    if "(a, b) \<in> set (all_instances (services s))" for a b
  proof -
    from that assms(2) obtain d where d: "get_instance (services s) (a, b) = Some d"
      by (auto simp: set_all_instances)
    then obtain insts where "dget (services s) a = Some insts" "(b, d) \<in> set insts"
      by (auto simp: get_instance_def split: option.splits dest: map_of_SomeD)
    with intervals_ok_entry[OF assms(3)] d show ?thesis by blast
  qed
  show ?thesis
    using refresh_each_tracks[of "all_instances (services s)" s c, OF h assms(1)]
      set_all_instances[OF assms(2)] assms(4)
    by (simp add: refresh_all_instance_statuses_def)
qed

end
