(* ===== verification/Failed_Messages.thy ===== *)
theory Failed_Messages
  imports Configuration
begin

text \<open>
  The three operations of \<open>registry/server/core.py\<close> on the failed queue of a competing event:
  listing, replaying and dropping. The queue is the broker's: each \<open>queue.get\<close> is an awaited call
  whose answer is a message body or \<open>None\<close>, and what the code does with the messages it holds is
  recorded by their position in the order of reception. Decoding a body (\<open>json.loads\<close>) is a
  parameter that may raise.
\<close>

datatype fm_effect =
    OpenChannel
  | DeclarePassive string
  | GetFailed
  | Republish nat string pyval
  | AckFailed nat
  | NackFailed nat
  | CloseChannel

type_synonym fm_state = "fm_effect world"

type_synonym decoder = "pyval \<Rightarrow> exn + pyval"

text \<open>\<open>channel = await connection.channel(); try: body finally: await channel.close()\<close>.\<close>

definition with_channel :: "(fm_state, 'a) py \<Rightarrow> (fm_state, 'a) py" where
  "with_channel body =
     py_then (io OpenChannel) (py_finally body (py_then (io CloseChannel) (py_return ())))"

text \<open>The loop of \<open>list_failed_messages\<close>: every message is decoded as it is received.\<close>

fun list_loop :: "decoder \<Rightarrow> nat \<Rightarrow> pyval list \<Rightarrow> (fm_state, pyval list) py" where
  "list_loop decode 0 messages = py_return messages"
| "list_loop decode (Suc n) messages =
     py_bind (io GetFailed) (\<lambda>message.
       if message = VNone then py_return messages
       else py_bind (py_lift (decode message)) (\<lambda>m. list_loop decode n (messages @ [m])))"

definition list_failed_messages ::
  "decoder \<Rightarrow> string \<Rightarrow> string \<Rightarrow> int \<Rightarrow> (fm_state, pyval) py" where
  "list_failed_messages decode service_name event_name limit =
     with_channel
       (py_bind (io (DeclarePassive (failed_queue_name service_name event_name))) (\<lambda>count.
        py_bind (list_loop decode (nat limit) []) (\<lambda>messages.
        py_then (py_each (\<lambda>i. py_then (io (NackFailed i)) (py_return ())) [0..<length messages])
          (py_return (VDict [(''count'', count), (''messages'', VList messages)])))))"

text \<open>\<open>replay_failed_messages\<close> takes all the waiting messages before it publishes the first.\<close>

fun take_loop :: "nat \<Rightarrow> pyval list \<Rightarrow> (fm_state, pyval list) py" where
  "take_loop 0 waiting = py_return waiting"
| "take_loop (Suc n) waiting =
     py_bind (io GetFailed) (\<lambda>message.
       if message = VNone then py_return waiting else take_loop n (waiting @ [message]))"

fun replay_loop :: "decoder \<Rightarrow> string \<Rightarrow> pyval list \<Rightarrow> nat \<Rightarrow> (fm_state, nat) py" where
  "replay_loop decode event_name [] replayed = py_return replayed"
| "replay_loop decode event_name (message # rest) replayed =
     py_bind (py_lift (decode message)) (\<lambda>m.
       py_then (io (Republish replayed event_name m))
         (py_then (io (AckFailed replayed))
            (replay_loop decode event_name rest (replayed + 1))))"

definition replay_failed_messages ::
  "decoder \<Rightarrow> string \<Rightarrow> string \<Rightarrow> int \<Rightarrow> (fm_state, pyval) py" where
  "replay_failed_messages decode service_name event_name count =
     with_channel
       (py_then (io (DeclarePassive (failed_queue_name service_name event_name)))
         (py_bind (take_loop (nat count) []) (\<lambda>waiting.
          py_bind (replay_loop decode event_name waiting 0) (\<lambda>replayed.
          py_return (VDict [(''replayed'', VInt (int replayed))])))))"

fun drop_loop :: "nat \<Rightarrow> nat \<Rightarrow> (fm_state, nat) py" where
  "drop_loop 0 dropped = py_return dropped"
| "drop_loop (Suc n) dropped =
     py_bind (io GetFailed) (\<lambda>message.
       if message = VNone then py_return dropped
       else py_then (io (AckFailed dropped)) (drop_loop n (dropped + 1)))"

definition drop_failed_messages ::
  "string \<Rightarrow> string \<Rightarrow> int \<Rightarrow> (fm_state, pyval) py" where
  "drop_failed_messages service_name event_name count =
     with_channel
       (py_then (io (DeclarePassive (failed_queue_name service_name event_name)))
         (py_bind (drop_loop (nat count) 0) (\<lambda>dropped.
          py_return (VDict [(''dropped'', VInt (int dropped))]))))"

section \<open>What the operations leave in the trace\<close>

text \<open>The state after a computation extends the trace by the calls it made.\<close>

definition extends :: "fm_state \<Rightarrow> (fm_effect \<times> bool) list \<Rightarrow> fm_state \<Rightarrow> bool" where
  "extends s es t \<longleftrightarrow> trace t = trace s @ es"

lemma io_extends:
  obtains (ok) v t where "io e s = (Inr v, t)" "trace t = trace s @ [(e, True)]"
  | (fail) x t where "io e s = (Inl x, t)" "trace t = trace s @ [(e, False)]"
  by (cases rule: io_cases[of e s]) auto

text \<open>
  With a channel opened, the last call of an operation closes it, on every path; an operation
  whose channel could not be opened makes no other call.
\<close>

lemma with_channel_trace:
  assumes "\<And>u. \<exists>es. trace (snd (body u)) = trace u @ es"
  obtains (opened) es b where "trace (snd (with_channel body s)) =
      trace s @ [(OpenChannel, True)] @ es @ [(CloseChannel, b)]"
      "\<exists>u. trace u = trace s @ [(OpenChannel, True)] \<and> trace (snd (body u)) = trace u @ es"
  | (failed) "trace (snd (with_channel body s)) = trace s @ [(OpenChannel, False)]"
proof (cases rule: io_extends[of OpenChannel s])
  case (ok v u)
  obtain r w where b: "body u = (r, w)" by fastforce
  obtain es where es: "trace w = trace u @ es" using assms[of u] b by auto
  have u: "\<exists>u. trace u = trace s @ [(OpenChannel, True)] \<and> trace (snd (body u)) = trace u @ es"
    using ok b es by (intro exI[of _ u]) simp
  obtain q x where c: "io CloseChannel w = (q, x)" by fastforce
  obtain ok' where t: "trace x = trace w @ [(CloseChannel, ok')]"
    by (cases rule: io_extends[of CloseChannel w]) (use c in auto)
  have "trace (snd (with_channel body s)) = trace x"
    using ok(1) b c by (cases q) (simp_all add: with_channel_def py_then_run py_finally_run py_return_run)
  with t es ok(2) have "trace (snd (with_channel body s)) =
      trace s @ [(OpenChannel, True)] @ es @ [(CloseChannel, ok')]" by simp
  from opened[OF this u] show ?thesis .
next
  case (fail x t)
  with failed show ?thesis by (simp add: with_channel_def py_then_run)
qed

fun is_take :: "fm_effect \<Rightarrow> bool" where
  "is_take (DeclarePassive q) = True"
| "is_take GetFailed = True"
| "is_take _ = False"

text \<open>
  Replaying settles message \<open>n\<close>, then \<open>n + 1\<close>, and so on: a completed publish of the message,
  then its acknowledgement. The run may stop anywhere, with a failed call last.
\<close>

fun settles_in_order :: "nat \<Rightarrow> (fm_effect \<times> bool) list \<Rightarrow> bool" where
  "settles_in_order n [] = True"
| "settles_in_order n ((Republish i e m, True) # rest) =
     (i = n \<and> (case rest of
        [] \<Rightarrow> False
      | (a, False) # others \<Rightarrow> a = AckFailed n \<and> others = []
      | (a, True) # others \<Rightarrow> a = AckFailed n \<and> settles_in_order (Suc n) others))"
| "settles_in_order n ((Republish i e m, False) # rest) = (i = n \<and> rest = [])"
| "settles_in_order n _ = False"

lemma take_loop_trace:
  "\<exists>es. trace (snd (take_loop n w s)) = trace s @ es \<and> list_all (\<lambda>p. fst p = GetFailed) es \<and>
     length es \<le> n"
proof (induction n arbitrary: w s)
  case (Suc n)
  show ?case
  proof (cases rule: io_extends[of GetFailed s])
    case (ok v t)
    show ?thesis
    proof (cases "v = VNone")
      case True
      with ok show ?thesis by (intro exI[of _ "[(GetFailed, True)]"]) (simp add: py_simps del: io_run)
    next
      case False
      obtain es where "trace (snd (take_loop n (w @ [v]) t)) = trace t @ es"
        "list_all (\<lambda>p. fst p = GetFailed) es" "length es \<le> n" using Suc.IH by blast
      with ok False show ?thesis
        by (intro exI[of _ "(GetFailed, True) # es"]) (simp add: py_bind_run)
    qed
  next
    case (fail x t)
    then show ?thesis by (intro exI[of _ "[(GetFailed, False)]"]) (simp add: py_bind_run)
  qed
qed (simp add: py_simps)

lemma replay_loop_trace:
  "\<exists>es. trace (snd (replay_loop decode ev ms n s)) = trace s @ es \<and> settles_in_order n es \<and>
     (\<forall>k. fst (replay_loop decode ev ms n s) = Inr k \<longrightarrow>
        k = n + length ms \<and> length es = 2 * length ms)"
proof (induction ms arbitrary: n s)
  case (Cons m ms)
  show ?case
  proof (cases "decode m")
    case (Inl e)
    then show ?thesis by (intro exI[of _ "[]"]) (simp add: py_bind_run py_lift_run)
  next
    case (Inr v)
    show ?thesis
    proof (cases rule: io_extends[of "Republish n ev v" s])
      case (fail x t)
      with Inr show ?thesis
        by (intro exI[of _ "[(Republish n ev v, False)]"]) (simp add: py_bind_run py_lift_run py_then_run)
    next
      case (ok r t)
      note pub = ok
      show ?thesis
      proof (cases rule: io_extends[of "AckFailed n" t])
        case (fail x u)
        with Inr pub show ?thesis
          by (intro exI[of _ "[(Republish n ev v, True), (AckFailed n, False)]"])
            (simp add: py_bind_run py_lift_run py_then_run)
      next
        case (ok r' u)
        obtain es where es: "trace (snd (replay_loop decode ev ms (Suc n) u)) = trace u @ es"
            "settles_in_order (Suc n) es"
            "\<forall>k. fst (replay_loop decode ev ms (Suc n) u) = Inr k \<longrightarrow>
               k = Suc n + length ms \<and> length es = 2 * length ms"
          using Cons.IH by blast
        with Inr pub ok show ?thesis
          by (intro exI[of _ "(Republish n ev v, True) # (AckFailed n, True) # es"])
            (simp add: py_bind_run py_lift_run py_then_run)
      qed
    qed
  qed
qed (simp add: py_simps)

text \<open>The whole body of a replay: first the takes, then the settlements.\<close>

definition replay_body :: "decoder \<Rightarrow> string \<Rightarrow> string \<Rightarrow> int \<Rightarrow> (fm_state, pyval) py" where
  "replay_body decode service_name event_name count =
     py_then (io (DeclarePassive (failed_queue_name service_name event_name)))
         (py_bind (take_loop (nat count) []) (\<lambda>waiting.
          py_bind (replay_loop decode event_name waiting 0) (\<lambda>replayed.
          py_return (VDict [(''replayed'', VInt (int replayed))]))))"

lemma replay_body_trace:
  "\<exists>gs rs. trace (snd (replay_body decode sn ev count s)) = trace s @ gs @ rs \<and>
     list_all (\<lambda>p. is_take (fst p)) gs \<and> length gs \<le> Suc (nat count) \<and> settles_in_order 0 rs"
proof (cases rule: io_extends[of "DeclarePassive (failed_queue_name sn ev)" s])
  case (fail x t)
  then show ?thesis
    by (intro exI[of _ "[(DeclarePassive (failed_queue_name sn ev), False)]"] exI[of _ "[]"])
      (simp add: replay_body_def py_then_run)
next
  case (ok v t)
  obtain es where es: "trace (snd (take_loop (nat count) [] t)) = trace t @ es"
    "list_all (\<lambda>p. fst p = GetFailed) es" "length es \<le> nat count"
    using take_loop_trace by blast
  let ?gs = "(DeclarePassive (failed_queue_name sn ev), True) # es"
  have gs: "list_all (\<lambda>p. is_take (fst p)) ?gs" using es(2) by (auto simp: list_all_iff)
  obtain r u where run: "take_loop (nat count) [] t = (r, u)" by fastforce
  show ?thesis
  proof (cases r)
    case (Inl e)
    with ok run es gs show ?thesis
      by (intro exI[of _ ?gs] exI[of _ "[]"])
        (simp add: replay_body_def py_then_run py_bind_run)
  next
    case (Inr waiting)
    obtain rs where rs: "trace (snd (replay_loop decode ev waiting 0 u)) = trace u @ rs"
      "settles_in_order 0 rs" using replay_loop_trace by blast
    obtain r' w where "replay_loop decode ev waiting 0 u = (r', w)" by fastforce
    with ok run es gs Inr rs show ?thesis
      by (intro exI[of _ ?gs] exI[of _ rs])
        (cases r'; simp add: replay_body_def py_then_run py_bind_run py_return_run)
  qed
qed

end
