(* ===== verification/Registry_Properties.thy ===== *)
theory Registry_Properties
  imports Registry_Server Failed_Messages
begin

text \<open>
  What the registry promises to its clients, over every history of messages and monitoring passes
  from an empty registry: the feed of events, the monitoring pass, heartbeats, the queries, the
  settlement of messages and the handling of failed messages. The two facts at the end show what a
  publish that fails does to the feed.
\<close>

text \<open>The registry after a history of messages and passes.\<close>

definition registry_after :: "int \<Rightarrow> reply list \<Rightarrow> reg_event list \<Rightarrow> registry" where
  "registry_after t answers history = run_events reg_step (registry_init t answers) history"

lemma registry_after_ok: "reg_ok (registry_after t answers history)"
  unfolding registry_after_def by (rule reg_health.run_inv) (rule reg_ok_init)

lemma registry_after_feed:
  "\<forall>x. Raises x \<notin> set answers \<Longrightarrow> feed_inv (registry_after t answers history)"
  unfolding registry_after_def by (rule reg_feed.run_inv) (rule feed_inv_init)

lemma registry_after_snoc:
  "registry_after t answers (history @ [e]) = reg_step (registry_after t answers history) e"
  by (simp add: registry_after_def)

text \<open>A small history used by the witnesses: one instance registers and sends a heartbeat.\<close>

definition demo_registration :: pydict where
  "demo_registration =
     [(''service_name'', VStr ''orders''), (''instance_id'', VStr ''a1''),
      (''heartbeat_interval'', VInt 10), (''degraded'', VBool False)]"

definition demo_clock :: "int \<Rightarrow> clock" where
  "demo_clock t = \<lparr>now_us = t, now_iso = ''t''\<rparr>"

definition demo_register :: "int \<Rightarrow> reg_event" where
  "demo_register t = OnRegister (demo_clock t) (Inr (VDict demo_registration))"

lemmas registry_eval = registry_after_def registry_init_def demo_register_def demo_clock_def
  demo_registration_def handle_register_def handle_unregister_def handle_heartbeat_def
  read_identity_def as_name_def on_instance_registered_def
  registered_payload_def publish_registry_event_def set_tracked_def put_instance_def
  normalize_registration_group.simps dget_default_def log_error_def store_heartbeat_def
  has_service_instance_def has_service_def record_degraded_def refresh_instance_status_def
  get_instance_def instance_status_def get_timeout_def default_timeout_factor_def
  get_instance_status_def get_last_heartbeat_def is_degraded_def timedelta_us_def DAY_US_def
  MAX_DELTA_DAYS_def

lemma demo_services:
  "services (registry_after 0 [] [demo_register 0]) =
     [(''orders'', [(''a1'', demo_registration @ [(''group'', VStr ''business'')])])]"
  by (simp add: registry_eval py_simps strip_def REGISTRATION_GROUP_DEFAULT_def)





text \<open>
  C10: A heartbeat of a registered instance fixes what the registry answers about it from then on,
  whatever happened before and whether or not publishing its status works: active (degraded when
  the heartbeat says so) until three of its intervals have passed, down afterwards. Its registration
  is untouched.
\<close>

theorem heartbeat_keeps_instance_alive:
  assumes "get_instance (services (registry_after t answers history)) (sn, iid) = Some data"
    and "interval_ok data"
    and "dget d ''service_name'' = Some (VStr sn)" "dget d ''instance_id'' = Some (VStr iid)"
    and "dget d ''degraded'' = Some degraded"
  shows "let s = registry_after t answers (history @ [OnHeartbeat c (Inr (VDict d))])
    in get_instance (services s) (sn, iid) = Some data \<and>
       instance_status s now sn iid data =
         Inr (if now - now_us c > silence_us data then DOWN
              else if truthy degraded then DEGRADED else ACTIVE)"
proof -
  let ?s = "registry_after t answers history"
  have id: "read_identity (Inr (VDict d)) = Inr ((sn, iid), d)"
    using assms(3,4) by (simp add: read_identity_def as_name_def)
  have dist: "distinct (degraded_services ?s)" using registry_after_ok by (auto simp: reg_ok_def)
  note known = store_heartbeat_known[OF assms(1) dist, of c degraded "dget_default d ''reason'' VNone"]
  have "status_spec (reg_step ?s (OnHeartbeat c (Inr (VDict d)))) now sn iid data =
      (if now - now_us c > silence_us data then DOWN else if truthy degraded then DEGRADED else ACTIVE)"
    "services (reg_step ?s (OnHeartbeat c (Inr (VDict d)))) = services ?s"
    using id assms(5) known
    by (simp_all add: handle_heartbeat_def snd_process_message py_bind_run py_lift_run
        io_fields_kept own_fields_simps)
  with assms(1,2) show ?thesis by (simp add: registry_after_snoc Let_def instance_status_spec)
qed

theorem heartbeat_keeps_instance_alive_witness:
  "let s = registry_after 0 [] ([demo_register 0] @
        [OnHeartbeat (demo_clock 7) (Inr (VDict demo_registration))])
    in get_instance (services s) (''orders'', ''a1'') =
         Some (demo_registration @ [(''group'', VStr ''business'')]) \<and>
       instance_status s 30000008 ''orders'' ''a1'' (demo_registration @ [(''group'', VStr ''business'')]) =
         Inr (if 30000008 - now_us (demo_clock 7) >
                silence_us (demo_registration @ [(''group'', VStr ''business'')]) then DOWN
              else if truthy (VBool False) then DEGRADED else ACTIVE)"
proof (rule heartbeat_keeps_instance_alive)
  show "get_instance (services (registry_after 0 [] [demo_register 0])) (''orders'', ''a1'') =
      Some (demo_registration @ [(''group'', VStr ''business'')])"
    by (simp add: demo_services get_instance_def)
qed (simp_all add: interval_ok_def silence_us_def DAY_US_def
      MAX_DELTA_DAYS_def interval_of_def demo_registration_def dget_default_def)




section \<open>Every message is settled, once, and never requeued\<close>

fun is_settle :: "reg_effect \<Rightarrow> bool" where
  "is_settle (Settle b x) = True"
| "is_settle (PublishEvent ty p) = False"
| "is_settle (PublishAdmin k) = False"

definition settled_last :: "registry \<Rightarrow> registry \<Rightarrow> bool" where
  "settled_last s t \<longleftrightarrow> (\<exists>es r b. trace t = trace s @ es @ [(Settle False r, b)] \<and>
     list_all (\<lambda>p. \<not> is_settle (fst p)) es \<and> (r = None \<or> r = Some CancelledError))"

lemma py_except_log_outcome:
  "fst (py_except m log_error s) = Inl e \<Longrightarrow> e = CancelledError"
  by (auto simp: py_simps log_error_def is_Exception_def split: prod.splits sum.splits if_splits)

lemma process_settles_last:
  assumes "emits (\<lambda>e. \<not> is_settle e) body"
  shows "settled_last s (snd (process_message Settle False (py_except body log_error) s))"
proof -
  let ?b = "py_except body log_error"
  let ?r = "case fst (?b s) of Inl e \<Rightarrow> Some e | Inr _ \<Rightarrow> None"
  obtain es where es: "trace (snd (body s)) = trace s @ es" "list_all (\<lambda>p. \<not> is_settle (fst p)) es"
    using assms by (rule emitsD)
  have r: "?r = None \<or> ?r = Some CancelledError"
    using py_except_log_outcome[of body s] by (auto split: sum.splits)
  have "\<exists>b. trace (snd (io (Settle False ?r) (snd (body s)))) =
      trace (snd (body s)) @ [(Settle False ?r, b)]"
    by (rule io_cases[of "Settle False ?r" "snd (body s)"]) auto
  then obtain b where "trace (snd (io (Settle False ?r) (snd (body s)))) =
      trace s @ es @ [(Settle False ?r, b)]" using es(1) by auto
  with es(2) r show ?thesis unfolding settled_last_def snd_process_message snd_py_except_log by blast
qed

lemma emits_publish: "emits (\<lambda>e. \<not> is_settle e) (publish_registry_event ty p)"
  by (simp add: publish_registry_event_def emits_rules)

lemma emits_set_tracked: "emits P (set_tracked k st)"
  by (simp add: set_tracked_def emits_rules)

lemma emits_refresh: "emits (\<lambda>e. \<not> is_settle e) (refresh_instance_status c sn iid reason)"
proof -
  have "emits (\<lambda>e. \<not> is_settle e) (py_then (set_tracked k st) (publish_registry_event ty p))"
    for k st ty p by (intro emits_then emits_set_tracked emits_publish)
  then show ?thesis
    using emits_set_tracked[of "\<lambda>e. \<not> is_settle e"]
    by (auto simp: refresh_instance_status_def emits_def split: option.split sum.split)
qed

lemma emits_log: "emits P (log_error e)"
  by (simp add: log_error_def emits_rules)

lemmas registry_emits = emits_rules emits_publish emits_set_tracked emits_refresh emits_log

lemma emits_register_body:
  "emits (\<lambda>e. \<not> is_settle e) (on_instance_registered c key data)"
  "emits (\<lambda>e. \<not> is_settle e) (on_instance_deregistered c sn iid)"
  by (simp_all add: on_instance_registered_def on_instance_deregistered_def registry_emits)

lemma emits_store_heartbeat:
  "emits (\<lambda>e. \<not> is_settle e) (store_heartbeat c sn iid degraded reason)"
  unfolding store_heartbeat_def
  by (intro emits_try emits_if emits_then emits_modify emits_refresh emits_return emits_io)
    (auto simp: emits_log split: if_splits)

text \<open>
  C12: The handlers of the registry's three message queues settle the message they were given exactly
  once, last, and never with the requeue flag. An error while handling it (malformed body, missing
  key, failed publish) is logged and the message is acknowledged; only a cancellation reaches the
  broker as a failure.
\<close>

theorem registry_messages_settled_once:
  "settled_last s (snd (handle_register c loaded s)) \<and>
   settled_last s (snd (handle_unregister c loaded s)) \<and>
   settled_last s (snd (handle_heartbeat c loaded s))"
proof (intro conjI)
  show "settled_last s (snd (handle_register c loaded s))"
    unfolding handle_register_def
    by (rule process_settles_last)
      (auto simp: Let_def emits_register_body intro!: emits_rules split: prod.splits)
  show "settled_last s (snd (handle_unregister c loaded s))"
    unfolding handle_unregister_def
    by (rule process_settles_last)
      (auto simp: Let_def emits_register_body intro!: emits_rules split: prod.splits)
  show "settled_last s (snd (handle_heartbeat c loaded s))"
    unfolding handle_heartbeat_def
    by (rule process_settles_last)
      (auto simp: Let_def emits_store_heartbeat intro!: emits_rules split: prod.splits)
qed


text \<open>
  A heartbeat of an instance the registry does not know changes none of its records; the registry
  asks the instance to register again, once, but only when it has been running for the grace period,
  and then settles the message.
\<close>

lemma unknown_heartbeat_asks_to_register:
  assumes "get_instance (services s) (sn, iid) = None"
    and "dget d ''service_name'' = Some (VStr sn)" "dget d ''instance_id'' = Some (VStr iid)"
    and "dget d ''degraded'' = Some degraded"
  shows "own_fields (snd (handle_heartbeat c (Inr (VDict d)) s)) = own_fields s \<and>
    (\<exists>r. attempted (snd (handle_heartbeat c (Inr (VDict d)) s)) =
      attempted s @
        (if now_us c - started_at s < HEARTBEAT_GRACE_US then []
         else [PublishAdmin (sn @ ''.'' @ iid @ ''.register_again'')]) @
        [Settle False r])"
proof -
  let ?e = "PublishAdmin (sn @ ''.'' @ iid @ ''.register_again'')"
  have id: "read_identity (Inr (VDict d)) = Inr ((sn, iid), d)"
    using assms(2,3) by (simp add: read_identity_def as_name_def)
  let ?store = "store_heartbeat c sn iid degraded (dget_default d ''reason'' VNone)"
  have "snd (py_then (io ?e) (py_return ()) s) = snd (io ?e s)"
    by (simp add: py_simps split: list.splits reply.splits)
  then have store: "snd (?store s) =
      (if now_us c - started_at s < HEARTBEAT_GRACE_US then s else snd (io ?e s))"
    using assms(1) by (simp add: store_heartbeat_def has_service_instance_iff py_if_run py_return_run)
  have att: "attempted (snd (io e t)) = attempted t @ [e]" for e and t :: registry
    by (cases rule: io_cases[of e t]) (simp_all add: attempted_def)
  have "\<exists>r. snd (handle_heartbeat c (Inr (VDict d)) s) = snd (io (Settle False r) (snd (?store s)))"
    using id assms(4)
    by (intro exI) (simp add: handle_heartbeat_def snd_process_message py_bind_run py_lift_run)
  with store show ?thesis by (auto simp: att own_fields_def own_fields_simps)
qed

lemma unknown_heartbeat_asks_to_register_witness:
  "own_fields (snd (handle_heartbeat (demo_clock 20000000) (Inr (VDict demo_registration))
      (registry_init 0 []))) = own_fields (registry_init 0 []) \<and>
    (\<exists>r. attempted (snd (handle_heartbeat (demo_clock 20000000) (Inr (VDict demo_registration))
        (registry_init 0 []))) =
      [PublishAdmin ''orders.a1.register_again'', Settle False r])"
  using unknown_heartbeat_asks_to_register
    [of "registry_init 0 []" "''orders''" "''a1''" demo_registration "VBool False" "demo_clock 20000000"]
  by (simp add: registry_init_def get_instance_def demo_registration_def demo_clock_def
      HEARTBEAT_GRACE_US_def attempted_def)


section \<open>Failed messages\<close>

lemma replay_is_body: "replay_failed_messages decode sn ev count = with_channel (replay_body decode sn ev count)"
  by (simp add: replay_failed_messages_def replay_body_def)

text \<open>
  C15: Whatever the broker answers, replaying failed messages opens one channel and closes it last
  (a channel that did not open is the only call). In between all the messages are taken, at most
  \<open>count\<close> of them, before the first is published; then message after message is published and
  acknowledged, an acknowledgement following only the completed publish of the same message, and
  the first failure ends the replay.
\<close>

theorem replay_acknowledges_what_it_published:
  "trace (snd (replay_failed_messages decode sn ev count s)) = trace s @ [(OpenChannel, False)] \<or>
   (\<exists>gs rs b. trace (snd (replay_failed_messages decode sn ev count s)) =
        trace s @ [(OpenChannel, True)] @ (gs @ rs) @ [(CloseChannel, b)] \<and>
      list_all (\<lambda>p. is_take (fst p)) gs \<and> length gs \<le> Suc (nat count) \<and> settles_in_order 0 rs)"
proof -
  have ext: "\<exists>es. trace (snd (replay_body decode sn ev count u)) = trace u @ es" for u
    using replay_body_trace[of decode sn ev count u] by blast
  show ?thesis unfolding replay_is_body
  proof (cases rule: with_channel_trace[of "replay_body decode sn ev count" s, OF ext])
    case (1 es b)
    then obtain u where u: "trace (snd (replay_body decode sn ev count u)) = trace u @ es" by blast
    obtain gs rs where "trace (snd (replay_body decode sn ev count u)) = trace u @ gs @ rs"
      "list_all (\<lambda>p. is_take (fst p)) gs" "length gs \<le> Suc (nat count)" "settles_in_order 0 rs"
      using replay_body_trace by blast
    with u 1 show "trace (snd (with_channel (replay_body decode sn ev count) s)) =
          trace s @ [(OpenChannel, False)] \<or>
        (\<exists>gs rs b. trace (snd (with_channel (replay_body decode sn ev count) s)) =
           trace s @ [(OpenChannel, True)] @ (gs @ rs) @ [(CloseChannel, b)] \<and>
         list_all (\<lambda>p. is_take (fst p)) gs \<and> length gs \<le> Suc (nat count) \<and>
         settles_in_order 0 rs)" by auto
  qed blast
qed

fun is_ack :: "fm_effect \<Rightarrow> bool" where
  "is_ack (AckFailed i) = True"
| "is_ack _ = False"

text \<open>The acknowledgements that completed.\<close>

definition acks :: "fm_state \<Rightarrow> fm_effect list" where
  "acks s = filter is_ack (completed s)"

lemma acks_io [simp]:
  "io e s = (Inr v, t) \<Longrightarrow> acks t = acks s @ (if is_ack e then [e] else [])"
  by (cases rule: io_cases[of e s]) (auto simp: acks_def completed_def)

lemma drop_loop_acks:
  "drop_loop n m s = (Inr k, t) \<Longrightarrow>
     acks t = acks s @ map AckFailed [m..<k] \<and> m \<le> k \<and> k \<le> m + n"
proof (induction n arbitrary: m s)
  case (Suc n)
  obtain v u where get: "io GetFailed s = (Inr v, u)"
    using Suc.prems by (cases rule: io_cases[of GetFailed s]) (auto simp: py_bind_run)
  show ?case
  proof (cases "v = VNone")
    case True
    with get Suc.prems show ?thesis by (auto simp: py_bind_run py_return_run)
  next
    case False
    obtain w x where ack: "io (AckFailed m) u = (Inr w, x)"
      using Suc.prems get False
      by (cases rule: io_cases[of "AckFailed m" u]) (auto simp: py_bind_run py_then_run)
    with get False Suc.prems have "drop_loop n (m + 1) x = (Inr k, t)"
      by (simp add: py_bind_run py_then_run)
    from Suc.IH[OF this] get ack show ?thesis by (auto simp: upt_rec[of m k])
  qed
qed (auto simp: py_simps)

lemma with_channel_Inr:
  assumes "with_channel body s = (Inr r, t)"
  obtains v u w x where "io OpenChannel s = (Inr v, u)" "body u = (Inr r, w)"
    "io CloseChannel w = (Inr x, t)"
proof -
  from assms obtain v u where opened: "io OpenChannel s = (Inr v, u)"
    by (cases rule: io_cases[of OpenChannel s]) (auto simp: with_channel_def py_then_run)
  obtain q w where body: "body u = (q, w)" by fastforce
  obtain y t' where close: "io CloseChannel w = (y, t')" by fastforce
  from assms opened body close obtain x where "y = Inr x" "q = Inr r" "t' = t"
    by (cases y) (auto simp: with_channel_def py_then_run py_finally_run py_return_run)
  with that opened body close show ?thesis by blast
qed

text \<open>
  C16: When dropping failed messages answers, the number it reports is the number of messages it
  acknowledged, the first \<open>n\<close> it received in order, and at most \<open>count\<close>.
\<close>

theorem drop_reports_what_it_acknowledged:
  assumes "drop_failed_messages sn ev count s = (Inr r, t)"
  shows "\<exists>n. r = VDict [(''dropped'', VInt (int n))] \<and> n \<le> nat count \<and>
    acks t = acks s @ map AckFailed [0..<n]"
proof -
  obtain v u w x where opened: "io OpenChannel s = (Inr v, u)"
    and body: "(py_then (io (DeclarePassive (failed_queue_name sn ev)))
         (py_bind (drop_loop (nat count) 0) (\<lambda>dropped.
          py_return (VDict [(''dropped'', VInt (int dropped))])))) u = (Inr r, w)"
    and close: "io CloseChannel w = (Inr x, t)"
    using assms unfolding drop_failed_messages_def by (rule with_channel_Inr)
  obtain v' u' where decl: "io (DeclarePassive (failed_queue_name sn ev)) u = (Inr v', u')"
    using body by (cases rule: io_cases[of "DeclarePassive (failed_queue_name sn ev)" u])
      (auto simp: py_then_run)
  then obtain n where "drop_loop (nat count) 0 u' = (Inr n, w)" "r = VDict [(''dropped'', VInt (int n))]"
    using body by (auto simp: py_then_run py_bind_run py_return_run split: prod.splits sum.splits)
  with drop_loop_acks[of "nat count" 0 u' n w] opened decl close show ?thesis by auto
qed

definition demo_failed_queue :: fm_state where
  "demo_failed_queue = \<lparr>script = [Returns VNone, Returns VNone, Returns (VStr ''m1''), Returns VNone,
     Returns VNone], trace = []\<rparr>"

theorem drop_reports_what_it_acknowledged_witness:
  "\<exists>t. drop_failed_messages ''orders'' ''paid'' 1 demo_failed_queue =
       (Inr (VDict [(''dropped'', VInt 1)]), t) \<and>
     (\<exists>n. VDict [(''dropped'', VInt 1)] = VDict [(''dropped'', VInt (int n))] \<and> n \<le> nat 1 \<and>
        acks t = acks demo_failed_queue @ map AckFailed [0..<n])"
proof -
  have "fst (drop_failed_messages ''orders'' ''paid'' 1 demo_failed_queue) =
      Inr (VDict [(''dropped'', VInt 1)])"
    unfolding drop_failed_messages_def nat_1
    by (simp add: with_channel_def demo_failed_queue_def py_then_run
        py_bind_run py_finally_run py_return_run io_run)
  then obtain t where t: "drop_failed_messages ''orders'' ''paid'' 1 demo_failed_queue =
      (Inr (VDict [(''dropped'', VInt 1)]), t)"
    by (cases "drop_failed_messages ''orders'' ''paid'' 1 demo_failed_queue") simp
  from drop_reports_what_it_acknowledged[OF t] t show ?thesis by auto
qed

section \<open>What a failed publish does to the feed\<close>

text \<open>
  \<open>refresh_instance_status\<close> stores the new status before it publishes the change. When the publish
  of an instance becoming active fails, the change is never published again: the registry tracks
  \<open>ACTIVE\<close> and a subscriber stays at \<open>DOWN\<close>, also after the next monitoring pass; when the
  instance falls silent the subscriber is told of a change from a status it never saw.
\<close>

definition demo_lost :: "reg_event list" where
  "demo_lost = [demo_register 0, OnHeartbeat (demo_clock 7) (Inr (VDict demo_registration)),
     OnMonitor (demo_clock 5000000)]"

definition demo_outage :: "reply list" where
  "demo_outage = [Returns VNone, Returns VNone, Raises AmqpDisconnectedError]"

lemma failed_publish_loses_transition:
  "map_option (\<lambda>v. v (''orders'', ''a1'')) (feed (completed (registry_after 0 demo_outage demo_lost))) =
     Some (Some DOWN) \<and>
   tracked_status (registry_after 0 demo_outage demo_lost) (''orders'', ''a1'') = Some ACTIVE"
  by (simp add: registry_eval demo_lost_def demo_outage_def py_simps strip_def
      REGISTRATION_GROUP_DEFAULT_def refresh_all_instance_statuses_def all_instances_def completed_def
      feed_def feed_event_def payload_name_def registry_event_names)

lemma failed_publish_breaks_feed:
  "feed (completed (registry_after 0 demo_outage (demo_lost @ [OnMonitor (demo_clock 60000000)]))) = None"
  by (simp add: registry_eval demo_lost_def demo_outage_def py_simps strip_def
      REGISTRATION_GROUP_DEFAULT_def refresh_all_instance_statuses_def all_instances_def completed_def
      feed_def feed_event_def payload_name_def registry_event_names status_changed_payload_def
      service_status_of_def)

end
