(* ===== verification/Task_Scheduling.thy ===== *)
theory Task_Scheduling
  imports Event_Consumer
begin

text \<open>
  Periodic tasks (\<open>task/task.py\<close>): the decorator and its checks, the schedules resolved from the
  configuration, and \<open>Task\<close>, whose loop runs the user's method, sleeps and starts over.

  A task shares the container's state (configuration, scopes, reporting of exceptions), so its record
  extends the consumer's. croniter is a parameter: \<open>is_valid\<close> says which expressions it accepts and
  \<open>next_after\<close> gives the next instant of an expression after an instant, both in microseconds of
  local time.
\<close>

section \<open>Schedules\<close>

definition validate_cron_expression :: "(string \<Rightarrow> bool) \<Rightarrow> pyval \<Rightarrow> exn + unit" where
  "validate_cron_expression is_valid expr =
     (case expr of
        VStr e \<Rightarrow>
          if strip e = [] then Inl (ValueError ''Task cron must be a 5-field crontab expression'')
          else if length (Kontiki_Prelude.fields e) \<noteq> 5 then
            Inl (ValueError ''Task cron must be a 5-field crontab expression (minute hour day month weekday)'')
          else if \<not> is_valid e then Inl (ValueError ''Invalid crontab expression'')
          else Inr ()
      | _ \<Rightarrow> Inl (ValueError ''Task cron must be a 5-field crontab expression''))"

text \<open>\<open>(nxt - now).total_seconds()\<close>, never negative.\<close>

definition seconds_until_next_cron :: "(string \<Rightarrow> int \<Rightarrow> exn + int) \<Rightarrow> string \<Rightarrow> int \<Rightarrow> exn + pyval" where
  "seconds_until_next_cron next_after cron now =
     (case next_after cron now of
        Inl e \<Rightarrow> Inl e
      | Inr nxt \<Rightarrow>
          let delay = of_int (nxt - now) / 1000000
          in if delay < 0 then Inr (VInt 0) else Inr (VFloat delay))"

text \<open>\<open>type(v) in (int, float)\<close>: a bool is not among them.\<close>

fun plain_number :: "pyval \<Rightarrow> bool" where
  "plain_number (VInt i) = True"
| "plain_number (VFloat r) = True"
| "plain_number _ = False"

definition resolve_task_interval :: "pyval \<Rightarrow> pyval \<Rightarrow> exn + pyval" where
  "resolve_task_interval config interval =
     (if plain_number interval then Inr interval
      else (case interval of
         VStr key \<Rightarrow> (case get_parameter config key VMissing of
            Inl e \<Rightarrow> Inl e
          | Inr v \<Rightarrow>
              if plain_number v then Inr v
              else Inl (TypeError ''Task interval must resolve to a number''))
       | _ \<Rightarrow> Inl (TypeError ''Task interval must be a number or config key string'')))"

definition resolve_task_cron :: "(string \<Rightarrow> bool) \<Rightarrow> pyval \<Rightarrow> string \<Rightarrow> bool \<Rightarrow> exn + pyval" where
  "resolve_task_cron is_valid config cron use_config =
     (if use_config then
        (case get_parameter config cron VMissing of
           Inl e \<Rightarrow> Inl e
         | Inr v \<Rightarrow> map_sum id (\<lambda>_. v) (validate_cron_expression is_valid v))
      else map_sum id (\<lambda>_. VStr cron) (validate_cron_expression is_valid (VStr cron)))"

section \<open>The decorator\<close>

text \<open>
  What the decorator stores on the method: either \<open>_task_cron\<close> and \<open>_task_use_config\<close> or
  \<open>_task_interval\<close>, and \<open>_task_immediate\<close>.
\<close>

datatype task_schedule = Cron string bool | Interval pyval

record task_mark =
  tm_schedule :: task_schedule
  tm_immediate :: pyval

definition task_decorator ::
  "(string \<Rightarrow> bool) \<Rightarrow> pyval \<Rightarrow> pyval \<Rightarrow> pyval \<Rightarrow> bool \<Rightarrow> exn + task_mark" where
  "task_decorator is_valid interval immediate cron use_config =
     (if interval \<noteq> VNone \<and> cron \<noteq> VNone then
        Inl (ValueError ''task(): interval and cron are mutually exclusive.'')
      else if interval = VNone \<and> cron = VNone then
        Inl (ValueError ''task(): pass interval or cron.'')
      else if use_config \<and> cron = VNone then
        Inl (ValueError ''task(): use_config=True only applies to cron.'')
      else if cron \<noteq> VNone then
        (case cron of
           VStr c \<Rightarrow>
             if strip c = [] then
               Inl (TypeError ''Task cron must be a crontab expression or config key string'')
             else (case (if use_config then Inr () else validate_cron_expression is_valid cron) of
                Inl e \<Rightarrow> Inl e
              | Inr _ \<Rightarrow> Inr \<lparr>tm_schedule = Cron c use_config,
                  tm_immediate = (if immediate = VNone then VBool False else immediate)\<rparr>)
         | _ \<Rightarrow> Inl (TypeError ''Task cron must be a crontab expression or config key string''))
      else if \<not> plain_number interval \<and> \<not> is_str interval then
        Inl (TypeError ''Task interval must be a number or config key string'')
      else Inr \<lparr>tm_schedule = Interval interval,
             tm_immediate = (if immediate = VNone then VBool True else immediate)\<rparr>)"

text \<open>How \<open>start_tasks\<close> and the catalogue of the container read the mark.\<close>

definition resolve_schedule :: "(string \<Rightarrow> bool) \<Rightarrow> pyval \<Rightarrow> task_mark \<Rightarrow> exn + pyval" where
  "resolve_schedule is_valid config m =
     (case tm_schedule m of
        Cron c use_config \<Rightarrow> resolve_task_cron is_valid config c use_config
      | Interval i \<Rightarrow> resolve_task_interval config i)"

section \<open>The loop\<close>

text \<open>
  The loop of a task is a coroutine that can be suspended at three places: before its first turn, in
  the sleep between two iterations, and in the user's method (when \<open>_current_iteration\<close> is set).
\<close>

datatype point = NotStarted | Scheduled | Asleep | Iterating | Ended "exn option"

record periodic = consumer_state +
  pt_name :: string
  pt_schedule :: task_schedule
  pt_immediate :: bool
  pt_running :: bool
  pt_point :: point

text \<open>
  \<open>start\<close> refuses a task that is running; otherwise it creates the loop's asyncio task. The container
  starts a task once, so the record has one loop (starting a task that was told to stop while its old
  loop still sleeps would create a second one).
\<close>

definition task_start :: "(periodic, unit) py" where
  "task_start = py_if pt_running (py_return ())
     (py_modify (\<lambda>s. s\<lparr>pt_running := True, pt_point := Scheduled\<rparr>))"

definition task_stop_accepting :: "(periodic, unit) py" where
  "task_stop_accepting = py_modify (\<lambda>s. s\<lparr>pt_running := False\<rparr>)"

definition execute_user_task :: "string \<Rightarrow> nat \<Rightarrow> (periodic, unit) py" where
  "execute_user_task fresh t = (\<lambda>s.
     in_handler_scope ''task'' (pt_name s) None False fresh t
       (py_except
          (py_then (io (RunHandler (pt_name s) [] [] None)) (py_return ()))
          (report_uncaught_exception t)) s)"

definition loop_delay :: "(string \<Rightarrow> int \<Rightarrow> exn + int) \<Rightarrow> int \<Rightarrow> task_schedule \<Rightarrow> exn + pyval" where
  "loop_delay next_after now schedule =
     (case schedule of
        Cron c _ \<Rightarrow> seconds_until_next_cron next_after c now
      | Interval i \<Rightarrow> Inr i)"

text \<open>
  The head of the loop: leave it when the task no longer runs, else begin the sleep. An exception
  here ends the loop.
\<close>

definition loop_head :: "(string \<Rightarrow> int \<Rightarrow> exn + int) \<Rightarrow> int \<Rightarrow> (periodic, unit) py" where
  "loop_head next_after now =
     py_if pt_running
       (py_bind (py_read (\<lambda>s. loop_delay next_after now (pt_schedule s))) (\<lambda>r.
        py_bind (py_lift r) (\<lambda>delay.
          py_then (record_effect (Sleep delay)) (py_modify (\<lambda>s. s\<lparr>pt_point := Asleep\<rparr>)))))
       (py_modify (\<lambda>s. s\<lparr>pt_point := Ended None\<rparr>))"

definition ends_on_error :: "(periodic, unit) py \<Rightarrow> (periodic, unit) py" where
  "ends_on_error m = (\<lambda>s. case m s of
     (Inr v, t) \<Rightarrow> (Inr v, t) | (Inl e, t) \<Rightarrow> (Inl e, t\<lparr>pt_point := Ended (Some e)\<rparr>))"

text \<open>The turns of the loop: its first one, the end of a sleep, the end of an iteration.\<close>

definition first_turn :: "(string \<Rightarrow> int \<Rightarrow> exn + int) \<Rightarrow> int \<Rightarrow> (periodic, unit) py" where
  "first_turn next_after now =
     py_if pt_immediate (py_modify (\<lambda>s. s\<lparr>pt_point := Iterating\<rparr>))
       (ends_on_error (loop_head next_after now))"

definition wake_up :: "(periodic, unit) py" where
  "wake_up = py_if pt_running (py_modify (\<lambda>s. s\<lparr>pt_point := Iterating\<rparr>))
     (py_modify (\<lambda>s. s\<lparr>pt_point := Ended None\<rparr>))"

definition end_iteration ::
  "(string \<Rightarrow> int \<Rightarrow> exn + int) \<Rightarrow> int \<Rightarrow> string \<Rightarrow> nat \<Rightarrow> (periodic, unit) py" where
  "end_iteration next_after now fresh t =
     ends_on_error (py_then (execute_user_task fresh t) (loop_head next_after now))"

text \<open>Cancelling the loop's task (\<open>force_stop\<close>, \<open>stop\<close>) raises at the place where it waits.\<close>

definition cancel_loop :: "(periodic, unit) py" where
  "cancel_loop = py_modify (\<lambda>s. s\<lparr>pt_point :=
     (case pt_point s of NotStarted \<Rightarrow> NotStarted | Ended e \<Rightarrow> Ended e | _ \<Rightarrow> Ended (Some CancelledError))\<rparr>)"

definition task_stop :: "(periodic, unit) py" where
  "task_stop = py_then task_stop_accepting cancel_loop"

text \<open>\<open>drain\<close> waits for the current iteration only: it returns at once outside of one.\<close>

definition drain_returns :: "periodic \<Rightarrow> bool" where
  "drain_returns s \<longleftrightarrow> pt_point s \<noteq> Iterating"

datatype tk_event =
    TkStart
  | TkStopAccepting
  | TkTurn int string nat
  | TkCancel

text \<open>A turn continues the loop from where it waits.\<close>

definition loop_turn ::
  "(string \<Rightarrow> int \<Rightarrow> exn + int) \<Rightarrow> int \<Rightarrow> string \<Rightarrow> nat \<Rightarrow> periodic \<Rightarrow> periodic" where
  "loop_turn next_after now fresh t s =
     (case pt_point s of
        Scheduled \<Rightarrow> snd (first_turn next_after now s)
      | Asleep \<Rightarrow> snd (wake_up s)
      | Iterating \<Rightarrow> snd (end_iteration next_after now fresh t s)
      | _ \<Rightarrow> s)"

fun tk_step :: "(string \<Rightarrow> int \<Rightarrow> exn + int) \<Rightarrow> periodic \<Rightarrow> tk_event \<Rightarrow> periodic" where
  "tk_step next_after s TkStart = snd (task_start s)"
| "tk_step next_after s TkStopAccepting = snd (task_stop_accepting s)"
| "tk_step next_after s (TkTurn now fresh t) = loop_turn next_after now fresh t s"
| "tk_step next_after s TkCancel = snd (cancel_loop s)"

section \<open>After the stop\<close>

definition is_run :: "cns_effect \<Rightarrow> bool" where
  "is_run e = (case e of RunHandler n a k h \<Rightarrow> True | _ \<Rightarrow> False)"

definition runs :: "periodic \<Rightarrow> nat" where
  "runs s = length (filter (\<lambda>(e, b). is_run e) (trace s))"

definition pt_fields :: "periodic \<Rightarrow> task_schedule \<times> bool \<times> bool \<times> point" where
  "pt_fields s = (pt_schedule s, pt_immediate s, pt_running s, pt_point s)"

lemma pt_fields_io [simp]: "pt_fields (snd (io e s)) = pt_fields s"
  by (simp add: io_def pt_fields_def split: list.splits reply.splits)

lemma runs_io: "runs (snd (io e s)) = runs s + (if is_run e then 1 else 0)"
  by (cases rule: io_cases[of e s]) (auto simp: runs_def)

lemma report_uncaught_periodic:
  fixes s :: periodic
  shows "runs (snd (report_uncaught_exception t e s)) = runs s"
    "pt_fields (snd (report_uncaught_exception t e s)) = pt_fields s"
  using report_uncaught_snd[of t e s]
  by (auto simp: report_exception_snd runs_io is_run_def split: if_splits)

text \<open>One iteration runs the user's method once and leaves the loop's own fields alone.\<close>

lemma execute_user_task_runs:
  "runs (snd (execute_user_task fresh t s)) = Suc (runs s) \<and>
   pt_fields (snd (execute_user_task fresh t s)) = pt_fields s"
proof -
  let ?u = "entered ''task'' (pt_name s) None False fresh t s"
  let ?m = "py_then (io (RunHandler (pt_name s) [] [] None)) (py_return ()) :: (periodic, unit) py"
  have u: "runs ?u = runs s" "pt_fields ?u = pt_fields s"
    by (simp_all add: entered_def runs_def pt_fields_def)
  have m_io: "snd (?m v) = snd (io (RunHandler (pt_name s) [] [] None) v)" for v
    by (simp add: py_then_run py_return_run split: prod.splits sum.splits)
  have m: "runs (snd (?m v)) = Suc (runs v)" "pt_fields (snd (?m v)) = pt_fields v" for v
    unfolding m_io by (simp_all add: runs_io is_run_def)
  have x: "runs (snd (py_except ?m (report_uncaught_exception t) v)) = Suc (runs v) \<and>
      pt_fields (snd (py_except ?m (report_uncaught_exception t) v)) = pt_fields v" for v
    using m[of v] report_uncaught_periodic
    by (auto simp: py_try_run split: prod.splits sum.splits option.splits if_splits)
  have sc: "runs (w\<lparr>scope := c\<rparr>) = runs w" "pt_fields (w\<lparr>scope := c\<rparr>) = pt_fields w" for w c
    by (simp_all add: runs_def pt_fields_def)
  show ?thesis
    using x[of ?u] u
    by (auto simp: execute_user_task_def in_handler_scope_run sc split: prod.splits)
qed

lemma loop_head_runs:
  "runs (snd (loop_head next_after now s)) = runs s"
  "pt_running (snd (loop_head next_after now s)) = pt_running s"
  "pt_immediate (snd (loop_head next_after now s)) = pt_immediate s"
  by (auto simp: loop_head_def py_simps runs_def is_run_def split: sum.splits)

text \<open>The iterations a task that no longer runs may still owe.\<close>

definition owed :: "periodic \<Rightarrow> nat" where
  "owed s = (case pt_point s of Iterating \<Rightarrow> 1 | Scheduled \<Rightarrow> if pt_immediate s then 1 else 0 | _ \<Rightarrow> 0)"

lemma end_iteration_stopped:
  assumes "\<not> pt_running s"
  shows "runs (snd (end_iteration next_after now fresh t s)) = Suc (runs s)"
    "\<not> pt_running (snd (end_iteration next_after now fresh t s))"
    "owed (snd (end_iteration next_after now fresh t s)) = 0"
proof -
  obtain r v where v: "execute_user_task fresh t s = (r, v)" by fastforce
  with execute_user_task_runs[of fresh t s] have f: "runs v = Suc (runs s)" "pt_fields v = pt_fields s"
    by simp_all
  then have "\<not> pt_running v" using assms by (simp add: pt_fields_def)
  with f(1) v show "runs (snd (end_iteration next_after now fresh t s)) = Suc (runs s)"
    "\<not> pt_running (snd (end_iteration next_after now fresh t s))"
    "owed (snd (end_iteration next_after now fresh t s)) = 0"
    by (cases r; simp add: end_iteration_def ends_on_error_def py_simps loop_head_def runs_def owed_def)+
qed

lemma stopped_step:
  assumes "\<not> pt_running s" "ev \<noteq> TkStart"
  shows "\<not> pt_running (tk_step next_after s ev) \<and>
    runs (tk_step next_after s ev) + owed (tk_step next_after s ev) \<le> runs s + owed s"
proof (cases ev)
  case (TkTurn now fresh t)
  show ?thesis
  proof (cases "pt_point s")
    case Iterating
    with TkTurn end_iteration_stopped[OF assms(1)] show ?thesis
      by (simp add: loop_turn_def owed_def[of s])
  qed (use TkTurn assms in \<open>simp_all add: loop_turn_def first_turn_def wake_up_def loop_head_def
    ends_on_error_def py_simps runs_def owed_def\<close>)
qed (use assms in \<open>auto simp: task_stop_accepting_def cancel_loop_def py_simps runs_def owed_def
  split: point.splits\<close>)

lemma stopped_history:
  assumes "\<not> pt_running s" "TkStart \<notin> set history"
  shows "runs (run_events (tk_step next_after) s history) \<le> runs s + owed s"
  using assms
proof (induction history arbitrary: s)
  case (Cons ev history)
  then have "\<not> pt_running (tk_step next_after s ev)"
    "runs (tk_step next_after s ev) + owed (tk_step next_after s ev) \<le> runs s + owed s"
    using stopped_step[of s ev next_after] by auto
  with Cons.IH[of "tk_step next_after s ev"] Cons.prems(2) show ?case by simp
qed simp

text \<open>
  C31: After \<open>stop_accepting\<close> a periodic task starts no new iteration. Whatever follows (turns of its
  loop, the end of a sleep, exceptions of the method, cancellation), the user's method runs at most
  once more: the iteration that was under way, or the immediate one of a loop that had not had its
  first turn. \<open>drain\<close> returns at once when no iteration is under way.
\<close>

theorem stopped_task_starts_no_iteration:
  assumes "TkStart \<notin> set history"
  shows "runs (run_events (tk_step next_after) (snd (task_stop_accepting s)) history) \<le>
    runs s + (if drain_returns s \<and> \<not> (pt_point s = Scheduled \<and> pt_immediate s) then 0 else 1)"
proof -
  let ?s = "snd (task_stop_accepting s)"
  have "\<not> pt_running ?s" "runs ?s = runs s" "owed ?s = owed s"
    by (simp_all add: task_stop_accepting_def py_simps runs_def owed_def)
  moreover have "owed s \<le> (if drain_returns s \<and> \<not> (pt_point s = Scheduled \<and> pt_immediate s) then 0 else 1)"
    by (simp add: owed_def drain_returns_def split: point.splits)
  ultimately show ?thesis using stopped_history[of ?s history next_after] assms by linarith
qed

definition demo_periodic :: "reply list \<Rightarrow> bool \<Rightarrow> task_schedule \<Rightarrow> periodic" where
  "demo_periodic answers immediate schedule =
     \<lparr>script = answers, trace = [], scope = scope_init, cns_config = VDict [(''app'', VInt 1)],
      cns_registry_client = False, cns_shutting_down = False, cns_handler_tasks = [],
      cns_rpc_pending = [], pt_name = ''poll'', pt_schedule = schedule, pt_immediate = immediate,
      pt_running = True, pt_point = Scheduled\<rparr>"

theorem stopped_task_starts_no_iteration_witness:
  "runs (run_events (tk_step (\<lambda>_ t. Inr t))
      (snd (task_stop_accepting ((demo_periodic [] True (Interval (VInt 5)))\<lparr>pt_point := Asleep\<rparr>)))
      [TkTurn 0 ''h'' 1, TkTurn 1 ''h'' 1]) = 0"
  using stopped_task_starts_no_iteration[of "[TkTurn 0 ''h'' 1, TkTurn 1 ''h'' 1]" "\<lambda>_ t. Inr t"
      "(demo_periodic [] True (Interval (VInt 5)))\<lparr>pt_point := Asleep\<rparr>"]
  by (simp add: drain_returns_def runs_def demo_periodic_def)

text \<open>A loop that has not had its first turn runs its immediate iteration even after the stop.\<close>

lemma immediate_task_runs_after_stop:
  "runs (run_events (tk_step next_after)
      (snd (task_stop_accepting (demo_periodic [] True (Interval (VInt 5)))))
      [TkTurn 0 ''h'' 1, TkTurn 0 ''h'' 1]) = 1"
proof -
  let ?s = "(demo_periodic [] True (Interval (VInt 5)))\<lparr>pt_running := False, pt_point := Iterating\<rparr>"
  have "\<not> pt_running ?s" "runs ?s = 0" by (simp_all add: demo_periodic_def runs_def)
  then have "runs (snd (end_iteration next_after 0 ''h'' 1 ?s)) = 1"
    using end_iteration_stopped(1)[of ?s next_after 0 "''h''" 1] by simp
  then show ?thesis
    by (simp add: task_stop_accepting_def py_modify_run py_if_run loop_turn_def first_turn_def
        demo_periodic_def)
qed

section \<open>The loop goes on\<close>

text \<open>Nothing the outside raises is a cancellation, and the setting about reports can be read.\<close>

definition calm :: "'z consumer_state_scheme \<Rightarrow> bool" where
  "calm s \<longleftrightarrow> Raises CancelledError \<notin> set (script s) \<and>
     (\<exists>v. get_kontiki_parameter (cns_config s) ''registration.report_uncaught_exceptions''
            (VBool True) = Inr v)"

lemma calm_io:
  assumes "calm s"
  shows "calm (snd (io e s))" "\<And>x. fst (io e s) = Inl x \<Longrightarrow> is_Exception x"
  using assms by (cases rule: io_cases[of e s]; fastforce simp: calm_def is_Exception_def)+

lemma calm_report:
  assumes "calm s"
  shows "fst (report_uncaught_exception t e s) = Inr ()" "calm (snd (report_uncaught_exception t e s))"
proof -
  have r: "fst (report_exception t e s) = Inr ()"
    using calm_io(2)[OF assms, of "RegisterException e (get_handler_ctx_fields t (scope s))"]
    by (auto simp: report_exception_def py_bind_run py_read_run py_try_run py_then_run py_return_run
        py_if_run split: prod.splits sum.splits option.splits)
  with assms show "fst (report_uncaught_exception t e s) = Inr ()"
    by (auto simp: calm_def report_uncaught_exception_def py_bind_run py_read_run py_lift_run py_return_run)
  show "calm (snd (report_uncaught_exception t e s))"
    using report_uncaught_snd[of t e s] assms calm_io(1)[OF assms]
    by (auto simp: report_exception_snd split: if_splits)
qed

lemma calm_execute:
  assumes "calm s"
  shows "fst (execute_user_task fresh t s) = Inr () \<and> calm (snd (execute_user_task fresh t s))"
proof -
  let ?u = "entered ''task'' (pt_name s) None False fresh t s"
  let ?e = "RunHandler (pt_name s) [] [] None"
  have u: "calm ?u" using assms by (simp add: entered_def calm_def)
  obtain r v where v: "io ?e ?u = (r, v)" by fastforce
  have "calm v" using calm_io(1)[OF u, of ?e] v by simp
  moreover have "is_Exception x" if "r = Inl x" for x
    using calm_io(2)[OF u, of ?e x] v that by simp
  ultimately have "fst (py_except (py_then (io ?e) (py_return ())) (report_uncaught_exception t) ?u) = Inr () \<and>
     calm (snd (py_except (py_then (io ?e) (py_return ())) (report_uncaught_exception t) ?u))"
    using v calm_report[of v t] by (cases r) (simp_all add: py_try_run py_then_run py_return_run)
  then show ?thesis
    by (auto simp: execute_user_task_def in_handler_scope_run calm_def split: prod.splits)
qed

text \<open>Where the loop stands after a number of turns, and how often the method has run by then.\<close>

fun place_after :: "bool \<Rightarrow> nat \<Rightarrow> point" where
  "place_after immediate 0 = Scheduled"
| "place_after immediate (Suc n) = (if immediate = even n then Iterating else Asleep)"

fun runs_after :: "bool \<Rightarrow> nat \<Rightarrow> nat" where
  "runs_after immediate n = (if immediate then n div 2 else (n - 1) div 2)"

definition on_course ::
  "(string \<Rightarrow> int \<Rightarrow> exn + int) \<Rightarrow> periodic \<Rightarrow> nat \<Rightarrow> periodic \<Rightarrow> bool" where
  "on_course next_after start n s \<longleftrightarrow>
     calm s \<and> pt_running s \<and> pt_schedule s = pt_schedule start \<and>
     pt_immediate s = pt_immediate start \<and> pt_point s = place_after (pt_immediate start) n \<and>
     runs s = runs start + runs_after (pt_immediate start) n"

lemma loop_head_sleeps:
  assumes "pt_running s" "loop_delay next_after now (pt_schedule s) = Inr d"
  shows "loop_head next_after now s =
    (Inr (), s\<lparr>trace := trace s @ [(Sleep d, True)], pt_point := Asleep\<rparr>)"
  using assms by (simp add: loop_head_def py_simps)

lemma on_course_turn:
  assumes "on_course next_after start n s"
    and "\<And>now. \<exists>d. loop_delay next_after now (pt_schedule start) = Inr d"
  shows "on_course next_after start (Suc n) (loop_turn next_after now fresh t s)"
proof -
  obtain d where d: "loop_delay next_after now (pt_schedule s) = Inr d"
    using assms by (auto simp: on_course_def)
  note c = assms(1)[unfolded on_course_def]
  have head: "loop_head next_after now v =
      (Inr (), v\<lparr>trace := trace v @ [(Sleep d, True)], pt_point := Asleep\<rparr>)"
    if "pt_running v" "pt_schedule v = pt_schedule s" for v
    using loop_head_sleeps[of v next_after now d] that d by simp
  consider (first) "n = 0" | (asleep) m where "n = Suc m" "pt_point s = Asleep"
    | (iterating) m where "n = Suc m" "pt_point s = Iterating"
    using c by (cases n) (auto split: if_splits)
  then show ?thesis
  proof cases
    case first
    then show ?thesis using c head[of s]
      by (auto simp: on_course_def loop_turn_def first_turn_def ends_on_error_def py_if_run
          py_modify_run calm_def runs_def is_run_def)
  next
    case asleep
    then show ?thesis using c
      by (auto simp: on_course_def loop_turn_def wake_up_def py_if_run py_modify_run calm_def runs_def
          split: if_splits)
  next
    case iterating
    obtain v where v: "execute_user_task fresh t s = (Inr (), v)" "calm v"
      using calm_execute[of s fresh t] c by (cases "execute_user_task fresh t s") auto
    with execute_user_task_runs[of fresh t s]
    have f: "runs v = Suc (runs s)" "pt_fields v = pt_fields s" by simp_all
    then have "pt_running v" "pt_schedule v = pt_schedule s" "pt_immediate v = pt_immediate s"
      using c by (simp_all add: pt_fields_def)
    with v f(1) iterating c head[of v] show ?thesis
      by (auto simp: on_course_def loop_turn_def end_iteration_def ends_on_error_def py_then_run
          calm_def runs_def is_run_def split: if_splits)
  qed
qed

lemma on_course_turns:
  assumes "on_course next_after start n s"
    and "\<And>now. \<exists>d. loop_delay next_after now (pt_schedule start) = Inr d"
  shows "on_course next_after start (n + length turns)
    (run_events (tk_step next_after) s (map (\<lambda>(now, fresh, t). TkTurn now fresh t) turns))"
  using assms(1)
proof (induction turns arbitrary: n s)
  case (Cons turn turns)
  obtain now fresh t where "turn = (now, fresh, t)" by (cases turn) auto
  with Cons.IH[of "Suc n" "loop_turn next_after now fresh t s"]
    on_course_turn[OF Cons.prems assms(2), of now fresh t] show ?case by simp
qed simp

text \<open>
  C32: A started task keeps its rhythm. As long as its schedule gives delays, nobody stops it and
  nothing is cancelled, the exceptions of its method never end the loop: after any number of turns
  the loop is waiting for the next one, and the method has run exactly once in every two turns, from
  the first turn on when it is immediate, otherwise after the first sleep.
\<close>

theorem periodic_task_keeps_running:
  assumes "\<And>now. \<exists>d. loop_delay next_after now (pt_schedule s) = Inr d"
    and "calm s" "pt_running s" "pt_point s = Scheduled"
  shows "\<exists>s'. s' = run_events (tk_step next_after) s (map (\<lambda>(now, fresh, t). TkTurn now fresh t) turns) \<and>
    pt_running s' \<and> pt_point s' \<in> {Scheduled, Asleep, Iterating} \<and>
    runs s' = runs s + (if pt_immediate s then length turns div 2 else (length turns - 1) div 2)"
proof -
  have "on_course next_after s 0 s" using assms by (simp add: on_course_def)
  from on_course_turns[OF this assms(1), of turns]
  show ?thesis by (cases "length turns") (auto simp: on_course_def)
qed

theorem periodic_task_keeps_running_witness:
  "\<exists>s'. s' = run_events (tk_step (\<lambda>_ t. Inr t))
       (demo_periodic [Raises (OtherError ''UserError'' [])] True (Interval (VInt 5)))
       (map (\<lambda>(now, fresh, t). TkTurn now fresh t) [(0, ''h'', 1), (0, ''h'', 1), (5, ''h'', 1), (5, ''i'', 1)]) \<and>
    pt_running s' \<and> pt_point s' \<in> {Scheduled, Asleep, Iterating} \<and>
    runs s' = runs (demo_periodic [Raises (OtherError ''UserError'' [])] True (Interval (VInt 5))) +
      (if pt_immediate (demo_periodic [Raises (OtherError ''UserError'' [])] True (Interval (VInt 5)))
       then length [(0 :: int, ''h'', 1 :: nat), (0, ''h'', 1), (5, ''h'', 1), (5, ''i'', 1)] div 2
       else (length [(0 :: int, ''h'', 1 :: nat), (0, ''h'', 1), (5, ''h'', 1), (5, ''i'', 1)] - 1) div 2)"
  by (rule periodic_task_keeps_running)
    (simp_all add: demo_periodic_def loop_delay_def calm_def get_kontiki_parameter_def get_parameter_def
      config_parameter_get_default path_keys_def KONTIKI_def)

text \<open>
  A cancellation raised in the method itself, such as by awaiting a task that somebody else
  cancelled, is not an \<open>Exception\<close>: it ends the loop although nobody stopped it.
\<close>

lemma stray_cancellation_ends_loop:
  "pt_point (loop_turn next_after now fresh t
     ((demo_periodic [Raises CancelledError] True (Interval (VInt 5)))\<lparr>pt_point := Iterating\<rparr>)) =
   Ended (Some CancelledError)"
  by (simp add: loop_turn_def end_iteration_def ends_on_error_def execute_user_task_def
      in_handler_scope_run entered_def py_try_run py_then_run io_def demo_periodic_def
      split: prod.splits)

text \<open>What the decorator accepts literally, the container resolves to the same schedule.\<close>

lemma literal_schedule_resolves:
  assumes "task_decorator is_valid interval immediate cron use_config = Inr m"
    and "tm_schedule m = Cron c False \<or> (\<exists>i. tm_schedule m = Interval i \<and> \<not> is_str i)"
  shows "resolve_schedule is_valid config m =
    Inr (case tm_schedule m of Cron c _ \<Rightarrow> VStr c | Interval i \<Rightarrow> i)"
  using assms
  by (auto simp: task_decorator_def resolve_schedule_def resolve_task_cron_def
      resolve_task_interval_def split: if_splits pyval.splits sum.splits)

end
