(* ===== verification/Entrypoint_Catalog.thy ===== *)
theory Entrypoint_Catalog
  imports Consumer_Setup Task_Scheduling
begin

text \<open>
  The entrypoints a service announces with its registration (\<open>registry/catalog.py\<close>), and what the
  container says of the service (\<open>hosted\<close>: its identity and the endpoints \<open>get_endpoints\<close> finds, with
  the names of their methods). croniter's \<open>is_valid\<close> is a parameter, as in Task_Scheduling.
\<close>

record http_endpoint =
  he_path_or_key :: pyval
  he_method :: string
  he_use_config :: bool

record hosted =
  hs_config :: pyval
  hs_service_name :: string
  hs_instance_id :: string
  hs_pid :: int
  hs_host :: string
  hs_version :: pyval
  hs_http_server :: bool
  hs_events :: "(string \<times> event_endpoint \<times> signature) list"
  hs_rpcs :: "(string \<times> rpc_endpoint \<times> signature) list"
  hs_https :: "(string \<times> http_endpoint) list"
  hs_tasks :: "(string \<times> task_mark) list"

definition event_mode :: "event_endpoint \<Rightarrow> string" where
  "event_mode data =
     (if ep_broadcast data then ''broadcast''
      else if ep_target_instance data then ''in_session'' else ''competing'')"

definition event_entry :: "pyval \<Rightarrow> string \<Rightarrow> event_endpoint \<Rightarrow> string \<Rightarrow> pyval" where
  "event_entry default_attempts handler data event_type =
     VDict ([(''type'', VStr ''event''), (''name'', VStr event_type), (''handler'', VStr handler),
             (''mode'', VStr (event_mode data))]
       @ (if event_mode data = ''competing''
          then [(''max_attempts'', effective_max_attempts data default_attempts)] else []))"

definition event_types_of :: "pyval \<Rightarrow> event_endpoint \<Rightarrow> exn + string list" where
  "event_types_of config data =
     (case resolve_parameter_path config (ep_event_type_or_key data) (ep_use_config data) of
        Inl e \<Rightarrow> Inl e | Inr resolved \<Rightarrow> normalize_event_types resolved)"

definition event_entrypoints :: "hosted \<Rightarrow> exn + pyval list" where
  "event_entrypoints h =
     (case get_kontiki_parameter (hs_config h) ''amqp.max_attempts'' (VInt 3) of
        Inl e \<Rightarrow> Inl e
      | Inr default_attempts \<Rightarrow>
          map_sum id concat (map_res (\<lambda>(handler, data, sig).
            map_sum id (map (event_entry default_attempts handler data))
              (event_types_of (hs_config h) data)) (hs_events h)))"

definition rpc_entrypoints :: "hosted \<Rightarrow> pyval list" where
  "rpc_entrypoints h = map (\<lambda>(handler, ep, sig).
     VDict [(''type'', VStr ''rpc''), (''name'', VStr (rep_name ep)), (''handler'', VStr handler)])
     (hs_rpcs h)"

definition http_entrypoints :: "hosted \<Rightarrow> exn + pyval list" where
  "http_entrypoints h =
     (if \<not> hs_http_server h then Inr []
      else map_res (\<lambda>(handler, ep).
        map_sum id (\<lambda>path. VDict [(''type'', VStr ''http''), (''method'', VStr (he_method ep)),
            (''path'', path), (''handler'', VStr handler)])
          (resolve_parameter_path (hs_config h) (he_path_or_key ep) (he_use_config ep))) (hs_https h))"

definition task_entrypoints :: "(string \<Rightarrow> bool) \<Rightarrow> hosted \<Rightarrow> exn + pyval list" where
  "task_entrypoints is_valid h =
     map_res (\<lambda>(handler, m).
       map_sum id (\<lambda>schedule. VDict [(''type'', VStr ''task''), (''handler'', VStr handler),
           (''schedule'', schedule)])
         (resolve_schedule is_valid (hs_config h) m)) (hs_tasks h)"

definition registration_entrypoints :: "(string \<Rightarrow> bool) \<Rightarrow> hosted \<Rightarrow> exn + pyval list" where
  "registration_entrypoints is_valid h =
     (case event_entrypoints h of
        Inl e \<Rightarrow> Inl e
      | Inr events \<Rightarrow> (case http_entrypoints h of
          Inl e \<Rightarrow> Inl e
        | Inr https \<Rightarrow> (case task_entrypoints is_valid h of
            Inl e \<Rightarrow> Inl e
          | Inr tasks \<Rightarrow> Inr (events @ rpc_entrypoints h @ https @ tasks))))"

section \<open>The catalogue and the queues agree\<close>

text \<open>An event of the service that has a work queue, by its endpoints and the configuration.\<close>

definition competes_for :: "hosted \<Rightarrow> string \<Rightarrow> bool" where
  "competes_for h ev \<longleftrightarrow> (\<exists>handler data sig ts. (handler, data, sig) \<in> set (hs_events h) \<and>
     \<not> one_off data \<and> event_types_of (hs_config h) data = Inr ts \<and> ev \<in> set ts)"

text \<open>An entry of the catalogue as the receiver of a registration reads it.\<close>

definition announces :: "string \<Rightarrow> pyval \<Rightarrow> bool" where
  "announces ev entry \<longleftrightarrow> (\<exists>d. entry = VDict d \<and>
     dget_default d ''type'' VNone = VStr ''event'' \<and> dget_default d ''name'' VNone = VStr ev \<and>
     dget_default d ''mode'' VNone = VStr ''competing'')"

lemma map_res_mem:
  "map_res f xs = Inr ys \<Longrightarrow> y \<in> set ys \<longleftrightarrow> (\<exists>x \<in> set xs. f x = Inr y)"
  by (induction xs arbitrary: ys) (auto split: sum.splits)

lemma map_sum_Inr_iff: "map_sum id f r = Inr y \<longleftrightarrow> (\<exists>x. r = Inr x \<and> y = f x)"
  by (cases r) auto

lemma event_mode_competing: "event_mode data = ''competing'' \<longleftrightarrow> \<not> one_off data"
  by (simp add: event_mode_def one_off_def)

lemma event_entry_announces:
  "announces ev (event_entry dflt handler data ty) \<longleftrightarrow> ty = ev \<and> \<not> one_off data"
  by (auto simp: announces_def event_entry_def dget_default_def event_mode_competing[symmetric])

lemma other_entries_silent:
  "entry \<in> set (rpc_entrypoints h) \<Longrightarrow> \<not> announces ev entry"
  "http_entrypoints h = Inr es \<Longrightarrow> entry \<in> set es \<Longrightarrow> \<not> announces ev entry"
  "task_entrypoints is_valid h = Inr es \<Longrightarrow> entry \<in> set es \<Longrightarrow> \<not> announces ev entry"
  by (auto simp: rpc_entrypoints_def http_entrypoints_def task_entrypoints_def announces_def
      dget_default_def map_res_mem map_sum_Inr_iff split: if_splits sum.splits)

lemma event_entrypoints_mem:
  assumes "event_entrypoints h = Inr es"
  shows "(\<exists>entry \<in> set es. announces ev entry) \<longleftrightarrow> competes_for h ev"
proof -
  let ?f = "\<lambda>dflt (handler, data, sig). map_sum id (map (event_entry dflt handler data))
      (event_types_of (hs_config h) data)"
  obtain dflt ess where d: "map_res (?f dflt) (hs_events h) = Inr ess" "es = concat ess"
    using assms by (auto simp: event_entrypoints_def map_sum_Inr_iff split: sum.splits)
  have "(\<exists>entry \<in> set es. announces ev entry) \<longleftrightarrow>
      (\<exists>x \<in> set (hs_events h). \<exists>es. ?f dflt x = Inr es \<and> (\<exists>entry \<in> set es. announces ev entry))"
  proof -
    have "(\<exists>entry \<in> set es. announces ev entry) \<longleftrightarrow>
        (\<exists>y. y \<in> set ess \<and> (\<exists>entry \<in> set y. announces ev entry))"
      unfolding d(2) by auto
    also have "\<dots> \<longleftrightarrow> (\<exists>y. (\<exists>x \<in> set (hs_events h). ?f dflt x = Inr y) \<and>
        (\<exists>entry \<in> set y. announces ev entry))"
      by (simp only: map_res_mem[OF d(1)])
    finally show ?thesis by blast
  qed
  also have "\<dots> \<longleftrightarrow> competes_for h ev"
    unfolding competes_for_def
    by (force simp: event_entry_announces map_sum_Inr_iff)
  finally show ?thesis .
qed

lemma catalogue_announces:
  assumes "registration_entrypoints is_valid h = Inr es"
  shows "(\<exists>entry \<in> set es. announces ev entry) \<longleftrightarrow> competes_for h ev"
proof -
  obtain events https tasks where p: "event_entrypoints h = Inr events" "http_entrypoints h = Inr https"
    "task_entrypoints is_valid h = Inr tasks" "es = events @ rpc_entrypoints h @ https @ tasks"
    using assms by (auto simp: registration_entrypoints_def split: sum.splits)
  with event_entrypoints_mem[OF p(1), of ev] other_entries_silent(1)[of _ h ev]
    other_entries_silent(2)[OF p(2), of _ ev] other_entries_silent(3)[OF p(3), of _ ev]
  show ?thesis by auto
qed

end
