(* ===== verification/Activity.thy ===== *)
theory Activity
  imports Registry_Server
begin

text \<open>
  The activity tracker of the registry (\<open>registry/server/delegates/activity_tracking.py\<close>): the
  timeline of bus events and contexts, the exception records, their retention, and what
  \<open>get_events\<close> and \<open>get_exceptions\<close> of \<open>registry/server/core.py\<close> hand out.

  The tracker calls back into the core to publish a recorded exception, so its state contains the
  registry's; \<open>in_core\<close> runs an operation of the core with the tracker's own script and trace.
  Instants are microseconds since 1970 in UTC. \<open>fromiso\<close> is \<open>datetime.fromisoformat\<close> followed by the
  conversion to UTC (a naive instant counts as UTC): the instant a text denotes, \<open>None\<close> when it is
  refused.
\<close>

section \<open>State\<close>

datatype at_effect =
    Core reg_effect
  | AtExchange string
  | AtBindExchange string string
  | AtQueue string
  | AtBindQueue string string
  | AtConsume string
  | AtSettle bool "exn option"
  | AtStartCleanup
  | AtSleep int
  | AtConnect pyval "tls_context option"
  | AtChannel
  | AtQos int
  | AtClose

record activity = "at_effect world" +
  at_core :: registry
  at_events :: "pyval list"
  at_exceptions :: "pyval list"
  at_ttl :: "int option"
  at_disabled :: bool
  at_cleanup_interval :: int
  at_connected :: bool

lemma at_core_update_kept [simp]:
  fixes s :: activity
  shows "script (s\<lparr>at_core := c\<rparr>) = script s" "trace (s\<lparr>at_core := c\<rparr>) = trace s"
  by (cases s; simp)+

record tracker_config =
  tc_ttl_minutes :: int
  tc_ttl_hours :: int
  tc_disable :: bool
  tc_cleanup_interval_seconds :: int

definition default_tracker_config :: tracker_config where
  "default_tracker_config = \<lparr>tc_ttl_minutes = 0, tc_ttl_hours = 24 * 7, tc_disable = False,
     tc_cleanup_interval_seconds = 3600\<rparr>"

definition tracker_init :: "registry \<Rightarrow> reply list \<Rightarrow> activity" where
  "tracker_init core answers = \<lparr>script = answers, trace = [], at_core = core, at_events = [],
     at_exceptions = [], at_ttl = None, at_disabled = False, at_cleanup_interval = 0,
     at_connected = False\<rparr>"

definition in_core :: "(registry, 'a) py \<Rightarrow> (activity, 'a) py" where
  "in_core m = (\<lambda>s. case m ((at_core s)\<lparr>script := script s, trace := []\<rparr>) of
     (r, c) \<Rightarrow> (r, s\<lparr>script := script c, trace := trace s @ map (\<lambda>(e, b). (Core e, b)) (trace c),
                     at_core := c\<lparr>script := [], trace := []\<rparr>\<rparr>))"

definition at_call :: "at_effect \<Rightarrow> (activity, unit) py" where
  "at_call e = py_then (io e) (py_return ())"

definition at_log :: "exn \<Rightarrow> (activity, unit) py" where
  "at_log e = py_return ()"

section \<open>Setup\<close>

text \<open>Minutes when they are positive, otherwise hours; with neither, the attribute stays unset.\<close>

definition tracker_ttl :: "tracker_config \<Rightarrow> int option" where
  "tracker_ttl tracker =
     (if tc_ttl_minutes tracker > 0 then Some (tc_ttl_minutes tracker)
      else if tc_ttl_hours tracker > 0 then Some (tc_ttl_hours tracker * 60)
      else None)"

definition REGISTRY_ADMIN_EXCHANGE :: string where
  "REGISTRY_ADMIN_EXCHANGE = ''registry_admin_exchange''"
definition REGISTRY_EVENT_EXCHANGE :: string where
  "REGISTRY_EVENT_EXCHANGE = ''registry_event_exchange''"
definition TRACKER_QUEUE :: string where "TRACKER_QUEUE = ''event_tracker.queue''"

definition create_and_consume_queue :: "string \<Rightarrow> (activity, unit) py" where
  "create_and_consume_queue routing_key =
     py_except
       (py_then (at_call (AtQueue (routing_key @ ''.queue'')))
       (py_then (at_call (AtBindQueue (routing_key @ ''.queue'') routing_key))
          (at_call (AtConsume (routing_key @ ''.queue'')))))
       at_log"

definition timeline_queue :: "(activity, unit) py" where
  "timeline_queue =
     py_except
       (py_each at_call
          [AtExchange REGISTRY_EVENT_EXCHANGE, AtExchange EVENT_EXCHANGE, AtExchange RPC_EXCHANGE,
           AtBindExchange EVENT_EXCHANGE ''#'', AtBindExchange RPC_EXCHANGE ''#'',
           AtQueue TRACKER_QUEUE, AtBindQueue TRACKER_QUEUE ''#'', AtConsume TRACKER_QUEUE])
       at_log"

definition tracker_setup :: "tracker_config \<Rightarrow> (activity, unit) py" where
  "tracker_setup tracker =
     py_then (py_modify (\<lambda>s. s
        \<lparr>at_ttl := (case tracker_ttl tracker of None \<Rightarrow> at_ttl s | Some t \<Rightarrow> Some t),
         at_disabled := tc_disable tracker,
         at_cleanup_interval := tc_cleanup_interval_seconds tracker\<rparr>))
     (py_if at_disabled (py_return ())
        (py_then timeline_queue
        (py_then (create_and_consume_queue EXCEPTION_RKEY)
        (py_then (create_and_consume_queue CONTEXT_RKEY)
           (record_effect AtStartCleanup)))))"

section \<open>Recording\<close>

text \<open>Membership in a frozen set hashes the value, which raises for a list, a dict or a set.\<close>

fun hashable :: "pyval \<Rightarrow> bool" where
  "hashable (VList xs) = False"
| "hashable (VDict d) = False"
| "hashable (VSet xs) = False"
| "hashable (VTuple xs) = (\<forall>x \<in> set xs. hashable x)"
| "hashable (VRpc a b c d e) = False"
| "hashable v = True"

definition TIMELINE_EXCLUDED_EVENTS :: "string list" where
  "TIMELINE_EXCLUDED_EVENTS = [EXCEPTION_RECORDED]"

definition timeline_excluded :: "pyval \<Rightarrow> exn + bool" where
  "timeline_excluded event_type =
     (if \<not> hashable event_type then Inl (TypeError ''unhashable type'')
      else Inr (case event_type of VStr t \<Rightarrow> t \<in> set TIMELINE_EXCLUDED_EVENTS | _ \<Rightarrow> False))"

definition record_event :: "pyval \<Rightarrow> (activity, unit) py" where
  "record_event item = py_modify (\<lambda>s. s\<lparr>at_events := at_events s @ [item]\<rparr>)"

text \<open>\<open>message.headers or {}\<close>: absent headers count as none.\<close>

definition handle_event :: "pydict \<Rightarrow> (activity, unit) py" where
  "handle_event headers =
     process_message AtSettle False (py_except
       (py_bind (py_lift (timeline_excluded (dget_default headers ''event_type'' (VStr ''_rpc_event''))))
          (\<lambda>excluded. if excluded then py_return () else record_event (VDict headers)))
       at_log)"

definition context_item :: "pyval \<Rightarrow> exn + pyval" where
  "context_item data =
     (case data of
        VDict d \<Rightarrow> Inr (VDict (dset ''event_type'' (VStr CONTEXT_RECORDED) d))
      | _ \<Rightarrow> Inl (TypeError ''not a mapping''))"

definition handle_context :: "exn + pyval \<Rightarrow> (activity, unit) py" where
  "handle_context loaded =
     process_message AtSettle False (py_except
       (py_bind (py_lift loaded) (\<lambda>data.
        py_bind (py_lift (context_item data)) record_event))
       at_log)"

definition publish_recorded :: "pyval \<Rightarrow> (registry, unit) py" where
  "publish_recorded data =
     (case data of
        VDict d \<Rightarrow> on_exception_recorded d
      | _ \<Rightarrow> py_raise (TypeError ''not subscriptable by name''))"

definition handle_exception :: "exn + pyval \<Rightarrow> (activity, unit) py" where
  "handle_exception loaded =
     process_message AtSettle False (py_except
       (py_bind (py_lift loaded) (\<lambda>data.
        py_then (py_modify (\<lambda>s. s\<lparr>at_exceptions := at_exceptions s @ [data]\<rparr>))
          (in_core (publish_recorded data))))
       at_log)"

section \<open>Retention\<close>

text \<open>The first instant a \<open>datetime\<close> can hold; going below it raises.\<close>

definition MIN_INSTANT_US :: int where "MIN_INSTANT_US = - 62135596800000000"

definition expiration_time :: "int \<Rightarrow> int option \<Rightarrow> exn + int" where
  "expiration_time now ttl =
     (case ttl of
        None \<Rightarrow> Inl (AttributeError ''ttl'')
      | Some minutes \<Rightarrow>
          if now - minutes * 60000000 < MIN_INSTANT_US then Inl (OtherError ''OverflowError'' [])
          else Inr (now - minutes * 60000000))"

text \<open>
  When an item was recorded: \<open>None\<close> for an item without a timestamp or with an invalid one. A
  timestamp that is neither text nor an instant cannot be compared with one.
\<close>

definition item_instant :: "(string \<Rightarrow> int option) \<Rightarrow> pyval \<Rightarrow> exn + int option" where
  "item_instant fromiso item =
     (case item of
        VDict d \<Rightarrow> (case dget_default d ''timestamp'' VNone of
           VNone \<Rightarrow> Inr None
         | VStr text \<Rightarrow> Inr (fromiso text)
         | VTemporal text \<Rightarrow> (case fromiso text of
              None \<Rightarrow> Inl (TypeError ''<= not supported'') | Some t \<Rightarrow> Inr (Some t))
         | _ \<Rightarrow> Inl (TypeError ''<= not supported''))
      | _ \<Rightarrow> Inl (AttributeError ''get''))"

fun cutoff_loop :: "(string \<Rightarrow> int option) \<Rightarrow> int \<Rightarrow> nat \<Rightarrow> nat \<Rightarrow> pyval list \<Rightarrow> exn + nat" where
  "cutoff_loop fromiso expiration index cutoff [] = Inr cutoff"
| "cutoff_loop fromiso expiration index cutoff (item # rest) =
     (case item_instant fromiso item of
        Inl e \<Rightarrow> Inl e
      | Inr None \<Rightarrow> cutoff_loop fromiso expiration (index + 1) (index + 1) rest
      | Inr (Some t) \<Rightarrow>
          if t \<le> expiration then cutoff_loop fromiso expiration (index + 1) (index + 1) rest
          else Inr cutoff)"

definition purge_expired ::
  "(string \<Rightarrow> int option) \<Rightarrow> int \<Rightarrow> int option \<Rightarrow> pyval list \<Rightarrow> exn + pyval list" where
  "purge_expired fromiso now ttl items =
     (case expiration_time now ttl of
        Inl e \<Rightarrow> Inl e
      | Inr expiration \<Rightarrow> (case cutoff_loop fromiso expiration 0 0 items of
           Inl e \<Rightarrow> Inl e
         | Inr cutoff \<Rightarrow> Inr (if cutoff > 0 then drop cutoff items else items)))"

definition purge_events :: "(string \<Rightarrow> int option) \<Rightarrow> int \<Rightarrow> (activity, unit) py" where
  "purge_events fromiso now =
     py_bind (py_read (\<lambda>s. purge_expired fromiso now (at_ttl s) (at_events s))) (\<lambda>r.
     py_bind (py_lift r) (\<lambda>items. py_modify (\<lambda>s. s\<lparr>at_events := items\<rparr>)))"

definition purge_exceptions :: "(string \<Rightarrow> int option) \<Rightarrow> int \<Rightarrow> (activity, unit) py" where
  "purge_exceptions fromiso now =
     py_bind (py_read (\<lambda>s. purge_expired fromiso now (at_ttl s) (at_exceptions s))) (\<lambda>r.
     py_bind (py_lift r) (\<lambda>items. py_modify (\<lambda>s. s\<lparr>at_exceptions := items\<rparr>)))"

text \<open>
  One turn of the cleanup loop; the answer says whether the loop goes on. The first line of the task
  already reads the retention, so with an unset one the task ends before its loop.
\<close>

definition cleanup_start :: "activity \<Rightarrow> exn + unit" where
  "cleanup_start s = (case at_ttl s of None \<Rightarrow> Inl (AttributeError ''ttl'') | Some t \<Rightarrow> Inr ())"

definition cleanup_sleep :: "(activity, bool) py" where
  "cleanup_sleep = py_bind (py_read at_cleanup_interval) (\<lambda>d.
     py_then (at_call (AtSleep d)) (py_return True))"

definition cleanup_turn :: "(string \<Rightarrow> int option) \<Rightarrow> int \<Rightarrow> (activity, bool) py" where
  "cleanup_turn fromiso now =
     py_try (py_then (purge_events fromiso now) (py_then (purge_exceptions fromiso now) cleanup_sleep))
       (\<lambda>e. if e = CancelledError then Some (py_return False)
            else if is_Exception e then Some cleanup_sleep else None)"

section \<open>What the registry hands out\<close>

text \<open>
  \<open>make_serializable\<close>. A decoded \<open>RpcReturn\<close> is turned into its \<open>__dict__\<close>; of the dictionary of
  its error type, an enumeration member, only the entry that leads to its class is kept, which no
  encoder accepts. \<open>decode\<close> is UTF-8 decoding with replacement.
\<close>

definition enum_dict :: pyval where
  "enum_dict = VDict [(''__objclass__'', VOpaque ''mappingproxy'')]"

fun make_serializable :: "(8 word list \<Rightarrow> string) \<Rightarrow> pyval \<Rightarrow> pyval" where
  "make_serializable decode (VDict d) = VDict (map (\<lambda>(k, v). (k, make_serializable decode v)) d)"
| "make_serializable decode (VList xs) = VList (map (make_serializable decode) xs)"
| "make_serializable decode (VSet xs) = VList xs"
| "make_serializable decode (VTemporal text) = VStr text"
| "make_serializable decode (VRpc success result message error_type error_code) =
     VDict [(''success'', VBool success), (''result'', make_serializable decode result),
       (''message'', make_serializable decode message), (''error_type'', enum_dict),
       (''error_code'', make_serializable decode error_code)]"
| "make_serializable decode (VObject d) = VDict (map (\<lambda>(k, v). (k, make_serializable decode v)) d)"
| "make_serializable decode (VBytes bs) = VStr (decode bs)"
| "make_serializable decode v = v"

definition get_events :: "(8 word list \<Rightarrow> string) \<Rightarrow> activity \<Rightarrow> pyval" where
  "get_events decode s = make_serializable decode (VList (at_events s))"

definition get_exceptions :: "(8 word list \<Rightarrow> string) \<Rightarrow> activity \<Rightarrow> pyval" where
  "get_exceptions decode s = make_serializable decode (VList (at_exceptions s))"

section \<open>Purging is a filter\<close>

text \<open>An item that goes when everything up to an instant has expired.\<close>

definition gone :: "(string \<Rightarrow> int option) \<Rightarrow> int \<Rightarrow> pyval \<Rightarrow> bool" where
  "gone fromiso expiration item =
     (case item_instant fromiso item of
        Inl e \<Rightarrow> False | Inr None \<Rightarrow> True | Inr (Some t) \<Rightarrow> t \<le> expiration)"

lemma cutoff_loop_spec:
  "cutoff_loop fromiso x i i items =
     (case dropWhile (gone fromiso x) items of
        [] \<Rightarrow> Inr (i + length items)
      | item # rest \<Rightarrow> (case item_instant fromiso item of
           Inl e \<Rightarrow> Inl e | Inr _ \<Rightarrow> Inr (i + length (takeWhile (gone fromiso x) items))))"
proof (induction items arbitrary: i)
  case (Cons a items)
  show ?case
  proof (cases "gone fromiso x a")
    case True
    then have e: "cutoff_loop fromiso x i i (a # items) = cutoff_loop fromiso x (i + 1) (i + 1) items"
      by (auto simp: gone_def split: sum.splits option.splits)
    show ?thesis unfolding e Cons.IH using True
      by (cases "dropWhile (gone fromiso x) items")
        (simp_all del: dropWhile_eq_Nil_conv split: sum.split)
  next
    case False
    then show ?thesis by (auto simp: gone_def split: sum.splits option.splits)
  qed
qed simp

lemma purge_expired_spec:
  "purge_expired fromiso now ttl items =
     (case expiration_time now ttl of
        Inl e \<Rightarrow> Inl e
      | Inr x \<Rightarrow> (case dropWhile (gone fromiso x) items of
           [] \<Rightarrow> Inr []
         | item # rest \<Rightarrow> (case item_instant fromiso item of
              Inl e \<Rightarrow> Inl e | Inr _ \<Rightarrow> Inr (dropWhile (gone fromiso x) items))))"
  by (auto simp: purge_expired_def cutoff_loop_spec dropWhile_eq_drop split: sum.splits list.splits)

text \<open>A record whose timestamp cannot be compared stops every purge that reaches it.\<close>

lemma unreadable_record_stops_purge:
  assumes "expiration_time now ttl = Inr x" "item_instant fromiso item = Inl e"
    and "list_all (gone fromiso x) before"
  shows "purge_expired fromiso now ttl (before @ item # rest) = Inl e"
proof -
  have "dropWhile (gone fromiso x) (before @ item # rest) = item # rest"
    using assms(2,3) by (induction before) (auto simp: gone_def)
  with assms(1,2) show ?thesis by (simp add: purge_expired_spec)
qed

definition instant_of :: "(string \<Rightarrow> int option) \<Rightarrow> pyval \<Rightarrow> int" where
  "instant_of fromiso item =
     (case item_instant fromiso item of Inr (Some t) \<Rightarrow> t | _ \<Rightarrow> MIN_INSTANT_US)"

definition readable_items :: "(string \<Rightarrow> int option) \<Rightarrow> pyval list \<Rightarrow> bool" where
  "readable_items fromiso items \<longleftrightarrow>
     list_all (\<lambda>item. case item_instant fromiso item of Inr (Some t) \<Rightarrow> True | _ \<Rightarrow> False) items"

lemma dropWhile_sorted_filter:
  fixes f :: "'a \<Rightarrow> int"
  assumes "sorted (map f xs)"
  shows "dropWhile (\<lambda>x. f x \<le> b) xs = filter (\<lambda>x. b < f x) xs"
  using assms
proof (induction xs)
  case (Cons a xs)
  then have "b < f a \<Longrightarrow> \<forall>x\<in>set xs. b < f x" by auto
  then have "b < f a \<Longrightarrow> filter (\<lambda>x. b < f x) xs = xs" by simp
  with Cons show ?case by simp
qed simp

lemma gone_instant:
  "readable_items fromiso items \<Longrightarrow> item \<in> set items \<Longrightarrow>
     gone fromiso x item \<longleftrightarrow> instant_of fromiso item \<le> x"
  by (auto simp: readable_items_def list_all_iff gone_def instant_of_def
      split: sum.splits option.splits dest!: bspec)

lemma purge_readable:
  assumes "readable_items fromiso items" "expiration_time now ttl = Inr x"
  shows "purge_expired fromiso now ttl items = Inr (dropWhile (gone fromiso x) items)"
proof (cases "dropWhile (gone fromiso x) items")
  case (Cons item rest)
  then have "item \<in> set items" using set_dropWhileD[of item "gone fromiso x" items] by simp
  with assms(1) obtain t where "item_instant fromiso item = Inr (Some t)"
    unfolding readable_items_def list_all_iff
    by (cases "item_instant fromiso item") (auto dest!: bspec split: option.splits)
  with Cons assms(2) show ?thesis by (simp add: purge_expired_spec)
next
  case Nil
  then show ?thesis by (simp only: purge_expired_spec assms(2) sum.case list.case)
qed

text \<open>
  C29: Retention is exact. When the timestamps of a timeline are readable and in the order of
  recording, the prefix scan of a purge removes exactly the records as old as the retention or older
  and keeps the others in order.
\<close>

theorem purge_removes_exactly_the_expired:
  assumes "readable_items fromiso items" "sorted (map (instant_of fromiso) items)"
    and "MIN_INSTANT_US \<le> now - minutes * 60000000"
  shows "purge_expired fromiso now (Some minutes) items =
    Inr (filter (\<lambda>item. now - instant_of fromiso item < minutes * 60000000) items)"
proof -
  let ?x = "now - minutes * 60000000"
  have x: "expiration_time now (Some minutes) = Inr ?x" using assms(3) by (simp add: expiration_time_def)
  have "dropWhile (gone fromiso ?x) items = dropWhile (\<lambda>item. instant_of fromiso item \<le> ?x) items"
    using gone_instant[OF assms(1)] by (intro dropWhile_cong) auto
  also have "\<dots> = filter (\<lambda>item. ?x < instant_of fromiso item) items"
    by (rule dropWhile_sorted_filter[OF assms(2)])
  also have "\<dots> = filter (\<lambda>item. now - instant_of fromiso item < minutes * 60000000) items"
    by (rule filter_cong) auto
  finally show ?thesis by (simp only: purge_readable[OF assms(1) x])
qed

definition demo_instant :: "string \<Rightarrow> int option" where
  "demo_instant text = (if text = ''a'' then Some 0 else if text = ''b'' then Some 90000000 else None)"

definition demo_items :: "pyval list" where
  "demo_items = [VDict [(''timestamp'', VStr ''a'')], VDict [(''timestamp'', VTemporal ''b'')]]"

theorem purge_removes_exactly_the_expired_witness:
  "purge_expired demo_instant 100000000 (Some 1) demo_items =
     Inr (filter (\<lambda>item. 100000000 - instant_of demo_instant item < 1 * 60000000) demo_items)"
  by (rule purge_removes_exactly_the_expired)
    (simp_all add: demo_items_def demo_instant_def readable_items_def item_instant_def instant_of_def
      dget_default_def MIN_INSTANT_US_def)

section \<open>The timeline is an append-only log with an expired prefix removed\<close>

datatype at_event =
    OnBusEvent pydict
  | OnContext "exn + pyval"
  | OnException "exn + pyval"
  | OnCleanup int

fun at_step :: "(string \<Rightarrow> int option) \<Rightarrow> activity \<Rightarrow> at_event \<Rightarrow> activity" where
  "at_step fromiso s (OnBusEvent headers) = snd (handle_event headers s)"
| "at_step fromiso s (OnContext loaded) = snd (handle_context loaded s)"
| "at_step fromiso s (OnException loaded) = snd (handle_exception loaded s)"
| "at_step fromiso s (OnCleanup now) = snd (cleanup_turn fromiso now s)"

definition tracker_after :: "(string \<Rightarrow> int option) \<Rightarrow> activity \<Rightarrow> at_event list \<Rightarrow> activity" where
  "tracker_after fromiso s history = run_events (at_step fromiso) s history"

text \<open>What each event adds to the two logs, read off the messages alone.\<close>

fun timeline_entry :: "at_event \<Rightarrow> pyval list" where
  "timeline_entry (OnBusEvent headers) =
     (let ty = dget_default headers ''event_type'' (VStr ''_rpc_event'')
      in if hashable ty \<and> ty \<noteq> VStr EXCEPTION_RECORDED then [VDict headers] else [])"
| "timeline_entry (OnContext (Inr (VDict d))) =
     [VDict (dset ''event_type'' (VStr CONTEXT_RECORDED) d)]"
| "timeline_entry _ = []"

fun exception_entry :: "at_event \<Rightarrow> pyval list" where
  "exception_entry (OnException (Inr data)) = [data]"
| "exception_entry _ = []"

definition at_fields :: "activity \<Rightarrow> pyval list \<times> pyval list \<times> int option" where
  "at_fields s = (at_events s, at_exceptions s, at_ttl s)"

lemma at_fields_io [simp]: "at_fields (snd (io e s)) = at_fields s"
  by (simp add: io_def at_fields_def split: list.splits reply.splits)

lemma at_fields_in_core [simp]: "at_fields (snd (in_core m s)) = at_fields s"
  by (simp add: in_core_def at_fields_def split: prod.splits)

lemma snd_except_at_log [simp]: "snd (py_except m at_log s) = snd (m s)"
  by (simp add: py_simps at_log_def split: prod.splits sum.splits option.splits)

lemma at_fields_process [simp]:
  "at_fields (snd (process_message settle rq m s)) = at_fields (snd (m s))"
  by (auto simp: py_simps at_fields_def split: prod.splits sum.splits list.splits reply.splits)

lemma at_fields_handlers:
  "at_fields (at_step fromiso s (OnBusEvent headers)) =
     (at_events s @ timeline_entry (OnBusEvent headers), at_exceptions s, at_ttl s)"
  "at_fields (at_step fromiso s (OnContext loaded)) =
     (at_events s @ timeline_entry (OnContext loaded), at_exceptions s, at_ttl s)"
  "at_fields (at_step fromiso s (OnException loaded)) =
     (at_events s, at_exceptions s @ exception_entry (OnException loaded), at_ttl s)"
proof -
  show "at_fields (at_step fromiso s (OnBusEvent headers)) =
     (at_events s @ timeline_entry (OnBusEvent headers), at_exceptions s, at_ttl s)"
    unfolding at_step.simps handle_event_def at_fields_process snd_except_at_log
    by (auto simp: timeline_excluded_def TIMELINE_EXCLUDED_EVENTS_def py_simps
        record_event_def at_fields_def Let_def split: pyval.splits)
  show "at_fields (at_step fromiso s (OnContext loaded)) =
     (at_events s @ timeline_entry (OnContext loaded), at_exceptions s, at_ttl s)"
    unfolding at_step.simps handle_context_def at_fields_process snd_except_at_log
    by (cases loaded)
      (auto simp: context_item_def py_simps record_event_def at_fields_def split: pyval.splits)
  have "at_fields (snd ((py_then (py_modify (\<lambda>s. s\<lparr>at_exceptions := at_exceptions s @ [data]\<rparr>))
      (in_core m)) s)) = (at_events s, at_exceptions s @ [data], at_ttl s)" for data and m :: "(registry, unit) py"
    using at_fields_in_core[of m "s\<lparr>at_exceptions := at_exceptions s @ [data]\<rparr>"]
    by (simp add: py_simps at_fields_def split: prod.splits)
  then show "at_fields (at_step fromiso s (OnException loaded)) =
     (at_events s, at_exceptions s @ exception_entry (OnException loaded), at_ttl s)"
    unfolding at_step.simps handle_exception_def at_fields_process snd_except_at_log
    by (cases loaded) (simp_all add: py_simps at_fields_def)
qed

text \<open>What a cleanup pass at an instant may remove under a retention.\<close>

definition removable :: "(string \<Rightarrow> int option) \<Rightarrow> int option \<Rightarrow> int \<Rightarrow> pyval \<Rightarrow> bool" where
  "removable fromiso ttl now item \<longleftrightarrow>
     (case expiration_time now ttl of Inl e \<Rightarrow> False | Inr x \<Rightarrow> gone fromiso x item)"

lemma purge_removes_prefix:
  assumes "purge_expired fromiso now ttl items = Inr kept"
  shows "\<exists>n \<le> length items. kept = drop n items \<and> list_all (removable fromiso ttl now) (take n items)"
proof -
  obtain x where x: "expiration_time now ttl = Inr x"
    using assms by (auto simp: purge_expired_def split: sum.splits)
  have kept: "kept = dropWhile (gone fromiso x) items"
    using assms x
    by (cases "dropWhile (gone fromiso x) items")
      (auto simp: purge_expired_spec simp del: dropWhile_eq_Nil_conv split: sum.splits)
  let ?n = "length (takeWhile (gone fromiso x) items)"
  have "list_all (removable fromiso ttl now) (takeWhile (gone fromiso x) items)"
    by (auto simp: list_all_iff removable_def x dest: set_takeWhileD)
  with kept show ?thesis
    by (intro exI[of _ ?n]) (simp add: dropWhile_eq_drop takeWhile_eq_take[symmetric] length_takeWhile_le)
qed

definition purged_to :: "(string \<Rightarrow> int option) \<Rightarrow> int option \<Rightarrow> int \<Rightarrow> pyval list \<Rightarrow> pyval list \<Rightarrow> bool" where
  "purged_to fromiso ttl now items kept \<longleftrightarrow>
     (\<exists>n \<le> length items. kept = drop n items \<and> list_all (removable fromiso ttl now) (take n items))"

lemma purged_to_refl: "purged_to fromiso ttl now items items"
  unfolding purged_to_def by (rule exI[of _ 0]) simp

lemma at_fields_sleep [simp]: "at_fields (snd (cleanup_sleep s)) = at_fields s"
  using at_fields_io[of "AtSleep (at_cleanup_interval s)" s]
  by (auto simp: cleanup_sleep_def at_call_def py_simps at_fields_def
      split: prod.splits sum.splits list.splits reply.splits)

lemma at_fields_cleanup:
  "purged_to fromiso (at_ttl s) now (at_events s) (at_events (at_step fromiso s (OnCleanup now))) \<and>
   purged_to fromiso (at_ttl s) now (at_exceptions s) (at_exceptions (at_step fromiso s (OnCleanup now))) \<and>
   at_ttl (at_step fromiso s (OnCleanup now)) = at_ttl s"
proof -
  let ?m = "py_then (purge_events fromiso now) (py_then (purge_exceptions fromiso now) cleanup_sleep)"
  have turn: "at_fields (snd (cleanup_turn fromiso now s)) = at_fields (snd (?m s))"
    by (auto simp: cleanup_turn_def py_try_def at_fields_sleep py_return_def
        split: prod.splits sum.splits option.splits if_splits)
  have "purged_to fromiso (at_ttl s) now (at_events s) (at_events (snd (?m s))) \<and>
    purged_to fromiso (at_ttl s) now (at_exceptions s) (at_exceptions (snd (?m s))) \<and>
    at_ttl (snd (?m s)) = at_ttl s"
  proof (cases "purge_expired fromiso now (at_ttl s) (at_events s)")
    case (Inl e)
    then show ?thesis by (simp add: purge_events_def py_simps purged_to_refl)
  next
    case ev: (Inr events)
    let ?s = "s\<lparr>at_events := events\<rparr>"
    show ?thesis
    proof (cases "purge_expired fromiso now (at_ttl s) (at_exceptions s)")
      case (Inl e)
      with ev purge_removes_prefix[OF ev] show ?thesis
        by (simp add: purge_events_def purge_exceptions_def py_simps purged_to_refl)
          (simp add: purged_to_def)
    next
      case (Inr exceptions)
      have "at_fields (snd (cleanup_sleep (?s\<lparr>at_exceptions := exceptions\<rparr>))) =
          (events, exceptions, at_ttl s)" by (simp only: at_fields_sleep) (simp add: at_fields_def)
      with ev Inr purge_removes_prefix[OF ev] purge_removes_prefix[OF Inr] show ?thesis
        by (simp add: purge_events_def purge_exceptions_def py_simps at_fields_def purged_to_def)
    qed
  qed
  with turn show ?thesis by (simp add: at_fields_def)
qed

text \<open>\<open>kept\<close> is the log \<open>full\<close> without a prefix that the passes at the instants \<open>nows\<close> may remove.\<close>

definition logged ::
  "(string \<Rightarrow> int option) \<Rightarrow> int option \<Rightarrow> at_event list \<Rightarrow> pyval list \<Rightarrow> pyval list \<Rightarrow> bool" where
  "logged fromiso ttl history full kept \<longleftrightarrow>
     (\<exists>n \<le> length full. kept = drop n full \<and>
        list_all (\<lambda>x. \<exists>now. OnCleanup now \<in> set history \<and> removable fromiso ttl now x) (take n full))"

lemma logged_start: "logged fromiso ttl [] [] []"
  by (simp add: logged_def)

lemma logged_append:
  assumes "logged fromiso ttl history full kept"
  shows "logged fromiso ttl (history @ [ev]) (full @ new) (kept @ new)"
proof -
  obtain n where "n \<le> length full" "kept = drop n full"
    "list_all (\<lambda>x. \<exists>now. OnCleanup now \<in> set history \<and> removable fromiso ttl now x) (take n full)"
    using assms by (auto simp: logged_def)
  then show ?thesis
    unfolding logged_def by (intro exI[of _ n]) (auto simp: list_all_iff)
qed

lemma logged_purge:
  assumes "logged fromiso ttl history full kept" "purged_to fromiso ttl now kept kept'"
  shows "logged fromiso ttl (history @ [OnCleanup now]) full kept'"
proof -
  obtain n where n: "n \<le> length full" "kept = drop n full"
    "list_all (\<lambda>x. \<exists>now. OnCleanup now \<in> set history \<and> removable fromiso ttl now x) (take n full)"
    using assms(1) by (auto simp: logged_def)
  obtain m where m: "m \<le> length kept" "kept' = drop m kept"
    "list_all (removable fromiso ttl now) (take m kept)"
    using assms(2) by (auto simp: purged_to_def)
  have "take (n + m) full = take n full @ take m kept" using n(2) by (simp add: take_add)
  with n m show ?thesis
    unfolding logged_def
    by (intro exI[of _ "n + m"]) (auto simp: list_all_iff drop_drop add.commute)
qed

lemma tracker_after_logged:
  assumes "at_events s = []" "at_exceptions s = []"
  shows "logged fromiso (at_ttl s) history (concat (map timeline_entry history))
      (at_events (tracker_after fromiso s history)) \<and>
    logged fromiso (at_ttl s) history (concat (map exception_entry history))
      (at_exceptions (tracker_after fromiso s history)) \<and>
    at_ttl (tracker_after fromiso s history) = at_ttl s"
proof (induction history rule: rev_induct)
  case Nil
  then show ?case by (simp add: tracker_after_def run_events_def assms logged_start)
next
  case (snoc ev history)
  let ?s = "tracker_after fromiso s history"
  have step: "tracker_after fromiso s (history @ [e]) = at_step fromiso ?s e" for e
    by (simp add: tracker_after_def run_events_def)
  note h = at_fields_handlers[of fromiso ?s, unfolded at_fields_def]
  show ?case
  proof (cases ev)
    case (OnCleanup now)
    with snoc at_fields_cleanup[of fromiso ?s now] show ?thesis
      by (auto simp: step simp del: at_step.simps intro: logged_purge)
  next
    case (OnBusEvent headers)
    with snoc h(1)[of headers] show ?thesis
      using logged_append[OF conjunct1[OF snoc], of ev "timeline_entry ev"]
        logged_append[OF conjunct1[OF conjunct2[OF snoc]], of ev "[]"]
      by (simp add: step)
  next
    case (OnContext loaded)
    with snoc h(2)[of loaded] show ?thesis
      using logged_append[OF conjunct1[OF snoc], of ev "timeline_entry ev"]
        logged_append[OF conjunct1[OF conjunct2[OF snoc]], of ev "[]"]
      by (simp add: step)
  next
    case (OnException loaded)
    with snoc h(3)[of loaded] show ?thesis
      using logged_append[OF conjunct1[OF snoc], of ev "[]"]
        logged_append[OF conjunct1[OF conjunct2[OF snoc]], of ev "exception_entry ev"]
      by (simp add: step)
  qed
qed

definition timeline_item :: "pyval \<Rightarrow> bool" where
  "timeline_item x \<longleftrightarrow>
     (case x of VDict d \<Rightarrow> dget_default d ''event_type'' (VStr ''_rpc_event'') \<noteq> VStr EXCEPTION_RECORDED
      | _ \<Rightarrow> False)"

lemma timeline_entries_items: "list_all timeline_item (timeline_entry ev)"
  by (cases ev rule: timeline_entry.cases)
    (auto simp: timeline_item_def Let_def dget_default_def update_conv registry_event_names)

lemma tracker_setup_fields:
  "at_fields (snd (tracker_setup tracker (tracker_init core answers))) = ([], [], tracker_ttl tracker)"
proof -
  have call: "at_fields (snd (at_call e s)) = at_fields s" for e s
    using at_fields_io[of e s] by (auto simp: at_call_def py_simps split: prod.splits sum.splits)
  have andthen: "at_fields (snd (py_then m k s)) = at_fields s"
    if "\<And>s. at_fields (snd (m s)) = at_fields s" "\<And>s. at_fields (snd (k s)) = at_fields s"
    for m :: "(activity, unit) py" and k :: "(activity, unit) py" and s
  proof (cases "m s")
    case (Pair r t)
    then have "at_fields t = at_fields s" using that(1)[of s] by simp
    with Pair that(2)[of t] show ?thesis by (cases r) (simp_all add: py_simps)
  qed
  have each: "at_fields (snd (py_each at_call es s)) = at_fields s" for es s
  proof (induction es arbitrary: s)
    case (Cons e es)
    then show ?case unfolding py_each.simps by (intro andthen call)
  qed (simp add: py_simps)
  have q: "at_fields (snd (create_and_consume_queue k s)) = at_fields s" for k s
    by (simp add: create_and_consume_queue_def call andthen)
  have tq: "at_fields (snd (timeline_queue s)) = at_fields s" for s
    by (simp add: timeline_queue_def each)
  have rec: "at_fields (snd (record_effect e s)) = at_fields s" for e s
    by (simp add: py_simps at_fields_def)
  let ?rest = "py_then timeline_queue
        (py_then (create_and_consume_queue EXCEPTION_RKEY)
        (py_then (create_and_consume_queue CONTEXT_RKEY)
           (record_effect AtStartCleanup)))"
  have "at_fields (snd (?rest s)) = at_fields s" for s by (intro andthen tq q rec)
  then show ?thesis
    by (simp add: tracker_setup_def py_simps)
      (simp add: at_fields_def tracker_init_def split: option.split)
qed

text \<open>
  C30: The timeline is a log. Whatever the bus delivers (malformed contexts and exceptions, events
  without headers), whatever publishing fails and whenever the cleanup runs, the timeline is the list
  of all recorded hops and contexts in order of arrival, and the exception store that of all reported
  exceptions, each without a prefix of records that were undated or older than the retention at some
  cleanup. No exception record is ever in the timeline.
\<close>

theorem timeline_is_an_expiring_log:
  "logged fromiso (tracker_ttl tracker) history (concat (map timeline_entry history))
     (at_events (tracker_after fromiso (snd (tracker_setup tracker (tracker_init core answers))) history)) \<and>
   logged fromiso (tracker_ttl tracker) history (concat (map exception_entry history))
     (at_exceptions (tracker_after fromiso (snd (tracker_setup tracker (tracker_init core answers))) history)) \<and>
   list_all timeline_item
     (at_events (tracker_after fromiso (snd (tracker_setup tracker (tracker_init core answers))) history))"
proof -
  let ?s = "snd (tracker_setup tracker (tracker_init core answers))"
  have s: "at_events ?s = []" "at_exceptions ?s = []" "at_ttl ?s = tracker_ttl tracker"
    using tracker_setup_fields[of tracker core answers] by (simp_all add: at_fields_def)
  have log: "logged fromiso (tracker_ttl tracker) history (concat (map timeline_entry history))
     (at_events (tracker_after fromiso ?s history))"
    using tracker_after_logged[OF s(1,2), of fromiso history] by (simp add: s(3))
  have "list_all timeline_item (concat (map timeline_entry history))"
    by (induction history) (simp_all add: timeline_entries_items)
  with log have "list_all timeline_item (at_events (tracker_after fromiso ?s history))"
    by (auto simp: logged_def list_all_iff simp del: set_concat dest!: in_set_dropD)
  with log tracker_after_logged[OF s(1,2), of fromiso history] show ?thesis by (simp add: s(3))
qed

end
