(* ===== verification/Registry_Client.thy ===== *)
theory Registry_Client
  imports Entrypoint_Catalog Activity Registry_Properties Remote_Calls
begin

text \<open>
  The service's side of the registry: \<open>registry/client/registry_client.py\<close> (registration,
  heartbeats, exceptions and contexts as messages on the admin exchange, the request to register
  again, reconnection) and \<open>heartbeat_publisher.py\<close>, with the reporting methods of \<open>container.py\<close>
  that use it; then what the registry makes of these messages.

  The publisher's loop is given turn by turn. \<open>cancelling\<close> is what \<open>current_task().cancelling()\<close>
  answers; texts the standard library produces (the class name and text of an exception, the version,
  random identifiers, the ISO text of now) are arguments.
\<close>

section \<open>State\<close>

datatype rc_effect =
    RcConnect pyval "tls_context option" pyval
  | RcChannel
  | RcQos int
  | RcExchange string
  | RcQueue string
  | RcBind string string
  | RcConsume string
  | RcCancel string
  | RcClose
  | RcPublish string json
  | RcSleep pyval
  | RcNack bool
  | RcDone bool "exn option"
  | RcCondition
  | RcHeartbeatTask
  | RcHeartbeatEnd

record client = "rc_effect scoped_world" +
  rc_service :: hosted
  rc_shutting_down :: bool
  rc_connection :: bool
  rc_exchange :: bool
  rc_queue :: bool
  rc_tag :: pyval
  rc_registered :: bool
  hb_interval :: pyval
  hb_condition :: bool
  hb_running :: bool
  hb_degraded :: bool
  hb_error_logged :: bool

definition client_init :: "hosted \<Rightarrow> reply list \<Rightarrow> client" where
  "client_init h answers = \<lparr>script = answers, trace = [], scope = scope_init, rc_service = h,
     rc_shutting_down = False, rc_connection = False, rc_exchange = False, rc_queue = False,
     rc_tag = VNone, rc_registered = False, hb_interval = VNone, hb_condition = False,
     hb_running = False, hb_degraded = False, hb_error_logged = False\<rparr>"

definition rcall :: "rc_effect \<Rightarrow> (client, unit) py" where
  "rcall e = py_then (io e) (py_return ())"

definition rc_log :: "exn \<Rightarrow> (client, unit) py" where
  "rc_log e = py_return ()"

definition HEARTBEAT_DEFAULT_INTERVAL :: int where "HEARTBEAT_DEFAULT_INTERVAL = 60"

definition get_heartbeat_interval :: "pyval \<Rightarrow> exn + pyval" where
  "get_heartbeat_interval config =
     get_kontiki_parameter config ''heartbeat.interval'' (VInt HEARTBEAT_DEFAULT_INTERVAL)"

definition get_registration_group :: "pyval \<Rightarrow> exn + string" where
  "get_registration_group config =
     map_sum id normalize_registration_group
       (get_kontiki_parameter config ''registration.group'' (VStr []))"

section \<open>Connecting\<close>

definition register_again_key :: "hosted \<Rightarrow> string" where
  "register_again_key h = hs_service_name h @ ''.'' @ hs_instance_id h @ ''.register_again''"

definition client_setup :: "(client, unit) py" where
  "client_setup =
     py_bind (py_read rc_service) (\<lambda>h.
     py_bind (py_lift (get_amqp_url (hs_config h) (VStr AMQP_DEFAULT_URL))) (\<lambda>url.
     py_bind (py_lift (create_tls_context (hs_config h))) (\<lambda>tls_ctx.
     py_bind (py_lift (is_amqp_required (hs_config h))) (\<lambda>fail_fast.
     py_then (rcall (RcConnect url tls_ctx fail_fast))
     (py_then (py_modify (\<lambda>s. s\<lparr>rc_connection := True\<rparr>))
     (py_then (rcall RcChannel)
     (py_then (rcall (RcQos 10))
     (py_then (rcall (RcExchange REGISTRY_ADMIN_EXCHANGE))
     (py_then (py_modify (\<lambda>s. s\<lparr>rc_exchange := True\<rparr>))
     (py_then (rcall (RcQueue (register_again_key h @ ''.queue'')))
     (py_then (py_modify (\<lambda>s. s\<lparr>rc_queue := True\<rparr>))
     (py_then (rcall (RcBind (register_again_key h @ ''.queue'') (register_again_key h)))
     (py_bind (io (RcConsume (register_again_key h @ ''.queue''))) (\<lambda>tag.
        py_modify (\<lambda>s. s\<lparr>rc_tag := tag\<rparr>)))))))))))))))"

definition client_stop_accepting :: "(client, unit) py" where
  "client_stop_accepting =
     py_bind (py_read rc_service) (\<lambda>h.
       py_when (\<lambda>s. rc_queue s \<and> truthy (rc_tag s))
         (py_then (rcall (RcCancel (register_again_key h @ ''.queue'')))
            (py_modify (\<lambda>s. s\<lparr>rc_tag := VNone\<rparr>))))"

definition client_stop :: "(client, unit) py" where
  "client_stop = py_when rc_connection
     (py_then (rcall RcClose) (py_modify (\<lambda>s. s\<lparr>rc_connection := False, rc_exchange := False\<rparr>)))"

section \<open>Messages\<close>

text \<open>The decorator \<open>publish\<close>: the body is computed after the exchange was checked.\<close>

definition publish_body :: "string \<Rightarrow> (client \<Rightarrow> exn + pydict) \<Rightarrow> (client, unit) py" where
  "publish_body routing_key body =
     py_if (\<lambda>s. \<not> rc_exchange s) (py_raise (RuntimeError ''Registry Admin Exchange not setup.''))
       (py_bind (py_read body) (\<lambda>r.
        py_bind (py_lift r) (\<lambda>d.
        py_bind (py_lift (dumps (VDict d))) (\<lambda>j. rcall (RcPublish routing_key j)))))"

definition identity_entries :: "hosted \<Rightarrow> pydict" where
  "identity_entries h = [(''service_name'', VStr (hs_service_name h)),
     (''instance_id'', VStr (hs_instance_id h))]"

text \<open>Only a non-empty mapping under the key \<open>public\<close> is sent.\<close>

definition public_config :: "hosted \<Rightarrow> pydict" where
  "public_config h =
     (case hs_config h of
        VDict c \<Rightarrow> (case dget c ''public'' of Some (VDict p) \<Rightarrow> p | _ \<Rightarrow> [])
      | _ \<Rightarrow> [])"

definition registration_body :: "(string \<Rightarrow> bool) \<Rightarrow> string \<Rightarrow> hosted \<Rightarrow> exn + pydict" where
  "registration_body is_valid version h =
     (case get_heartbeat_interval (hs_config h) of
        Inl e \<Rightarrow> Inl e
      | Inr interval \<Rightarrow> (case get_registration_group (hs_config h) of
          Inl e \<Rightarrow> Inl e
        | Inr grp \<Rightarrow> (case registration_entrypoints is_valid h of
            Inl e \<Rightarrow> Inl e
          | Inr entrypoints \<Rightarrow> Inr (identity_entries h @
              [(''pid'', VInt (hs_pid h)), (''host'', VStr (hs_host h)),
               (''service_version'', hs_version h), (''kontiki_version'', VStr version),
               (''heartbeat_interval'', interval), (''group'', VStr grp),
               (''entrypoints'', VList entrypoints)]
              @ (if public_config h \<noteq> [] then [(''config'', VDict (public_config h))] else [])))))"

definition rc_register :: "(string \<Rightarrow> bool) \<Rightarrow> string \<Rightarrow> (client, unit) py" where
  "rc_register is_valid version =
     publish_body REGISTER_RKEY (\<lambda>s. registration_body is_valid version (rc_service s))"

definition rc_unregister :: "(client, unit) py" where
  "rc_unregister = publish_body UNREGISTER_RKEY (\<lambda>s. Inr (identity_entries (rc_service s)))"

definition heartbeat_body :: "hosted \<Rightarrow> bool \<Rightarrow> pyval \<Rightarrow> pydict" where
  "heartbeat_body h degraded reason =
     identity_entries h @ [(''degraded'', VBool degraded)]
       @ (if reason \<noteq> VNone then [(''reason'', reason)] else [])"

definition rc_heartbeat :: "bool \<Rightarrow> pyval \<Rightarrow> (client, unit) py" where
  "rc_heartbeat degraded reason =
     publish_body HEARTBEAT_RKEY (\<lambda>s. Inr (heartbeat_body (rc_service s) degraded reason))"

definition exception_body ::
  "hosted \<Rightarrow> string \<Rightarrow> string \<Rightarrow> string \<Rightarrow> string \<Rightarrow> pyval \<times> pyval \<times> pyval \<times> pyval \<Rightarrow> pydict" where
  "exception_body h class_name text ts exception_id = (\<lambda>(flow_id, entrypoint, operation, hop_id).
     identity_entries h @
       [(''exception_type'', VStr class_name), (''message'', VStr text), (''timestamp'', VStr ts),
        (''flow_id'', flow_id), (''hop_id'', hop_id), (''exception_id'', VStr exception_id),
        (''entrypoint'', entrypoint), (''operation'', operation)])"

definition register_exception ::
  "string \<Rightarrow> string \<Rightarrow> string \<Rightarrow> string \<Rightarrow> pyval \<times> pyval \<times> pyval \<times> pyval \<Rightarrow> (client, unit) py" where
  "register_exception class_name text ts exception_id ctx_fields =
     publish_body EXCEPTION_RKEY
       (\<lambda>s. Inr (exception_body (rc_service s) class_name text ts exception_id ctx_fields))"

definition context_body ::
  "hosted \<Rightarrow> pyval \<Rightarrow> string \<Rightarrow> string \<Rightarrow> pyval \<times> pyval \<times> pyval \<times> pyval \<Rightarrow> pydict" where
  "context_body h context_data ts context_id = (\<lambda>(flow_id, entrypoint, operation, hop_id).
     identity_entries h @
       [(''context'', context_data), (''timestamp'', VStr ts), (''flow_id'', flow_id),
        (''hop_id'', hop_id), (''context_id'', VStr context_id), (''entrypoint'', entrypoint),
        (''operation'', operation)])"

definition rc_add_context ::
  "pyval \<Rightarrow> string \<Rightarrow> string \<Rightarrow> pyval \<times> pyval \<times> pyval \<times> pyval \<Rightarrow> (client, unit) py" where
  "rc_add_context context_data ts context_id ctx_fields =
     publish_body CONTEXT_RKEY (\<lambda>s. Inr (context_body (rc_service s) context_data ts context_id ctx_fields))"

text \<open>\<open>report_exception\<close> and \<open>add_context\<close> of the container, for a container with a client.\<close>

definition container_report_exception ::
  "nat \<Rightarrow> string \<Rightarrow> string \<Rightarrow> string \<Rightarrow> string \<Rightarrow> (client, unit) py" where
  "container_report_exception t class_name text ts exception_id =
     py_bind (py_read (\<lambda>s. get_handler_ctx_fields t (scope s))) (\<lambda>ctx_fields.
       py_except (register_exception class_name text ts exception_id ctx_fields) rc_log)"

definition container_add_context :: "nat \<Rightarrow> pyval \<Rightarrow> string \<Rightarrow> string \<Rightarrow> (client, unit) py" where
  "container_add_context t context_data ts context_id =
     py_bind (py_read (\<lambda>s. get_handler_ctx_fields t (scope s)))
       (rc_add_context context_data ts context_id)"

section \<open>Registering\<close>

definition register_service :: "(string \<Rightarrow> bool) \<Rightarrow> string \<Rightarrow> (client, unit) py" where
  "register_service is_valid version =
     py_then
       (py_when (\<lambda>s. \<not> rc_registered s)
          (py_bind (py_read (\<lambda>s. get_kontiki_parameter (hs_config (rc_service s))
                      ''registration.delay'' (VInt 2))) (\<lambda>r.
           py_bind (py_lift r) (\<lambda>delay. rcall (RcSleep delay)))))
       (py_then (rc_register is_valid version)
          (py_modify (\<lambda>s. s\<lparr>rc_registered := True\<rparr>)))"

definition register_again :: "(string \<Rightarrow> bool) \<Rightarrow> string \<Rightarrow> (client, unit) py" where
  "register_again is_valid version =
     py_if rc_shutting_down (rcall (RcNack True))
       (process_message RcDone False (py_except (rc_register is_valid version) rc_log))"

section \<open>Heartbeats\<close>

text \<open>
  A condition answers a bool, or a pair of a verdict and a reason. A reason that is no text is
  turned into one (\<open>str\<close>).
\<close>

definition normalize_degraded_result :: "(pyval \<Rightarrow> string) \<Rightarrow> pyval \<Rightarrow> bool \<times> pyval" where
  "normalize_degraded_result str_of result =
     (case result of
        VTuple [degraded, reason] \<Rightarrow>
          if \<not> truthy degraded then (False, VNone)
          else if reason = VNone then (True, VNone)
          else (True, VStr (text_of str_of reason))
      | _ \<Rightarrow> if truthy result then (True, VNone) else (False, VNone))"

definition evaluate_degraded :: "(pyval \<Rightarrow> string) \<Rightarrow> (client, bool \<times> pyval) py" where
  "evaluate_degraded str_of =
     py_if hb_condition
       (py_bind (io RcCondition) (\<lambda>result. py_return (normalize_degraded_result str_of result)))
       (py_return (False, VNone))"

definition heartbeat_setup :: "bool \<Rightarrow> (client, unit) py" where
  "heartbeat_setup has_condition =
     py_bind (py_read (\<lambda>s. get_heartbeat_interval (hs_config (rc_service s)))) (\<lambda>r.
     py_bind (py_lift r) (\<lambda>interval.
       py_modify (\<lambda>s. s\<lparr>hb_interval := interval, hb_condition := has_condition\<rparr>)))"

definition heartbeat_start :: "(client, unit) py" where
  "heartbeat_start = py_then (record_effect RcHeartbeatTask) (py_modify (\<lambda>s. s\<lparr>hb_running := True\<rparr>))"

definition ensure_running :: "(client, unit) py" where
  "ensure_running = py_if hb_running (py_return ()) heartbeat_start"

text \<open>The task is cancelled and awaited; what it ended with is raised, unless it is the cancellation.\<close>

definition heartbeat_stop :: "(client, unit) py" where
  "heartbeat_stop = py_when hb_running
     (py_then (py_modify (\<lambda>s. s\<lparr>hb_running := False\<rparr>))
        (py_try (rcall RcHeartbeatEnd) (\<lambda>e. if e = CancelledError then Some (py_return ()) else None)))"

definition on_amqp_reconnect :: "(string \<Rightarrow> bool) \<Rightarrow> string \<Rightarrow> (client, unit) py" where
  "on_amqp_reconnect is_valid version =
     py_if rc_shutting_down (py_return ()) (py_then (rc_register is_valid version) ensure_running)"

definition heartbeat_pause :: "(client, bool) py" where
  "heartbeat_pause =
     py_bind (py_read (\<lambda>s. if hb_interval s \<noteq> VNone then hb_interval s else VInt 10)) (\<lambda>interval.
       py_then (rcall (RcSleep interval)) (py_return True))"

text \<open>Entering and leaving the degraded state; a reason is sent only while degraded.\<close>

definition update_degraded :: "bool \<Rightarrow> client \<Rightarrow> client" where
  "update_degraded should_degrade s =
     (if should_degrade \<and> \<not> hb_degraded s then s\<lparr>hb_degraded := True\<rparr>
      else if \<not> should_degrade \<and> hb_degraded s then s\<lparr>hb_degraded := False\<rparr>
      else s)"

definition send_heartbeat :: "bool \<Rightarrow> pyval \<Rightarrow> (client, bool) py" where
  "send_heartbeat cancelling reason =
     py_bind (py_read hb_degraded) (\<lambda>degraded.
     py_bind
       (py_try (py_then (rc_heartbeat degraded (if degraded then reason else VNone)) (py_return True))
          (\<lambda>e. if e \<noteq> CancelledError then None
               else if cancelling then Some (py_raise CancelledError)
               else Some (py_then (py_modify (\<lambda>s. s\<lparr>hb_error_logged := True\<rparr>)) (py_return False))))
       (\<lambda>sent. if sent then py_then (py_modify (\<lambda>s. s\<lparr>hb_error_logged := False\<rparr>)) heartbeat_pause
               else heartbeat_pause))"

text \<open>One turn of \<open>_send_heartbeat\<close>; the answer says whether the loop goes on.\<close>

definition heartbeat_turn :: "(pyval \<Rightarrow> string) \<Rightarrow> bool \<Rightarrow> (client, bool) py" where
  "heartbeat_turn str_of cancelling =
     py_try
       (py_if (\<lambda>s. \<not> rc_exchange s) heartbeat_pause
          (py_bind (evaluate_degraded str_of) (\<lambda>(should_degrade, reason).
             py_then (py_modify (update_degraded should_degrade))
               (send_heartbeat cancelling reason))))
       (\<lambda>e. if e = CancelledError then Some (py_return False)
            else if is_Exception e then
              Some (py_then (py_modify (\<lambda>s. s\<lparr>hb_error_logged := True\<rparr>)) heartbeat_pause)
            else None)"

section \<open>Messages arrive as they were sent\<close>

lemma publish_body_sends:
  assumes "rc_exchange s" "body s = Inr d" "transportable (VDict d)"
  obtains j where "loads j = Inr (VDict (wire_entries d))"
    "publish_body k body s = rcall (RcPublish k j) s"
proof -
  obtain j where j: "jencode (VDict d) = Inr j" "jdecode j = Inr (VDict (wire_entries d))"
    using travelsE[OF transportable_travels[OF assms(3)]] by (auto simp: wire_entries_def)
  with assms(1,2) that[of j] show ?thesis
    by (simp add: publish_body_def py_simps dumps_def loads_def)
qed

lemma rcall_appends:
  obtains ok where "trace (snd (rcall e s)) = trace s @ [(e, ok)]"
    "ok \<longleftrightarrow> (\<exists>v. fst (io e s) = Inr v)" "snd (rcall e s) = snd (io e s)"
    "fst (rcall e s) = map_sum id (\<lambda>_. ()) (fst (io e s))"
  by (cases rule: io_cases[of e s]) (auto simp: rcall_def py_simps)

lemma dget_wire_entries: "dget (wire_entries d) k = map_option wire (dget d k)"
  by (induction d) (auto simp: wire_entries_def)

lemma wire_entries_append: "wire_entries (d @ e) = wire_entries d @ wire_entries e"
  by (simp add: wire_entries_def)

lemma wire_identity: "wire_entries (identity_entries h) = identity_entries h"
  by (simp add: wire_entries_def identity_entries_def)

lemma dget_identity:
  "dget (identity_entries h @ d) ''service_name'' = Some (VStr (hs_service_name h))"
  "dget (identity_entries h @ d) ''instance_id'' = Some (VStr (hs_instance_id h))"
  by (simp_all add: identity_entries_def)

lemma read_identity_of:
  "read_identity (Inr (VDict (identity_entries h @ d))) =
     Inr ((hs_service_name h, hs_instance_id h), identity_entries h @ d)"
  by (simp add: read_identity_def as_name_def identity_entries_def)

section \<open>Registration\<close>

lemma dropWhile_hd: "xs \<noteq> [] \<Longrightarrow> \<not> P (hd xs) \<Longrightarrow> dropWhile P xs = xs"
  by (cases xs) simp_all

lemma strip_idem: "strip (strip s) = strip s"
proof (cases "strip s = []")
  case True
  have "strip [] = []" by (simp add: strip_def)
  then show ?thesis by (simp only: True)
next
  case False
  then have "\<not> is_space (hd (strip s))" "\<not> is_space (hd (rev (strip s)))"
    using strip_no_outer_space[OF False] by (simp_all add: hd_rev)
  with False have "dropWhile is_space (strip s) = strip s" "dropWhile is_space (rev (strip s)) = rev (strip s)"
    using dropWhile_hd by auto
  then show ?thesis by (simp add: strip_def[of "strip s"])
qed

lemma group_idem: "normalize_registration_group (VStr (normalize_registration_group v)) =
    normalize_registration_group v"
proof -
  have "normalize_registration_group (VStr REGISTRATION_GROUP_DEFAULT) = REGISTRATION_GROUP_DEFAULT"
    by (simp add: REGISTRATION_GROUP_DEFAULT_def strip_def is_space_def)
  moreover have "normalize_registration_group (VStr (strip s)) = strip s" if "strip s \<noteq> []" for s
    using that by (simp add: strip_idem)
  ultimately show ?thesis by (cases v) simp_all
qed

lemma registration_body_parts:
  assumes "registration_body is_valid version h = Inr body"
  obtains rest es v where "body = identity_entries h @ rest"
    "dget body ''group'' = Some (VStr (normalize_registration_group v))"
    "registration_entrypoints is_valid h = Inr es" "dget body ''entrypoints'' = Some (VList es)"
proof -
  obtain interval g es where p: "registration_entrypoints is_valid h = Inr es"
    "get_registration_group (hs_config h) = Inr g"
    and b: "body = identity_entries h @
              ([(''pid'', VInt (hs_pid h)), (''host'', VStr (hs_host h)),
               (''service_version'', hs_version h), (''kontiki_version'', VStr version),
               (''heartbeat_interval'', interval), (''group'', VStr g),
               (''entrypoints'', VList es)]
              @ (if public_config h \<noteq> [] then [(''config'', VDict (public_config h))] else []))"
    using assms by (auto simp: registration_body_def split: sum.splits)
  obtain v where "g = normalize_registration_group v"
    using p(2) by (auto simp: get_registration_group_def map_sum_Inr_iff)
  with p(1) b that[OF b _ p(1), of v] show ?thesis by (simp add: identity_entries_def)
qed

text \<open>What the registry stores for a registration it reads.\<close>

lemma handle_register_stores:
  assumes "registration_body is_valid version h = Inr body"
  shows "services (snd (handle_register c (Inr (VDict (wire_entries body))) srv)) =
    put_instance (hs_service_name h, hs_instance_id h) (wire_entries body) (services srv)"
proof -
  obtain rest es v where p: "body = identity_entries h @ rest"
    "dget body ''group'' = Some (VStr (normalize_registration_group v))"
    using assms by (rule registration_body_parts)
  let ?k = "(hs_service_name h, hs_instance_id h)"
  let ?d = "wire_entries body"
  have id: "read_identity (Inr (VDict ?d)) = Inr (?k, ?d)"
    by (simp add: p(1) wire_entries_append wire_identity read_identity_of)
  have g: "dset ''group'' (VStr (normalize_registration_group (dget_default ?d ''group'' VNone))) ?d = ?d"
    using p(2) by (intro update_triv) (simp add: dget_default_def dget_wire_entries group_idem del: normalize_registration_group.simps)
  have keep: "services (snd (on_instance_registered c k data s)) = services s" for k data s
    by (cases "registered_payload (now_iso c) data")
      (simp_all add: on_instance_registered_def py_bind_run py_lift_run py_then_run set_tracked_def
        py_modify_run snd_publish own_fields_simps split: prod.splits sum.splits,
       metis own_fields_simps(1) snd_conv snd_publish)
  show ?thesis
    by (simp add: handle_register_def snd_process_message own_fields_simps py_bind_run py_lift_run id g
        Let_def py_then_run py_modify_run keep)
qed

lemma handle_unregister_removes:
  "get_instance (services (snd (handle_unregister c (Inr (VDict (identity_entries h))) srv))) k =
     (if k = (hs_service_name h, hs_instance_id h) then None else get_instance (services srv) k)"
proof -
  let ?me = "(hs_service_name h, hs_instance_id h)"
  have id: "read_identity (Inr (VDict (identity_entries h))) = Inr (?me, identity_entries h)"
    using read_identity_of[of h "[]"] by simp
  have keep: "services (snd (on_instance_deregistered c sn iid s)) = services s" for sn iid s
    using snd_publish[of INSTANCE_DEREGISTERED "deregistered_payload (now_iso c) sn iid" s]
    by (auto simp: on_instance_deregistered_def py_then_run set_tracked_def py_modify_run own_fields_simps
        split: prod.splits sum.splits dest: sym)
  have none: "\<not> has_service_instance srv (fst ?me) (snd ?me) \<Longrightarrow> get_instance (services srv) ?me = None"
    by (simp add: has_service_instance_iff)
  have sub: "\<not> has_service srv (fst ?me) \<Longrightarrow> \<not> has_service_instance srv (fst ?me) (snd ?me)"
    by (simp add: has_service_instance_def has_service_def split: option.splits)
  show ?thesis
    using none sub
    by (auto simp: handle_unregister_def snd_process_message own_fields_simps py_bind_run py_lift_run id
        py_if_run py_return_run py_then_run py_modify_run keep get_del_instance)
qed

text \<open>
  C33: What a service announces is what the registry records. Its registration is one message, and
  the registry that handles it has, for this instance and no other, exactly the announced entries as
  the wire carries them (identity, host, interval, group, entrypoints, public configuration); its
  deregistration is one message that removes this instance and no other.
\<close>

theorem registration_is_recorded:
  assumes "rc_exchange s" "registration_body is_valid version (rc_service s) = Inr body"
    and "transportable (VDict body)"
  shows "\<exists>j k ok ok'.
    trace (snd (rc_register is_valid version s)) = trace s @ [(RcPublish REGISTER_RKEY j, ok)] \<and>
    trace (snd (rc_unregister s)) = trace s @ [(RcPublish UNREGISTER_RKEY k, ok')] \<and>
    get_instance (services (snd (handle_register c (loads j) srv))) =
      (get_instance (services srv))((hs_service_name (rc_service s), hs_instance_id (rc_service s)) \<mapsto>
         wire_entries body) \<and>
    get_instance (services (snd (handle_unregister c (loads k) srv))) =
      (get_instance (services srv))((hs_service_name (rc_service s), hs_instance_id (rc_service s)) := None)"
proof -
  let ?h = "rc_service s"
  obtain j where j: "loads j = Inr (VDict (wire_entries body))"
    "rc_register is_valid version s = rcall (RcPublish REGISTER_RKEY j) s"
    unfolding rc_register_def
    by (rule publish_body_sends[OF assms(1) _ assms(3),
          of "\<lambda>s. registration_body is_valid version (rc_service s)"]) (use assms(2) in auto)
  have t: "transportable (VDict (identity_entries ?h))"
    by (simp add: identity_entries_def plain_dict_def marker_free_def wire_entries_def)
  obtain k where k: "loads k = Inr (VDict (wire_entries (identity_entries ?h)))"
    "rc_unregister s = rcall (RcPublish UNREGISTER_RKEY k) s"
    unfolding rc_unregister_def
    by (rule publish_body_sends[OF assms(1) _ t, of "\<lambda>s. Inr (identity_entries (rc_service s))"]) auto
  obtain ok where ok: "trace (snd (rcall (RcPublish REGISTER_RKEY j) s)) = trace s @ [(RcPublish REGISTER_RKEY j, ok)]"
    by (rule rcall_appends)
  obtain ok' where ok': "trace (snd (rcall (RcPublish UNREGISTER_RKEY k) s)) = trace s @ [(RcPublish UNREGISTER_RKEY k, ok')]"
    by (rule rcall_appends)
  have "get_instance (services (snd (handle_register c (loads j) srv))) =
      (get_instance (services srv))((hs_service_name ?h, hs_instance_id ?h) \<mapsto> wire_entries body)"
    by (rule ext) (simp add: j(1) handle_register_stores[OF assms(2)] get_put_instance)
  moreover have "get_instance (services (snd (handle_unregister c (loads k) srv))) =
      (get_instance (services srv))((hs_service_name ?h, hs_instance_id ?h) := None)"
    by (rule ext) (simp add: k(1) wire_identity handle_unregister_removes)
  ultimately show ?thesis using j(2) k(2) ok ok' by metis
qed

definition demo_hosted :: hosted where
  "demo_hosted = \<lparr>hs_config = VDict [(''public'', VDict [(''color'', VStr ''red'')])],
     hs_service_name = ''orders'', hs_instance_id = ''a1'', hs_pid = 7, hs_host = ''h'',
     hs_version = VStr ''1'', hs_http_server = False,
     hs_events = [(''on_paid'', \<lparr>ep_event_type_or_key = VStr ''paid'', ep_use_config = False,
        ep_target_instance = False, ep_include_headers = False, ep_broadcast = False,
        ep_max_attempts = None\<rparr>, \<lparr>sig_params = [], sig_hints = Inr []\<rparr>)],
     hs_rpcs = [], hs_https = [], hs_tasks = []\<rparr>"

definition demo_body :: pydict where
  "demo_body = identity_entries demo_hosted @
     [(''pid'', VInt 7), (''host'', VStr ''h''), (''service_version'', VStr ''1''),
      (''kontiki_version'', VStr ''2''), (''heartbeat_interval'', VInt 60),
      (''group'', VStr ''business''),
      (''entrypoints'', VList [VDict [(''type'', VStr ''event''), (''name'', VStr ''paid''),
         (''handler'', VStr ''on_paid''), (''mode'', VStr ''competing''), (''max_attempts'', VInt 3)]]),
      (''config'', VDict [(''color'', VStr ''red'')])]"

lemma demo_registration_body: "registration_body (\<lambda>_. True) ''2'' demo_hosted = Inr demo_body"
  by (simp add: registration_body_def demo_hosted_def demo_body_def get_heartbeat_interval_def
      get_registration_group_def get_kontiki_parameter_def get_parameter_def config_parameter_get_default
      path_keys_def KONTIKI_def HEARTBEAT_DEFAULT_INTERVAL_def strip_def is_space_def
      REGISTRATION_GROUP_DEFAULT_def public_config_def registration_entrypoints_def event_entrypoints_def
      event_types_of_def resolve_parameter_path_def normalize_event_types_def nonempty_text_def texts_def
      event_entry_def event_mode_def effective_max_attempts_def rpc_entrypoints_def http_entrypoints_def
      task_entrypoints_def)

lemma demo_body_transportable: "transportable (VDict demo_body)"
  by (simp add: demo_body_def demo_hosted_def identity_entries_def plain_dict_def marker_free_def
      wire_entries_def)

theorem registration_is_recorded_witness:
  "\<exists>j k ok ok'.
    trace (snd (rc_register (\<lambda>_. True) ''2'' ((client_init demo_hosted [])\<lparr>rc_exchange := True\<rparr>))) =
      trace ((client_init demo_hosted [])\<lparr>rc_exchange := True\<rparr>) @ [(RcPublish REGISTER_RKEY j, ok)] \<and>
    trace (snd (rc_unregister ((client_init demo_hosted [])\<lparr>rc_exchange := True\<rparr>))) =
      trace ((client_init demo_hosted [])\<lparr>rc_exchange := True\<rparr>) @ [(RcPublish UNREGISTER_RKEY k, ok')] \<and>
    get_instance (services (snd (handle_register (demo_clock 1) (loads j) (registry_init 0 [])))) =
      (get_instance (services (registry_init 0 [])))
        ((hs_service_name (rc_service ((client_init demo_hosted [])\<lparr>rc_exchange := True\<rparr>)),
          hs_instance_id (rc_service ((client_init demo_hosted [])\<lparr>rc_exchange := True\<rparr>))) \<mapsto>
         wire_entries demo_body) \<and>
    get_instance (services (snd (handle_unregister (demo_clock 1) (loads k) (registry_init 0 [])))) =
      (get_instance (services (registry_init 0 [])))
        ((hs_service_name (rc_service ((client_init demo_hosted [])\<lparr>rc_exchange := True\<rparr>)),
          hs_instance_id (rc_service ((client_init demo_hosted [])\<lparr>rc_exchange := True\<rparr>))) := None)"
  by (rule registration_is_recorded)
    (simp_all add: client_init_def demo_registration_body demo_body_transportable del: transportable_simps)

section \<open>Failed messages are offered exactly for the work queues\<close>

text \<open>The entries of the catalogue, read after the wire.\<close>

definition text_entry :: "pyval \<Rightarrow> bool" where
  "text_entry entry \<longleftrightarrow> (\<exists>d ty. entry = VDict d \<and> dget d ''type'' = Some (VStr ty) \<and>
     (ty = ''event'' \<longrightarrow> (\<exists>n m. dget d ''name'' = Some (VStr n) \<and> dget d ''mode'' = Some (VStr m))))"

lemma catalogue_text_entries:
  assumes "registration_entrypoints is_valid h = Inr es" "entry \<in> set es"
  shows "text_entry entry"
proof -
  obtain events https tasks where p: "event_entrypoints h = Inr events" "http_entrypoints h = Inr https"
    "task_entrypoints is_valid h = Inr tasks" "es = events @ rpc_entrypoints h @ https @ tasks"
    using assms(1) by (auto simp: registration_entrypoints_def split: sum.splits)
  have "entry \<in> set events \<Longrightarrow> text_entry entry"
    using p(1)
    by (auto simp: event_entrypoints_def map_sum_Inr_iff event_entry_def text_entry_def map_res_mem
        split: sum.splits)
  moreover have "entry \<in> set (rpc_entrypoints h) \<Longrightarrow> text_entry entry"
    by (auto simp: rpc_entrypoints_def text_entry_def)
  moreover have "entry \<in> set https \<Longrightarrow> text_entry entry"
    using p(2) by (auto simp: http_entrypoints_def text_entry_def map_res_mem map_sum_Inr_iff split: if_splits)
  moreover have "entry \<in> set tasks \<Longrightarrow> text_entry entry"
    using p(3) by (auto simp: task_entrypoints_def text_entry_def map_res_mem map_sum_Inr_iff)
  ultimately show ?thesis using assms(2) p(4) by auto
qed

lemma entries_declare_dicts:
  "list_all is_dict es \<Longrightarrow> entries_declare ev es = Inr (list_ex (competing_entry ev) es)"
  by (induction es) auto

lemma competing_entry_wire:
  "text_entry entry \<Longrightarrow> competing_entry ev (wire entry) \<longleftrightarrow> announces ev entry"
proof -
  assume "text_entry entry"
  then obtain d ty where d: "entry = VDict d" "dget d ''type'' = Some (VStr ty)"
    "ty = ''event'' \<longrightarrow> (\<exists>n m. dget d ''name'' = Some (VStr n) \<and> dget d ''mode'' = Some (VStr m))"
    by (auto simp: text_entry_def)
  have w: "wire entry = VDict (wire_entries d)" by (simp add: d(1) wire_entries_def)
  have "competing_entry ev (VDict (wire_entries d)) \<longleftrightarrow> announces ev (VDict d)"
    using d(2,3) by (cases "ty = ''event''")
      (auto simp: competing_entry_def announces_def dget_default_def dget_wire_entries)
  then show ?thesis by (simp only: w) (simp only: d(1))
qed

lemma wire_catalogue_announces:
  assumes "registration_entrypoints is_valid h = Inr es"
  shows "entries_declare ev (map wire es) = Inr (competes_for h ev)"
proof -
  have "is_dict (wire x)" if "text_entry x" for x using that by (auto simp: text_entry_def)
  then have "list_all is_dict (map wire es)"
    using catalogue_text_entries[OF assms] by (simp add: list_all_iff)
  moreover have "list_ex (competing_entry ev) (map wire es) \<longleftrightarrow> (\<exists>entry \<in> set es. announces ev entry)"
    using competing_entry_wire catalogue_text_entries[OF assms] by (auto simp: list_ex_iff)
  ultimately show ?thesis using catalogue_announces[OF assms] by (simp add: entries_declare_dicts)
qed

text \<open>The state of the registry after the two messages of a fresh instance.\<close>

lemma registered_and_alive:
  fixes h :: hosted and c c' :: clock and degraded :: bool and reason :: pyval
    and t now :: int and answers :: "reply list" and history :: "reg_event list" and body :: pydict
  assumes "registration_body is_valid version h = Inr body"
    and "dget (services (registry_after t answers history)) (hs_service_name h) = None"
    and "interval_ok (wire_entries body)" "now - now_us c' \<le> silence_us (wire_entries body)"
  defines "srv \<equiv> registry_after t answers (history @ [OnRegister c (Inr (VDict (wire_entries body))),
      OnHeartbeat c' (Inr (VDict (wire_entries (heartbeat_body h degraded reason))))])"
  shows "dget (services srv) (hs_service_name h) = Some [(hs_instance_id h, wire_entries body)]"
    and "instance_status srv now (hs_service_name h) (hs_instance_id h) (wire_entries body) =
      Inr (if degraded then DEGRADED else ACTIVE)"
proof -
  let ?sn = "hs_service_name h" and ?iid = "hs_instance_id h"
  let ?r = "registry_after t answers (history @ [OnRegister c (Inr (VDict (wire_entries body)))])"
  have svc: "services ?r = put_instance (?sn, ?iid) (wire_entries body) (services (registry_after t answers history))"
    by (simp add: registry_after_snoc handle_register_stores[OF assms(1)])
  then have one: "dget (services ?r) ?sn = Some [(?iid, wire_entries body)]"
    using assms(2) by (simp add: put_instance_def dict_simps)
  then have known: "get_instance (services ?r) (?sn, ?iid) = Some (wire_entries body)"
    by (simp add: get_instance_def)
  have dist: "distinct (degraded_services ?r)" using registry_after_ok by (auto simp: reg_ok_def)
  let ?hb = "identity_entries h @ (wire_entries ([(''degraded'', VBool degraded)] @
       (if reason \<noteq> VNone then [(''reason'', reason)] else [])))"
  have hb: "wire_entries (heartbeat_body h degraded reason) = ?hb"
    by (simp add: heartbeat_body_def wire_entries_append wire_identity)
  have deg: "dget ?hb ''degraded'' = Some (VBool degraded)"
    by (simp add: identity_entries_def wire_entries_def)
  have srv: "srv = snd (handle_heartbeat c' (Inr (VDict ?hb)) ?r)"
    unfolding srv_def hb using registry_after_snoc[of t answers "history @ [OnRegister c (Inr (VDict (wire_entries body)))]"
      "OnHeartbeat c' (Inr (VDict ?hb))"] by simp
  note st = store_heartbeat_known[OF known dist, of c' "VBool degraded" "dget_default ?hb ''reason'' VNone"]
  have "services srv = services ?r" "status_spec srv now ?sn ?iid (wire_entries body) =
      (if degraded then DEGRADED else ACTIVE)"
    unfolding srv using st deg assms(4)
    by (simp_all add: handle_heartbeat_def snd_process_message py_bind_run py_lift_run read_identity_of
        io_fields_kept own_fields_simps)
  with one assms(3) show "dget (services srv) ?sn = Some [(?iid, wire_entries body)]"
    "instance_status srv now ?sn ?iid (wire_entries body) = Inr (if degraded then DEGRADED else ACTIVE)"
    by (simp_all add: instance_status_spec)
qed

lemma declared_iff_competes:
  assumes "registration_body is_valid version h = Inr body"
    and "dget (services (registry_after t answers history)) (hs_service_name h) = None"
    and "interval_ok (wire_entries body)" "now - now_us c' \<le> silence_us (wire_entries body)"
  shows "declares_competing_event
      (registry_after t answers (history @ [OnRegister c (Inr (VDict (wire_entries body))),
         OnHeartbeat c' (Inr (VDict (wire_entries (heartbeat_body h degraded reason))))]))
      now (hs_service_name h) ev = Inr (competes_for h ev)"
proof -
  note r = registered_and_alive[OF assms, of c degraded reason]
  obtain es where es: "registration_entrypoints is_valid h = Inr es"
    "dget body ''entrypoints'' = Some (VList es)"
    using assms(1) by (rule registration_body_parts)
  have "dget_default (wire_entries body) ''entrypoints'' VNone = VList (map wire es)"
    using es(2) by (simp add: dget_default_def dget_wire_entries)
  then show ?thesis
    using r wire_catalogue_announces[OF es(1), of ev]
    by (cases es) (simp_all add: declares_competing_event_def live_status_def iterate_def)
qed

text \<open>
  C34: The registry offers failed messages exactly where there are work queues. Once it has handled
  the registration and a heartbeat of a service's first instance, and for three intervals from then
  on, the registry says of an event that it is declared as competing if and only if the service has a
  handler for it, directly or through its configuration, whose queue retains failed messages (neither
  broadcast nor in session), whatever the instance's health.
\<close>

theorem failed_messages_follow_the_queues:
  assumes "registration_body is_valid version h = Inr body"
    and "dget (services (registry_after t answers history)) (hs_service_name h) = None"
    and "interval_ok (wire_entries body)" "now - now_us c' \<le> silence_us (wire_entries body)"
  shows "declares_competing_event
      (registry_after t answers (history @ [OnRegister c (Inr (VDict (wire_entries body))),
         OnHeartbeat c' (Inr (VDict (wire_entries (heartbeat_body h degraded reason))))]))
      now (hs_service_name h) ev = Inr (competes_for h ev)"
  using assms by (rule declared_iff_competes)

theorem failed_messages_follow_the_queues_witness:
  "declares_competing_event
      (registry_after 0 [] ([] @ [OnRegister (demo_clock 1) (Inr (VDict (wire_entries demo_body))),
         OnHeartbeat (demo_clock 2) (Inr (VDict (wire_entries (heartbeat_body demo_hosted True (VStr ''slow'')))))]))
      5 (hs_service_name demo_hosted) ''paid'' = Inr (competes_for demo_hosted ''paid'')"
  by (rule failed_messages_follow_the_queues[OF demo_registration_body])
    (simp_all add: registry_after_def registry_init_def demo_body_def demo_clock_def identity_entries_def
      wire_entries_def interval_ok_def interval_of_def silence_us_def DAY_US_def MAX_DELTA_DAYS_def
      dget_default_def)

section \<open>Exceptions and health arrive\<close>

lemma exception_payload:
  "exception_recorded_payload (identity_entries h @
       [(''exception_type'', a), (''message'', b), (''timestamp'', ts), (''flow_id'', f), (''hop_id'', p),
        (''exception_id'', x), (''entrypoint'', e), (''operation'', q)]) =
   Inr (identity_entries h @
       [(''exception_type'', a), (''message'', b), (''timestamp'', ts), (''flow_id'', f), (''hop_id'', p),
        (''exception_id'', x), (''entrypoint'', e), (''operation'', q)])"
  by (simp add: exception_recorded_payload_def identity_entries_def)

lemma exception_body_wire:
  assumes "list_all transportable [flow_id, entrypoint, operation, hop_id]"
  shows "transportable (VDict (exception_body h cls text ts xid (flow_id, entrypoint, operation, hop_id)))"
    and "exception_recorded_payload
        (wire_entries (exception_body h cls text ts xid (flow_id, entrypoint, operation, hop_id))) =
      Inr (wire_entries (exception_body h cls text ts xid (flow_id, entrypoint, operation, hop_id)))"
  using assms
  by (simp_all add: exception_body_def identity_entries_def plain_dict_def marker_free_def wire_entries_def
      exception_recorded_payload_def)

text \<open>A tracker whose outside raises nothing records and publishes a complete exception.\<close>

lemma handle_exception_publishes:
  assumes "no_failure a" "exception_recorded_payload d = Inr payload"
  shows "at_exceptions (snd (handle_exception (Inr (VDict d)) a)) = at_exceptions a @ [VDict d] \<and>
    trace (snd (handle_exception (Inr (VDict d)) a)) =
      trace a @ [(Core (PublishEvent EXCEPTION_RECORDED payload), True), (AtSettle False None, True)]"
proof -
  let ?a = "a\<lparr>at_exceptions := at_exceptions a @ [VDict d]\<rparr>"
  let ?core = "(at_core ?a)\<lparr>script := script ?a, trace := []\<rparr>"
  have "no_failure ?core" using assms(1) by (simp add: no_failure_def)
  then obtain v q where io: "io (PublishEvent EXCEPTION_RECORDED payload) ?core =
      (Inr v, ?core\<lparr>script := q, trace := trace ?core @ [(PublishEvent EXCEPTION_RECORDED payload, True)]\<rparr>)"
    and q: "set q \<subseteq> set (script ?core)"
    by (cases rule: io_cases[of "PublishEvent EXCEPTION_RECORDED payload" ?core])
      (auto simp: no_failure_def)
  define c where "c = (at_core a)\<lparr>script := [], trace := []\<rparr>"
  let ?b = "?a\<lparr>script := q, trace := trace a @ [(Core (PublishEvent EXCEPTION_RECORDED payload), True)],
      at_core := c\<rparr>"
  have body: "in_core (publish_recorded (VDict d)) ?a = (Inr (), ?b)"
    using io assms(2)
    by (simp add: c_def in_core_def publish_recorded_def on_exception_recorded_def publish_registry_event_def
        py_bind_run py_lift_run py_then_run py_return_run)
  have "script ?b = q" by simp
  with q assms(1) have "no_failure ?b" unfolding no_failure_def by (simp only:) auto
  then obtain w r where "io (AtSettle False None) ?b =
      (Inr w, ?b\<lparr>script := r, trace := trace ?b @ [(AtSettle False None, True)]\<rparr>)"
    by (cases rule: io_cases[of "AtSettle False None" ?b]) (auto simp: no_failure_def)
  with body show ?thesis
    by (simp add: handle_exception_def process_message_run py_try_run py_bind_run py_lift_run py_then_run
        py_modify_run)
qed

text \<open>
  C35: A reported exception is stored and announced. The container's report sends one message with
  the identity of the instance, the class and text of the exception and the flow, hop, entrypoint and
  operation of the handler it came from; the registry that handles it appends exactly this record to
  its exceptions and, when its broker answers, publishes it once as \<open>registry.exception.recorded\<close>
  before it acknowledges the message.
\<close>

theorem reported_exception_is_recorded:
  assumes "rc_exchange s" "no_failure a"
    and "get_handler_ctx_fields t (scope s) = (flow_id, entrypoint, operation, hop_id)"
    and "list_all transportable [flow_id, entrypoint, operation, hop_id]"
  shows "\<exists>j ok record.
    record = wire_entries (exception_body (rc_service s) cls text ts xid
      (flow_id, entrypoint, operation, hop_id)) \<and>
    trace (snd (container_report_exception t cls text ts xid s)) =
      trace s @ [(RcPublish EXCEPTION_RKEY j, ok)] \<and>
    at_exceptions (snd (handle_exception (loads j) a)) = at_exceptions a @ [VDict record] \<and>
    trace (snd (handle_exception (loads j) a)) =
      trace a @ [(Core (PublishEvent EXCEPTION_RECORDED record), True), (AtSettle False None, True)]"
proof -
  let ?f = "(flow_id, entrypoint, operation, hop_id)"
  let ?d = "exception_body (rc_service s) cls text ts xid ?f"
  obtain j where j: "loads j = Inr (VDict (wire_entries ?d))"
    "register_exception cls text ts xid ?f s = rcall (RcPublish EXCEPTION_RKEY j) s"
    unfolding register_exception_def
    by (rule publish_body_sends[OF assms(1) _ exception_body_wire(1)[OF assms(4)],
          of "\<lambda>s. Inr (exception_body (rc_service s) cls text ts xid ?f)"]) auto
  have "snd (container_report_exception t cls text ts xid s) = snd (rcall (RcPublish EXCEPTION_RKEY j) s)"
    using assms(3) j(2)
    by (simp add: container_report_exception_def py_bind_run py_read_run py_try_run rc_log_def
        py_return_run split: prod.splits sum.splits)
  moreover obtain ok where "trace (snd (rcall (RcPublish EXCEPTION_RKEY j) s)) =
      trace s @ [(RcPublish EXCEPTION_RKEY j, ok)]" by (rule rcall_appends)
  ultimately show ?thesis
    using handle_exception_publishes[OF assms(2) exception_body_wire(2)[OF assms(4)]] j(1) by auto
qed

theorem reported_exception_is_recorded_witness:
  "\<exists>j ok record.
    record = wire_entries (exception_body (rc_service ((client_init demo_hosted [])\<lparr>rc_exchange := True\<rparr>))
      ''UserError'' ''boom'' ''now'' ''x1'' (VNone, VNone, VNone, VNone)) \<and>
    trace (snd (container_report_exception 1 ''UserError'' ''boom'' ''now'' ''x1''
        ((client_init demo_hosted [])\<lparr>rc_exchange := True\<rparr>))) =
      trace ((client_init demo_hosted [])\<lparr>rc_exchange := True\<rparr>) @ [(RcPublish EXCEPTION_RKEY j, ok)] \<and>
    at_exceptions (snd (handle_exception (loads j) (tracker_init (registry_init 0 []) []))) =
      at_exceptions (tracker_init (registry_init 0 []) []) @ [VDict record] \<and>
    trace (snd (handle_exception (loads j) (tracker_init (registry_init 0 []) []))) =
      trace (tracker_init (registry_init 0 []) []) @
        [(Core (PublishEvent EXCEPTION_RECORDED record), True), (AtSettle False None, True)]"
  by (rule reported_exception_is_recorded)
    (simp_all add: client_init_def tracker_init_def no_failure_def get_handler_ctx_fields_def
      current_handler_context_def scope_init_def get_raw_context_def)

text \<open>A turn of the publisher that reaches the exchange, up to its pause.\<close>

lemma pause_trace:
  "\<exists>d ok. trace (snd (heartbeat_pause s)) = trace s @ [(RcSleep d, ok)]"
  by (cases rule: rcall_appends[of "RcSleep (if hb_interval s \<noteq> VNone then hb_interval s else VInt 10)" s])
    (auto simp: heartbeat_pause_def py_bind_run py_read_run py_then_run py_return_run
      split: prod.splits sum.splits)

definition only_sleeps :: "(rc_effect \<times> bool) list \<Rightarrow> bool" where
  "only_sleeps es \<longleftrightarrow> list_all (\<lambda>(e, ok). case e of RcSleep d \<Rightarrow> True | _ \<Rightarrow> False) es"

lemma pause_only_sleeps:
  obtains es where "trace (snd (heartbeat_pause s)) = trace s @ es" "only_sleeps es"
  using pause_trace[of s] that by (auto simp: only_sleeps_def)

lemma send_heartbeat_trace:
  assumes "rc_exchange s" "transportable reason"
  defines "r \<equiv> (if hb_degraded s then reason else VNone)"
  shows "\<exists>j ok es. loads j = Inr (VDict (wire_entries (heartbeat_body (rc_service s) (hb_degraded s) r))) \<and>
    trace (snd (send_heartbeat cancelling reason s)) = trace s @ [(RcPublish HEARTBEAT_RKEY j, ok)] @ es \<and>
    only_sleeps es"
proof -
  have t: "transportable (VDict (heartbeat_body (rc_service s) (hb_degraded s) r))"
    using assms(2)
    by (simp add: r_def heartbeat_body_def identity_entries_def plain_dict_def marker_free_def wire_entries_def)
  obtain j where j: "loads j = Inr (VDict (wire_entries (heartbeat_body (rc_service s) (hb_degraded s) r)))"
    "rc_heartbeat (hb_degraded s) r s = rcall (RcPublish HEARTBEAT_RKEY j) s"
    unfolding rc_heartbeat_def
    by (rule publish_body_sends[OF assms(1) _ t,
          of "\<lambda>s'. Inr (heartbeat_body (rc_service s') (hb_degraded s) r)"]) auto
  obtain q u where q: "rcall (RcPublish HEARTBEAT_RKEY j) s = (q, u)" by fastforce
  obtain ok where ok: "trace u = trace s @ [(RcPublish HEARTBEAT_RKEY j, ok)]"
    using rcall_appends[of "RcPublish HEARTBEAT_RKEY j" s] q by (metis snd_conv)
  have pause: "\<exists>es. trace (snd (heartbeat_pause (u\<lparr>hb_error_logged := b\<rparr>))) = trace u @ es \<and> only_sleeps es" for b
    using pause_only_sleeps[of "u\<lparr>hb_error_logged := b\<rparr>"] by auto
  have "\<exists>es. trace (snd (send_heartbeat cancelling reason s)) = trace u @ es \<and> only_sleeps es"
  proof (cases q)
    case (Inl e)
    with j(2) q pause[of True] show ?thesis
      by (auto simp: send_heartbeat_def r_def[symmetric] py_bind_run py_read_run py_try_run py_then_run
          py_raise_run py_return_run py_modify_run only_sleeps_def)
  next
    case (Inr v)
    with j(2) q pause[of False] show ?thesis
      by (simp add: send_heartbeat_def r_def[symmetric] py_bind_run py_read_run py_try_run py_then_run
          py_return_run py_modify_run)
  qed
  with ok j(1) show ?thesis by auto
qed

lemma heartbeat_turn_trace:
  fixes str_of :: "pyval \<Rightarrow> string" and s :: client and result :: pyval
  assumes "rc_exchange s" "hb_condition s" "script s = Returns result # answers"
  defines "verdict \<equiv> normalize_degraded_result str_of result"
  shows "\<exists>j ok es.
    loads j = Inr (VDict (wire_entries (heartbeat_body (rc_service s) (fst verdict) (snd verdict)))) \<and>
    trace (snd (heartbeat_turn str_of cancelling s)) =
      trace s @ [(RcCondition, True), (RcPublish HEARTBEAT_RKEY j, ok)] @ es \<and> only_sleeps es"
proof -
  let ?s = "s\<lparr>script := answers, trace := trace s @ [(RcCondition, True)]\<rparr>"
  let ?u = "update_degraded (fst verdict) ?s"
  have u: "rc_exchange ?u" "rc_service ?u = rc_service s" "hb_degraded ?u = fst verdict"
    "trace ?u = trace s @ [(RcCondition, True)]"
    using assms(1) by (auto simp: update_degraded_def)
  have reason: "transportable (snd verdict)" "\<not> fst verdict \<Longrightarrow> snd verdict = VNone"
    by (auto simp: verdict_def normalize_degraded_result_def split: pyval.split list.split)
  have same: "(if fst verdict then snd verdict else VNone) = snd verdict"
    using reason(2) by auto
  obtain j ok es where j: "loads j = Inr (VDict (wire_entries (heartbeat_body (rc_service s) (fst verdict) (snd verdict))))"
    "trace (snd (send_heartbeat cancelling (snd verdict) ?u)) = trace ?u @ [(RcPublish HEARTBEAT_RKEY j, ok)] @ es"
    "only_sleeps es"
    using send_heartbeat_trace[OF u(1) reason(1), of cancelling] by (simp only: u(2,3) same) blast
  let ?m = "py_if (\<lambda>s. \<not> rc_exchange s) heartbeat_pause
          (py_bind (evaluate_degraded str_of) (\<lambda>(should_degrade, reason).
             py_then (py_modify (update_degraded should_degrade))
               (send_heartbeat cancelling reason)))"
  have m: "?m s = send_heartbeat cancelling (snd verdict) ?u"
    using assms(1-3)
    by (simp add: py_if_run py_bind_run evaluate_degraded_def io_def py_return_run py_then_run
        py_modify_run verdict_def split: prod.split)
  obtain q w where q: "send_heartbeat cancelling (snd verdict) ?u = (q, w)" by fastforce
  have "\<exists>es'. trace (snd (heartbeat_turn str_of cancelling s)) = trace w @ es' \<and> only_sleeps es'"
  proof (cases q)
    case (Inr v)
    with q m show ?thesis by (simp add: heartbeat_turn_def py_try_run only_sleeps_def)
  next
    case (Inl e)
    obtain es' where "trace (snd (heartbeat_pause (w\<lparr>hb_error_logged := True\<rparr>))) = trace w @ es'" "only_sleeps es'"
      using pause_only_sleeps[of "w\<lparr>hb_error_logged := True\<rparr>"] by auto
    with Inl q m show ?thesis
      by (auto simp: heartbeat_turn_def py_try_run py_return_run py_then_run py_modify_run only_sleeps_def)
  qed
  then obtain es' where "trace (snd (heartbeat_turn str_of cancelling s)) = trace w @ es'" "only_sleeps es'"
    by blast
  moreover have "trace w = trace ?u @ [(RcPublish HEARTBEAT_RKEY j, ok)] @ es" using j(2) q by simp
  ultimately show ?thesis using j(1,3) u(4) by (auto simp: only_sleeps_def)
qed

text \<open>What handling a heartbeat of a known instance leaves in the records about degraded instances.\<close>

lemma refresh_keeps_degraded:
  "degraded_services (snd (refresh_instance_status c sn iid x u)) = degraded_services u \<and>
   degraded_reasons (snd (refresh_instance_status c sn iid x u)) = degraded_reasons u"
proof -
  have "own_fields (snd (py_then (set_tracked k st) (publish_registry_event ty p) u)) =
      own_fields (u\<lparr>tracked_status := (tracked_status u)(k := st)\<rparr>)" for k st ty p
    by (simp add: set_tracked_def py_then_run py_modify_run snd_publish)
  then show ?thesis
    by (auto simp: refresh_instance_status_def snd_set_tracked own_fields_def split: option.splits sum.splits)
qed

lemma heartbeat_records_degraded:
  assumes "message = Inr (VDict hb)" "read_identity message = Inr ((sn, iid), hb)"
    and "dget hb ''degraded'' = Some (VBool verdict)" "dget_default hb ''reason'' VNone = reason"
    and "has_service_instance srv sn iid"
  shows "degraded_services (snd (handle_heartbeat c message srv)) =
      degraded_services (record_degraded (sn, iid) (VBool verdict) reason srv)"
    and "degraded_reasons (snd (handle_heartbeat c message srv)) =
      degraded_reasons (record_degraded (sn, iid) (VBool verdict) reason srv)"
proof -
  let ?t = "(record_degraded (sn, iid) (VBool verdict) reason srv)
      \<lparr>heartbeats := (heartbeats srv)((sn, iid) \<mapsto> now_us c)\<rparr>"
  have "own_fields (snd (handle_heartbeat c message srv)) =
      own_fields (snd (refresh_instance_status c sn iid (if verdict then reason else VNone) ?t))"
    using assms by (simp add: handle_heartbeat_def snd_process_message py_bind_run py_lift_run
        store_heartbeat_def py_if_run py_then_run py_modify_run)
  then show "degraded_services (snd (handle_heartbeat c message srv)) =
      degraded_services (record_degraded (sn, iid) (VBool verdict) reason srv)"
    and "degraded_reasons (snd (handle_heartbeat c message srv)) =
      degraded_reasons (record_degraded (sn, iid) (VBool verdict) reason srv)"
    by (simp_all add: own_fields_def refresh_keeps_degraded)
qed



end
