(* ===== verification/Http_Server.thy ===== *)
theory Http_Server
  imports Entrypoint_Catalog
begin

text \<open>
  HTTP endpoints (\<open>web/web.py\<close>, \<open>web/utils.py\<close>): the decorator, the routes, and the handler that is
  put around the user's method: reading and validating the body, turning what the method returns
  into a response, mapping exceptions to responses and stamping the flow identifier on them.

  aiohttp and pydantic are parameters. A model class is given by the methods it offers; \<open>as_response\<close>
  tells the values that are aiohttp responses, \<open>ex_http\<close> the exceptions that are. The body of a
  request is read by an awaited call. Case conversion is that of ASCII, which the names of HTTP
  methods and headers use.
\<close>

section \<open>Text\<close>

definition lower_char :: "char \<Rightarrow> char" where
  "lower_char c = (let n = of_char c :: nat in if 65 \<le> n \<and> n \<le> 90 then char_of (n + 32) else c)"

definition upper_char :: "char \<Rightarrow> char" where
  "upper_char c = (let n = of_char c :: nat in if 97 \<le> n \<and> n \<le> 122 then char_of (n - 32) else c)"

definition lower :: "string \<Rightarrow> string" where "lower s = List.map lower_char s"
definition upper :: "string \<Rightarrow> string" where "upper s = List.map upper_char s"

text \<open>\<open>int(text)\<close>: white space around, a sign, digits with single underscores between them.\<close>

definition digit_value :: "char \<Rightarrow> int option" where
  "digit_value c = (let n = int (of_char c) in if 48 \<le> n \<and> n \<le> 57 then Some (n - 48) else None)"

fun digits :: "int \<Rightarrow> string \<Rightarrow> int option" where
  "digits acc [] = Some acc"
| "digits acc (c # cs) =
     (case digit_value c of
        Some d \<Rightarrow> digits (10 * acc + d) cs
      | None \<Rightarrow> (case cs of
           d # ds \<Rightarrow> if c = CHR ''_'' then (case digit_value d of
               Some n \<Rightarrow> digits (10 * acc + n) ds | None \<Rightarrow> None) else None
         | [] \<Rightarrow> None))"

definition unsigned :: "string \<Rightarrow> int option" where
  "unsigned s = (case s of [] \<Rightarrow> None | c # cs \<Rightarrow>
     (case digit_value c of None \<Rightarrow> None | Some d \<Rightarrow> digits d cs))"

definition int_of_text :: "string \<Rightarrow> int option" where
  "int_of_text text =
     (case strip text of
        [] \<Rightarrow> None
      | c # cs \<Rightarrow> if c = CHR ''-'' then map_option uminus (unsigned cs)
                 else if c = CHR ''+'' then unsigned cs else unsigned (c # cs))"

fun int_of :: "pyval \<Rightarrow> exn + int" where
  "int_of (VInt i) = Inr i"
| "int_of (VBool b) = Inr (if b then 1 else 0)"
| "int_of (VFloat r) = Inr (if r \<ge> 0 then \<lfloor>r\<rfloor> else \<lceil>r\<rceil>)"
| "int_of (VStr s) = (case int_of_text s of
     Some i \<Rightarrow> Inr i | None \<Rightarrow> Inl (ValueError ''invalid literal for int() with base 10''))"
| "int_of (VBytes bs) = (case int_of_text (List.map (\<lambda>b. char_of (unat b)) bs) of
     Some i \<Rightarrow> Inr i | None \<Rightarrow> Inl (ValueError ''invalid literal for int() with base 10''))"
| "int_of _ = Inl (TypeError ''int() argument must be a string or a number'')"

section \<open>Responses\<close>

record response =
  rs_status :: int
  rs_headers :: pydict
  rs_json :: "json option"

text \<open>Assigning a header replaces every spelling of its name.\<close>

fun header_set :: "string \<Rightarrow> pyval \<Rightarrow> pydict \<Rightarrow> pydict" where
  "header_set k v [] = [(k, v)]"
| "header_set k v ((n, w) # h) =
     (if lower n = lower k then (k, v) # filter (\<lambda>(m, _). lower m \<noteq> lower k) h
      else (n, w) # header_set k v h)"

definition header_get :: "string \<Rightarrow> pydict \<Rightarrow> pyval option" where
  "header_get k h = map_option snd (List.find (\<lambda>(n, _). lower n = lower k) h)"

definition prepare_http_response :: "response \<Rightarrow> pyval \<Rightarrow> response" where
  "prepare_http_response r flow_id =
     (if flow_id \<noteq> VNone
      then r\<lparr>rs_headers := header_set flow_id_header_name flow_id (rs_headers r)\<rparr> else r)"

text \<open>\<open>json.dumps\<close> without the encoder of the messaging layer refuses everything else.\<close>

fun to_json :: "pyval \<Rightarrow> exn + json" where
  "to_json VNone = Inr JNull"
| "to_json (VBool b) = Inr (JBool b)"
| "to_json (VInt i) = Inr (JInt i)"
| "to_json (VFloat r) = Inr (JFloat r)"
| "to_json (VStr s) = Inr (JStr s)"
| "to_json (VList xs) = map_sum id JArr (map_res to_json xs)"
| "to_json (VTuple xs) = map_sum id JArr (map_res to_json xs)"
| "to_json (VDict d) = map_sum id JObj (map_res (\<lambda>(k, v). map_sum id (Pair k) (to_json v)) d)"
| "to_json _ = Inl (TypeError ''Object is not JSON serializable'')"

definition json_response :: "pyval \<Rightarrow> int \<Rightarrow> exn + response" where
  "json_response data status =
     map_sum id (\<lambda>j. \<lparr>rs_status = status,
         rs_headers = [(''Content-Type'', VStr ''application/json; charset=utf-8'')], rs_json = Some j\<rparr>)
       (to_json data)"

definition internal_server_error :: response where
  "internal_server_error = \<lparr>rs_status = 500, rs_headers = [], rs_json = None\<rparr>"

section \<open>The decorator\<close>

text \<open>
  A model class and the methods of pydantic it offers (version 2, version 1); a model argument is a
  class or a value, of which only a dictionary means something.
\<close>

record model_class =
  mc_model_json_schema :: "(exn + pyval) option"
  mc_schema :: "(exn + pyval) option"
  mc_model_validate :: "(pyval \<Rightarrow> exn + pyval) option"
  mc_parse_obj :: "(pyval \<Rightarrow> exn + pyval) option"

datatype model_arg = ModelClass model_class | ModelValue pyval

definition schema_failed :: pyval where
  "schema_failed = VDict [(''type'', VStr ''object''), (''description'', VStr ''Model schema extraction failed'')]"

definition extract_schema :: "model_class \<Rightarrow> pyval" where
  "extract_schema mc =
     (case mc_model_json_schema mc of
        Some r \<Rightarrow> (case r of Inr schema \<Rightarrow> schema | Inl e \<Rightarrow> schema_failed)
      | None \<Rightarrow> (case mc_schema mc of
          Some r \<Rightarrow> (case r of Inr schema \<Rightarrow> schema | Inl e \<Rightarrow> schema_failed)
        | None \<Rightarrow> VDict [(''type'', VStr ''object''), (''description'', VStr ''Custom model'')]))"

definition parse_with_model :: "model_class \<Rightarrow> pyval \<Rightarrow> exn + pyval" where
  "parse_with_model mc data =
     (case mc_model_validate mc of
        Some validate \<Rightarrow> validate data
      | None \<Rightarrow> (case mc_parse_obj mc of Some parse \<Rightarrow> parse data | None \<Rightarrow> Inr data))"

fun model_truthy :: "model_arg \<Rightarrow> bool" where
  "model_truthy (ModelClass mc) = True"
| "model_truthy (ModelValue v) = truthy v"

text \<open>
  Status codes of documented responses are numbers or texts; errors are exception classes; tags,
  responses and errors that are not given are empty.
\<close>

record http_arguments =
  ha_version :: pyval
  ha_summary :: pyval
  ha_description :: pyval
  ha_tags :: "string list"
  ha_request_model :: model_arg
  ha_response_model :: model_arg
  ha_status_code :: int
  ha_responses :: "(pyval \<times> pyval) list"
  ha_errors :: "string list"
  ha_skip_documentation :: bool
  ha_validate_request :: bool

record http_documentation = http_arguments +
  hd_request_schema :: pyval
  hd_response_schema :: pyval

definition schema_of :: "model_arg \<Rightarrow> pyval" where
  "schema_of m =
     (case m of
        ModelClass mc \<Rightarrow> extract_schema mc
      | ModelValue v \<Rightarrow> (case v of VDict d \<Rightarrow> v | _ \<Rightarrow> VNone))"

definition http ::
  "pyval \<Rightarrow> string \<Rightarrow> bool \<Rightarrow> http_arguments \<Rightarrow> http_endpoint \<times> http_documentation" where
  "http path_or_key verb use_config args =
     (\<lparr>he_path_or_key = path_or_key, he_method = verb, he_use_config = use_config\<rparr>,
      http_arguments.extend args
        (http_documentation.fields (schema_of (ha_request_model args)) (schema_of (ha_response_model args))))"

section \<open>Exceptions as responses\<close>

text \<open>
  What the server reads of an exception: the names of the classes of its type in method resolution
  order, its \<open>message\<close> attribute (\<open>None\<close> when absent), its text, and the response it is when it
  is an aiohttp \<open>HTTPException\<close>.
\<close>

record exn_view =
  ex_mro :: "exn \<Rightarrow> string list"
  ex_message :: "exn \<Rightarrow> pyval"
  ex_text :: "exn \<Rightarrow> string"
  ex_http :: "exn \<Rightarrow> response option"

definition entry_status :: "pyval \<Rightarrow> exn + (int \<times> pyval) option" where
  "entry_status val =
     (case val of
        VTuple (code # message # _) \<Rightarrow> map_sum id (\<lambda>i. Some (i, message)) (int_of code)
      | VList (code # message # _) \<Rightarrow> map_sum id (\<lambda>i. Some (i, message)) (int_of code)
      | VTuple [code] \<Rightarrow> map_sum id (\<lambda>i. Some (i, VNone)) (int_of code)
      | VList [code] \<Rightarrow> map_sum id (\<lambda>i. Some (i, VNone)) (int_of code)
      | _ \<Rightarrow> Inr None)"

definition resolve_http_error_mapping ::
  "string list \<Rightarrow> (string \<times> pyval) list \<Rightarrow> exn + (int \<times> pyval) option" where
  "resolve_http_error_mapping mro handlers_map =
     (case List.find (\<lambda>cls. dget handlers_map cls \<noteq> None) mro of
        None \<Rightarrow> Inr None
      | Some cls \<Rightarrow> (case dget handlers_map cls of None \<Rightarrow> Inr None | Some val \<Rightarrow> entry_status val))"

definition mapped_body :: "exn_view \<Rightarrow> exn \<Rightarrow> pyval \<Rightarrow> pyval" where
  "mapped_body view e message_override =
     VDict [(''message'',
       if message_override \<noteq> VNone then message_override
       else if truthy (ex_message view e) then ex_message view e else VStr (ex_text view e))]"

section \<open>Handling a request\<close>

text \<open>
  What aiohttp is left with: a response, a raised exception that is one, another object that has
  headers, or nothing.
\<close>

datatype http_outcome =
    Answered response
  | RaisedAnswer response
  | HandedOver pyval
  | NoAnswer

fun answer_of :: "http_outcome \<Rightarrow> response option" where
  "answer_of (Answered r) = Some r"
| "answer_of (RaisedAnswer r) = Some r"
| "answer_of _ = None"

definition unprocessable :: exn where
  "unprocessable = OtherError ''HTTPUnprocessableEntity'' ''Invalid request body''"

definition validates :: "http_documentation \<Rightarrow> string \<Rightarrow> bool" where
  "validates doc verb \<longleftrightarrow> ha_validate_request doc \<and> model_truthy (ha_request_model doc) \<and>
     upper verb \<in> {''POST'', ''PUT'', ''PATCH''}"

definition read_request_body :: "http_documentation \<Rightarrow> string \<Rightarrow> (consumer_state, pyval) py" where
  "read_request_body doc verb =
     (if \<not> validates doc verb then py_return VNone
      else (case ha_request_model doc of
         ModelClass mc \<Rightarrow>
           py_except (py_bind (io ReadBody) (\<lambda>data. py_lift (parse_with_model mc data)))
             (\<lambda>_. py_raise unprocessable)
       | ModelValue v \<Rightarrow> (case v of VDict d \<Rightarrow> io ReadBody | _ \<Rightarrow> py_return VNone)))"

definition call_kwargs :: "pydict \<Rightarrow> pyval \<Rightarrow> pydict" where
  "call_kwargs match_info parsed_body =
     (if parsed_body \<noteq> VNone then dset ''body'' parsed_body match_info else match_info)"

text \<open>An object without \<open>headers\<close> cannot be prepared.\<close>

definition answer_value ::
  "(pyval \<Rightarrow> response option) \<Rightarrow> http_documentation \<Rightarrow> pyval \<Rightarrow> pyval \<Rightarrow> exn + http_outcome" where
  "answer_value as_response doc v flow_id =
     (case as_response v of
        Some r \<Rightarrow> Inr (Answered (prepare_http_response r flow_id))
      | None \<Rightarrow> (case v of
          VDict d \<Rightarrow> map_sum id (\<lambda>r. Answered (prepare_http_response r flow_id))
            (json_response v (ha_status_code doc))
        | VList xs \<Rightarrow> map_sum id (\<lambda>r. Answered (prepare_http_response r flow_id))
            (json_response v (ha_status_code doc))
        | VNone \<Rightarrow> Inr NoAnswer
        | VObject d \<Rightarrow>
            if flow_id = VNone then Inr (HandedOver v)
            else (case dget d ''headers'' of
               None \<Rightarrow> Inl (AttributeError ''headers'')
             | Some h \<Rightarrow> (case h of
                 VDict hs \<Rightarrow> Inr (HandedOver (VObject (dset ''headers'' (VDict (dset flow_id_header_name flow_id hs)) d)))
               | _ \<Rightarrow> Inl (TypeError ''object does not support item assignment'')))
        | _ \<Rightarrow> if flow_id = VNone then Inr (HandedOver v) else Inl (AttributeError ''headers'')))"

definition serve_request ::
  "(pyval \<Rightarrow> response option) \<Rightarrow> http_documentation \<Rightarrow> string \<Rightarrow> string \<Rightarrow> pydict \<Rightarrow> nat \<Rightarrow>
   (consumer_state, http_outcome) py" where
  "serve_request as_response doc verb handler match_info t =
     py_bind (read_request_body doc verb) (\<lambda>parsed_body.
     py_bind (io (RunHandler handler [VOpaque ''Request''] (call_kwargs match_info parsed_body) None)) (\<lambda>v.
     py_bind (py_read (\<lambda>s. current_flow_id t (scope s))) (\<lambda>flow_id.
       py_lift (answer_value as_response doc v flow_id))))"

definition request_failed ::
  "exn_view \<Rightarrow> (string \<times> pyval) list \<Rightarrow> nat \<Rightarrow> exn \<Rightarrow> (consumer_state, http_outcome) py" where
  "request_failed view error_handlers t e =
     py_bind (py_read (\<lambda>s. current_flow_id t (scope s))) (\<lambda>flow_id.
     py_bind (py_lift (resolve_http_error_mapping (ex_mro view e) error_handlers)) (\<lambda>mapped.
       case mapped of
         Some (status, message_override) \<Rightarrow>
           py_lift (map_sum id (\<lambda>r. Answered (prepare_http_response r flow_id))
             (json_response (mapped_body view e message_override) status))
       | None \<Rightarrow> (case ex_http view e of
           Some r \<Rightarrow> py_return (RaisedAnswer (prepare_http_response r flow_id))
         | None \<Rightarrow> py_then (report_uncaught_exception t e)
             (py_return (RaisedAnswer (prepare_http_response internal_server_error flow_id))))))"

definition handle_request ::
  "(pyval \<Rightarrow> response option) \<Rightarrow> exn_view \<Rightarrow> (string \<times> pyval) list \<Rightarrow> http_documentation \<Rightarrow>
   string \<Rightarrow> string \<Rightarrow> string \<Rightarrow> pydict \<Rightarrow> string \<Rightarrow> nat \<Rightarrow> (consumer_state, http_outcome) py" where
  "handle_request as_response view error_handlers doc verb path handler match_info fresh t =
     in_handler_scope ''http'' (upper verb @ '' '' @ path) None False fresh t
       (py_except (serve_request as_response doc verb handler match_info t)
          (request_failed view error_handlers t))"

section \<open>Routes\<close>

text \<open>
  The server adds a route per endpoint; the router may refuse one (a bad path, a duplicate), which
  is logged. The state holds the routes added, each with its method.
\<close>

datatype web_effect =
    AddRoute string pyval string
  | RunnerSetup
  | SiteStart pyval pyval
  | SiteStop
  | RunnerCleanup

record web_server = "web_effect world" +
  ws_config :: pyval
  ws_service_name :: string
  ws_endpoints :: "(string \<times> http_endpoint \<times> http_documentation) list"
  ws_routes :: "(string \<times> pyval \<times> string) list"
  ws_runner :: bool
  ws_site :: bool
  ws_docs_registered :: bool
  ws_openapi_cache :: "(pyval \<times> pyval) list"

definition web_call :: "web_effect \<Rightarrow> (web_server, unit) py" where
  "web_call e = py_then (io e) (py_return ())"

definition add_route :: "string \<Rightarrow> pyval \<Rightarrow> string \<Rightarrow> (web_server, unit) py" where
  "add_route verb path handler =
     py_then (web_call (AddRoute verb path handler))
       (py_modify (\<lambda>s. s\<lparr>ws_routes := ws_routes s @ [(verb, path, handler)]\<rparr>))"

definition add_entrypoint :: "string \<times> http_endpoint \<times> http_documentation \<Rightarrow> (web_server, unit) py" where
  "add_entrypoint = (\<lambda>(handler, ep, doc).
     py_bind (py_read (\<lambda>s. resolve_parameter_path (ws_config s) (he_path_or_key ep) (he_use_config ep))) (\<lambda>r.
     py_bind (py_lift r) (\<lambda>path.
       py_except (add_route (he_method ep) path handler) (\<lambda>_. py_return ()))))"

definition add_entrypoints :: "(web_server, unit) py" where
  "add_entrypoints = py_bind (py_read ws_endpoints) (py_each add_entrypoint)"

definition http_server_init ::
  "pyval \<Rightarrow> string \<Rightarrow> (string \<times> http_endpoint \<times> http_documentation) list \<Rightarrow> reply list \<Rightarrow> web_server" where
  "http_server_init config service_name endpoints answers =
     \<lparr>script = answers, trace = [], ws_config = config, ws_service_name = service_name,
      ws_endpoints = endpoints, ws_routes = [], ws_runner = False, ws_site = False,
      ws_docs_registered = False, ws_openapi_cache = []\<rparr>"

definition http_start :: "(web_server, unit) py" where
  "http_start =
     py_bind (py_read ws_config) (\<lambda>config.
     py_bind (py_lift (get_kontiki_parameter config ''http.address'' (VStr ''0.0.0.0''))) (\<lambda>address.
     py_bind (py_lift (get_kontiki_parameter config ''http.port'' (VInt 8080))) (\<lambda>port.
     py_then (py_modify (\<lambda>s. s\<lparr>ws_site := True\<rparr>)) (web_call (SiteStart address port)))))"

definition http_stop_accepting :: "(web_server, unit) py" where
  "http_stop_accepting = py_when ws_site
     (py_then (web_call SiteStop) (py_modify (\<lambda>s. s\<lparr>ws_site := False\<rparr>)))"

definition http_drain :: "(web_server, unit) py" where
  "http_drain = py_when ws_runner
     (py_then (web_call RunnerCleanup) (py_modify (\<lambda>s. s\<lparr>ws_runner := False\<rparr>)))"

definition http_stop :: "(web_server, unit) py" where
  "http_stop = py_except (py_then http_stop_accepting http_drain) (\<lambda>_. py_return ())"

section \<open>Every request is answered\<close>

lemma header_get_set [simp]: "header_get k (header_set k v h) = Some v"
  by (induction h) (auto simp: header_get_def)

lemma prepared_flow:
  "f \<noteq> VNone \<Longrightarrow> header_get flow_id_header_name (rs_headers (prepare_http_response r f)) = Some f"
  by (simp add: prepare_http_response_def)

lemma map_res_Inl: "map_res f xs = Inl e \<Longrightarrow> \<exists>x \<in> set xs. f x = Inl e"
  by (induction xs) (auto split: sum.splits)

lemma map_sum_Inl: "map_sum id g r = Inl e \<longleftrightarrow> r = Inl e"
  by (cases r) simp_all

lemma to_json_error: "to_json v = Inl e \<Longrightarrow> is_Exception e"
proof (induction v arbitrary: e rule: to_json.induct)
  case (6 xs)
  then show ?case using map_res_Inl by (fastforce simp: map_sum_Inl)
next
  case (7 xs)
  then show ?case using map_res_Inl by (fastforce simp: map_sum_Inl)
next
  case (8 d)
  from 8(2) obtain k v where "(k, v) \<in> set d" "to_json v = Inl e"
    using map_res_Inl[of _ d e] by (fastforce simp: map_sum_Inl)
  with 8(1) show ?case by blast
qed auto

lemma json_response_error: "json_response v status = Inl e \<Longrightarrow> is_Exception e"
  by (auto simp: json_response_def map_sum_def split: sum.splits dest: to_json_error)

lemma answer_value_outcome:
  assumes "f \<noteq> VNone"
  shows "case answer_value as_response doc v f of
     Inl e \<Rightarrow> is_Exception e
   | Inr out \<Rightarrow> (\<forall>r. answer_of out = Some r \<longrightarrow> header_get flow_id_header_name (rs_headers r) = Some f)"
  using assms
  by (auto simp: answer_value_def prepared_flow map_sum_def dest: json_response_error
      split: option.splits pyval.splits sum.splits)

text \<open>How a computation of the server advances: it makes calls and leaves the scope alone.\<close>

definition advance :: "consumer_state \<Rightarrow> consumer_state \<Rightarrow> cns_effect list \<Rightarrow> bool" where
  "advance s u calls \<longleftrightarrow> scope u = scope s \<and> cns_config u = cns_config s \<and>
     cns_registry_client u = cns_registry_client s \<and> set (script u) \<subseteq> set (script s) \<and>
     attempted u = attempted s @ calls"

lemma advance_refl: "advance s s []"
  by (simp add: advance_def)

lemma advance_trans: "advance s u a \<Longrightarrow> advance u v b \<Longrightarrow> advance s v (a @ b)"
  by (auto simp: advance_def)

definition uncancelled :: "consumer_state \<Rightarrow> bool" where
  "uncancelled s \<longleftrightarrow> Raises CancelledError \<notin> set (script s)"

lemma advance_uncancelled: "advance s u a \<Longrightarrow> uncancelled s \<Longrightarrow> uncancelled u"
  by (auto simp: advance_def uncancelled_def)

lemma advance_io:
  fixes s :: consumer_state
  assumes "io e s = (r, u)" "uncancelled s"
  shows "advance s u [e] \<and> (\<forall>x. r = Inl x \<longrightarrow> is_Exception x)"
  using assms
  by (auto simp: io_def advance_def uncancelled_def attempted_def is_Exception_def
      split: list.splits reply.splits)

definition steady_model :: "model_arg \<Rightarrow> bool" where
  "steady_model m \<longleftrightarrow> (\<forall>mc data. m = ModelClass mc \<longrightarrow> parse_with_model mc data \<noteq> Inl CancelledError)"

lemma read_request_body_advance:
  assumes "read_request_body doc verb s = (r, u)" "uncancelled s" "steady_model (ha_request_model doc)"
  obtains reads where "advance s u reads" "reads \<in> {[], [ReadBody]}"
    "\<And>x. r = Inl x \<Longrightarrow> is_Exception x"
proof (cases "validates doc verb")
  case False
  with assms(1) that advance_refl show ?thesis by (auto simp: read_request_body_def py_simps)
next
  case True
  obtain q v where io: "io ReadBody s = (q, v)" by fastforce
  note adv = advance_io[OF io assms(2)]
  show ?thesis
  proof (cases "ha_request_model doc")
    case (ModelClass mc)
    have "u = v \<and> (\<forall>x. r = Inl x \<longrightarrow> is_Exception x)"
      using assms(1,3) True io adv ModelClass
      by (cases q) (auto simp: read_request_body_def py_simps steady_model_def unprocessable_def is_Exception_def
          split: sum.splits if_splits)
    with adv that show ?thesis by blast
  next
    case (ModelValue w)
    show ?thesis
    proof (cases "is_dict w")
      case True
      then have "r = q" "u = v"
        using assms(1) \<open>validates doc verb\<close> io ModelValue
        by (cases w; simp add: read_request_body_def)+
      with adv that show ?thesis by blast
    next
      case False
      then have "r = Inr VNone" "u = s"
        using assms(1) \<open>validates doc verb\<close> ModelValue
        by (cases w; simp add: read_request_body_def py_simps)+
      with that advance_refl show ?thesis by blast
    qed
  qed
qed

lemma serve_request_advance:
  assumes "serve_request as_response doc verb handler match_info t s = (r, u)" "uncancelled s"
    "steady_model (ha_request_model doc)" "current_flow_id t (scope s) = f" "f \<noteq> VNone"
  obtains reads calls where "advance s u (reads @ calls)" "reads \<in> {[], [ReadBody]}"
    "calls = [] \<or> (\<exists>kw. calls = [RunHandler handler [VOpaque ''Request''] kw None])"
    "case r of Inl e \<Rightarrow> is_Exception e
     | Inr out \<Rightarrow> \<forall>a. answer_of out = Some a \<longrightarrow> header_get flow_id_header_name (rs_headers a) = Some f"
proof -
  obtain b v where body: "read_request_body doc verb s = (b, v)" by fastforce
  obtain reads where reads: "advance s v reads" "reads \<in> {[], [ReadBody]}"
      "\<And>x. b = Inl x \<Longrightarrow> is_Exception x"
    using read_request_body_advance[OF body assms(2,3)] by blast
  show ?thesis
  proof (cases b)
    case (Inl e)
    with assms(1) body reads that[of reads "[]"] show ?thesis by (auto simp: serve_request_def py_simps)
  next
    case (Inr parsed)
    let ?call = "RunHandler handler [VOpaque ''Request''] (call_kwargs match_info parsed) None"
    obtain q w where io: "io ?call v = (q, w)" by fastforce
    note adv = advance_io[OF io advance_uncancelled[OF reads(1) assms(2)]]
    then have whole: "advance s w (reads @ [?call])" using advance_trans reads(1) by blast
    with assms(4) have flow: "current_flow_id t (scope w) = f" by (simp add: advance_def)
    show ?thesis
    proof (cases q)
      case (Inl e)
      with assms(1) body Inr io have "r = Inl e" "u = w" by (auto simp: serve_request_def py_simps)
      with adv Inl whole reads(2) that[of reads "[?call]"] show ?thesis by simp
    next
      case (Inr x)
      with assms(1) body \<open>b = Inr parsed\<close> io flow
      have "r = answer_value as_response doc x f" "u = w"
        by (auto simp: serve_request_def py_simps)
      with answer_value_outcome[OF assms(5)] whole reads(2) that[of reads "[?call]"] show ?thesis by simp
    qed
  qed
qed

text \<open>The table of error handlers can be used: its codes are numbers, its messages can be sent.\<close>

definition usable_table :: "exn_view \<Rightarrow> (string \<times> pyval) list \<Rightarrow> bool" where
  "usable_table view error_handlers \<longleftrightarrow> (\<forall>e.
     case resolve_http_error_mapping (ex_mro view e) error_handlers of
       Inl _ \<Rightarrow> False
     | Inr None \<Rightarrow> True
     | Inr (Some (status, m)) \<Rightarrow> \<exists>j. to_json (mapped_body view e m) = Inr j)"

definition reporting_readable :: "consumer_state \<Rightarrow> bool" where
  "reporting_readable s \<longleftrightarrow> (\<exists>v. get_kontiki_parameter (cns_config s)
     ''registration.report_uncaught_exceptions'' (VBool True) = Inr v)"

lemma report_uncaught_advance:
  assumes "uncancelled s" "reporting_readable s"
  obtains u reports where "report_uncaught_exception t e s = (Inr (), u)" "advance s u reports"
    "reports \<in> {[], [RegisterException e (get_handler_ctx_fields t (scope s))]}"
proof -
  obtain enabled where en: "get_kontiki_parameter (cns_config s)
      ''registration.report_uncaught_exceptions'' (VBool True) = Inr enabled"
    using assms(2) by (auto simp: reporting_readable_def)
  let ?call = "RegisterException e (get_handler_ctx_fields t (scope s))"
  obtain q v where io: "io ?call s = (q, v)" by fastforce
  note adv = advance_io[OF io assms(1)]
  show ?thesis
  proof (cases "truthy enabled \<and> cns_registry_client s")
    case True
    with en io adv have "report_uncaught_exception t e s = (Inr (), v)"
      by (cases q) (auto simp: report_uncaught_exception_def report_exception_def py_simps)
    with adv that show ?thesis by blast
  next
    case False
    with en have "report_uncaught_exception t e s = (Inr (), s)"
      by (auto simp: report_uncaught_exception_def report_exception_def py_simps)
    with advance_refl that show ?thesis by blast
  qed
qed

lemma request_failed_advance:
  assumes "uncancelled s" "reporting_readable s" "usable_table view error_handlers"
    "current_flow_id t (scope s) = f" "f \<noteq> VNone"
  obtains out u reports where "request_failed view error_handlers t e s = (Inr out, u)" "advance s u reports"
    "\<And>a. answer_of out = Some a \<Longrightarrow> header_get flow_id_header_name (rs_headers a) = Some f"
    "reports = [] \<or> reports = [RegisterException e (get_handler_ctx_fields t (scope s))] \<and>
       out = RaisedAnswer (prepare_http_response internal_server_error f)"
proof -
  obtain mapped where m: "resolve_http_error_mapping (ex_mro view e) error_handlers = Inr mapped"
    using assms(3) unfolding usable_table_def
    by (cases "resolve_http_error_mapping (ex_mro view e) error_handlers") (auto dest: spec[of _ e])
  show ?thesis
  proof (cases mapped)
    case (Some p)
    then obtain status msg where p: "mapped = Some (status, msg)" by (cases p) simp
    then obtain j where "to_json (mapped_body view e msg) = Inr j"
      using assms(3) m unfolding usable_table_def by (auto dest!: spec[of _ e])
    then obtain r where "json_response (mapped_body view e msg) status = Inr r"
      by (simp add: json_response_def)
    with m p assms(4) have "request_failed view error_handlers t e s =
        (Inr (Answered (prepare_http_response r f)), s)"
      by (simp add: request_failed_def py_simps)
    with that[of _ s "[]"] advance_refl prepared_flow[OF assms(5)] show ?thesis by auto
  next
    case None
    show ?thesis
    proof (cases "ex_http view e")
      case (Some r)
      with m None assms(4) have "request_failed view error_handlers t e s =
          (Inr (RaisedAnswer (prepare_http_response r f)), s)"
        by (simp add: request_failed_def py_simps)
      with that[of _ s "[]"] advance_refl prepared_flow[OF assms(5)] show ?thesis by auto
    next
      case nohttp: None
      obtain u reports where rep: "report_uncaught_exception t e s = (Inr (), u)" "advance s u reports"
          "reports \<in> {[], [RegisterException e (get_handler_ctx_fields t (scope s))]}"
        using report_uncaught_advance[OF assms(1,2)] by blast
      with m None nohttp assms(4) have "request_failed view error_handlers t e s =
          (Inr (RaisedAnswer (prepare_http_response internal_server_error f)), u)"
        by (simp add: request_failed_def py_simps)
      with that[of _ u reports] rep prepared_flow[OF assms(5)] show ?thesis by auto
    qed
  qed
qed

lemma request_flow:
  fixes s :: consumer_state
  shows "current_flow_id t (scope (entered ''http'' op None False fresh t s)) = VStr fresh"
    and "get_handler_ctx_fields t (scope (entered ''http'' op None False fresh t s)) =
      (VStr fresh, VStr ''http'', VStr op, VNone)"
  by (simp_all add: entered_def enter_handler_scope_def set_handler_context_def current_flow_id_def
      get_raw_context_def get_handler_ctx_fields_def current_handler_context_def untraced_kind_def)

definition answer_stamped :: "pyval \<Rightarrow> http_outcome \<Rightarrow> bool" where
  "answer_stamped f out \<longleftrightarrow>
     (\<forall>a. answer_of out = Some a \<longrightarrow> header_get flow_id_header_name (rs_headers a) = Some f)"

lemma guarded_request:
  assumes "uncancelled s" "reporting_readable s" "usable_table view error_handlers"
    "steady_model (ha_request_model doc)" "current_flow_id t (scope s) = f" "f \<noteq> VNone"
  obtains out u reads calls reports where
    "py_except (serve_request as_response doc verb handler match_info t)
       (request_failed view error_handlers t) s = (Inr out, u)"
    "answer_stamped f out" "advance s u (reads @ calls @ reports)" "reads \<in> {[], [ReadBody]}"
    "calls = [] \<or> (\<exists>kw. calls = [RunHandler handler [VOpaque ''Request''] kw None])"
    "reports = [] \<or> (\<exists>e. reports = [RegisterException e (get_handler_ctx_fields t (scope s))]) \<and>
       out = RaisedAnswer (prepare_http_response internal_server_error f)"
proof -
  obtain r v where serve: "serve_request as_response doc verb handler match_info t s = (r, v)" by fastforce
  obtain reads calls where adv: "advance s v (reads @ calls)" "reads \<in> {[], [ReadBody]}"
    "calls = [] \<or> (\<exists>kw. calls = [RunHandler handler [VOpaque ''Request''] kw None])"
    "case r of Inl e \<Rightarrow> is_Exception e | Inr out \<Rightarrow> answer_stamped f out"
    using serve_request_advance[OF serve assms(1,4,5,6)] unfolding answer_stamped_def by blast
  show ?thesis
  proof (cases r)
    case (Inr out)
    with serve adv that[of out v reads calls "[]"] show ?thesis by (simp add: py_simps)
  next
    case (Inl e)
    have v: "uncancelled v" "reporting_readable v" "scope v = scope s"
      using adv(1) assms(1,2) by (auto simp: advance_def uncancelled_def reporting_readable_def)
    with assms(5) have "current_flow_id t (scope v) = f" by simp
    then obtain out w reports where failed: "request_failed view error_handlers t e v = (Inr out, w)"
      "advance v w reports" "answer_stamped f out"
      "reports = [] \<or> reports = [RegisterException e (get_handler_ctx_fields t (scope s))] \<and>
         out = RaisedAnswer (prepare_http_response internal_server_error f)"
      using request_failed_advance[OF v(1,2) assms(3), of t f e] assms(6) v(3)
      unfolding answer_stamped_def by metis
    have "py_except (serve_request as_response doc verb handler match_info t)
       (request_failed view error_handlers t) s = (Inr out, w)"
      using serve adv(4) Inl failed(1) by (simp add: py_simps)
    moreover have "advance s w (reads @ calls @ reports)"
      using advance_trans[OF adv(1) failed(2)] by simp
    ultimately show ?thesis using that[of out w reads calls reports] adv(2,3) failed(3,4) by blast
  qed
qed


definition demo_view :: exn_view where
  "demo_view = \<lparr>ex_mro = (\<lambda>e. case e of KeyError k \<Rightarrow> [''KeyError'', ''LookupError'', ''Exception'']
        | _ \<Rightarrow> [''Exception'']), ex_message = (\<lambda>e. VNone), ex_text = (\<lambda>e. ''no such item''),
     ex_http = (\<lambda>e. None)\<rparr>"

definition demo_table :: "(string \<times> pyval) list" where
  "demo_table = [(''LookupError'', VTuple [VInt 404])]"

definition demo_doc :: http_documentation where
  "demo_doc = \<lparr>ha_version = VNone, ha_summary = VNone, ha_description = VNone, ha_tags = [],
     ha_request_model = ModelValue VNone, ha_response_model = ModelValue VNone, ha_status_code = 200,
     ha_responses = [], ha_errors = [], ha_skip_documentation = False, ha_validate_request = False,
     hd_request_schema = VNone, hd_response_schema = VNone\<rparr>"

definition demo_http :: consumer_state where
  "demo_http = \<lparr>script = [Raises (KeyError ''item'')], trace = [], scope = scope_init,
     cns_config = VDict [], cns_registry_client = True, cns_shutting_down = False,
     cns_handler_tasks = [], cns_rpc_pending = []\<rparr>"

lemma demo_table_usable: "usable_table demo_view demo_table"
  unfolding usable_table_def
proof
  fix e
  show "case resolve_http_error_mapping (ex_mro demo_view e) demo_table of Inl _ \<Rightarrow> False
    | Inr None \<Rightarrow> True | Inr (Some (status, m)) \<Rightarrow> \<exists>j. to_json (mapped_body demo_view e m) = Inr j"
    by (cases e) (simp_all add: demo_view_def demo_table_def resolve_http_error_mapping_def
        entry_status_def mapped_body_def)
qed


section \<open>Invalid bodies\<close>

text \<open>
  A body that cannot be read or does not fit its model class ends the request before the method is
  called: it is answered by the exception for unprocessable entities (unless the service maps it).
\<close>

lemma invalid_body_not_served:
  fixes s :: consumer_state
  assumes "validates doc verb" "ha_request_model doc = ModelClass mc" "script s = a # rest"
    and "case a of Raises x \<Rightarrow> is_Exception x
         | Returns data \<Rightarrow> \<exists>x. parse_with_model mc data = Inl x \<and> is_Exception x"
  shows "\<exists>u. serve_request as_response doc verb handler match_info t s = (Inl unprocessable, u) \<and>
    attempted u = attempted s @ [ReadBody]"
  using assms
  by (cases a) (auto simp: serve_request_def read_request_body_def py_simps attempted_def)

text \<open>
  A dictionary as a model only documents the body, but the body is still read, outside the \<open>try\<close>
  that turns an unreadable one into a 422: it ends in an internal error that is reported.
\<close>

lemma unreadable_body_of_dict_model:
  fixes s :: consumer_state
  assumes "validates doc verb" "ha_request_model doc = ModelValue (VDict d)" "script s = Raises x # rest"
  shows "fst (serve_request as_response doc verb handler match_info t s) = Inl x"
  using assms by (simp add: serve_request_def read_request_body_def py_simps)

text \<open>A handler's text is no response: it has no headers to stamp, which is an internal error.\<close>

lemma text_is_no_answer:
  assumes "as_response (VStr text) = None" "f \<noteq> VNone"
  shows "answer_value as_response doc (VStr text) f = Inl (AttributeError ''headers'')"
  using assms by (simp add: answer_value_def)

end
