(* ===== verification/Registry_Service.thy ===== *)
theory Registry_Service
  imports Registry_Client Http_Server
begin

text \<open>
  The registry as a service (\<open>registry/server/service.py\<close>): its HTTP and RPC methods over the core, and
  the set-up of the core (\<open>registry/server/core.py\<close>).

  An HTTP method returns an aiohttp response or raises one; an RPC method returns a value. The
  operations on failed messages work on the broker's state of Failed_Messages, after the registry's
  records were asked whether the entrypoint is available.
\<close>

section \<open>Setting the core up\<close>

definition core_setup :: "pyval \<Rightarrow> tracker_config \<Rightarrow> (activity, unit) py" where
  "core_setup config tracker =
     py_bind (py_lift (get_amqp_url config (VStr AMQP_DEFAULT_URL))) (\<lambda>url.
     py_bind (py_lift (create_tls_context config)) (\<lambda>ssl_ctx.
     py_then (at_call (AtConnect url ssl_ctx))
     (py_then (py_modify (\<lambda>s. s\<lparr>at_connected := True\<rparr>))
     (py_then (at_call AtChannel)
     (py_then (at_call (AtQos 10))
     (py_then (at_call (AtExchange REGISTRY_ADMIN_EXCHANGE))
     (py_then (tracker_setup tracker)
     (py_then (py_each create_and_consume_queue [REGISTER_RKEY, UNREGISTER_RKEY])
        (create_and_consume_queue HEARTBEAT_RKEY)))))))))"

definition core_stop :: "(activity, unit) py" where
  "core_stop = py_when at_connected (at_call AtClose)"

section \<open>HTTP\<close>

definition plain_response :: "int \<Rightarrow> response" where
  "plain_response status = \<lparr>rs_status = status, rs_headers = [], rs_json = None\<rparr>"

definition http_live :: "registry \<Rightarrow> int \<Rightarrow> string \<Rightarrow> string \<Rightarrow> exn + response" where
  "http_live core now own_name service_name =
     (case is_live core now own_name service_name of
        Inl e \<Rightarrow> Inl e
      | Inr live \<Rightarrow> if live then Inr (plain_response 200)
                   else Inl (OtherError ''HTTPServiceUnavailable'' []))"

definition http_list_instances :: "registry \<Rightarrow> int \<Rightarrow> string \<Rightarrow> exn + response" where
  "http_list_instances core now service_name =
     (case list_instances core now (VStr service_name) of
        Inl e \<Rightarrow> Inl e
      | Inr live \<Rightarrow> json_response (VList (map VStr live)) 200)"

definition services_value :: "(string \<times> (string \<times> pyval) list) list \<Rightarrow> pyval" where
  "services_value found = VDict (map (\<lambda>(sn, insts). (sn, VDict insts)) found)"

definition http_get_all_services :: "registry \<Rightarrow> int \<Rightarrow> (int \<Rightarrow> string) \<Rightarrow> exn + response" where
  "http_get_all_services core now iso_of =
     json_response (services_value (get_services core now iso_of None)) 200"

definition http_get_services_by_status ::
  "registry \<Rightarrow> int \<Rightarrow> (int \<Rightarrow> string) \<Rightarrow> string \<Rightarrow> exn + response" where
  "http_get_services_by_status core now iso_of status =
     (case service_status_of status of
        None \<Rightarrow> Inl (OtherError ''HTTPBadRequest'' (''Invalid status: '' @ status))
      | Some st \<Rightarrow> json_response (services_value (get_services core now iso_of (Some status))) 200)"

text \<open>\<open>record.get(filter_field) == value\<close> over records that were made serializable.\<close>

fun matching_records :: "string \<Rightarrow> pyval \<Rightarrow> pyval list \<Rightarrow> exn + pyval list" where
  "matching_records filter_field v [] = Inr []"
| "matching_records filter_field v (record # rest) =
     (case record of
        VDict d \<Rightarrow> map_sum id (\<lambda>found. if py_eq (dget_default d filter_field VNone) v then record # found else found)
          (matching_records filter_field v rest)
      | _ \<Rightarrow> Inl (AttributeError ''get''))"

definition records_of :: "pyval \<Rightarrow> pyval list" where
  "records_of v = (case v of VList xs \<Rightarrow> xs | _ \<Rightarrow> [])"

definition get_filtered_events ::
  "(8 word list \<Rightarrow> string) \<Rightarrow> activity \<Rightarrow> string \<Rightarrow> pyval \<Rightarrow> exn + pyval" where
  "get_filtered_events decode s filter_field v =
     map_sum id VList (matching_records filter_field v (records_of (get_events decode s)))"

definition get_filtered_exceptions ::
  "(8 word list \<Rightarrow> string) \<Rightarrow> activity \<Rightarrow> string \<Rightarrow> pyval \<Rightarrow> exn + pyval" where
  "get_filtered_exceptions decode s filter_field v =
     map_sum id VList (matching_records filter_field v (records_of (get_exceptions decode s)))"

definition http_get_events :: "(8 word list \<Rightarrow> string) \<Rightarrow> activity \<Rightarrow> exn + response" where
  "http_get_events decode s = json_response (get_events decode s) 200"

definition http_get_exceptions :: "(8 word list \<Rightarrow> string) \<Rightarrow> activity \<Rightarrow> exn + response" where
  "http_get_exceptions decode s = json_response (get_exceptions decode s) 200"

definition http_get_filtered_events ::
  "(8 word list \<Rightarrow> string) \<Rightarrow> activity \<Rightarrow> string \<Rightarrow> string \<Rightarrow> exn + response" where
  "http_get_filtered_events decode s filter_field v =
     (case get_filtered_events decode s filter_field (VStr v) of
        Inl e \<Rightarrow> Inl e | Inr found \<Rightarrow> json_response found 200)"

definition http_get_filtered_exceptions ::
  "(8 word list \<Rightarrow> string) \<Rightarrow> activity \<Rightarrow> string \<Rightarrow> string \<Rightarrow> exn + response" where
  "http_get_filtered_exceptions decode s filter_field v =
     (case get_filtered_exceptions decode s filter_field (VStr v) of
        Inl e \<Rightarrow> Inl e | Inr found \<Rightarrow> json_response found 200)"

section \<open>RPC\<close>

text \<open>A status that is no text is none of the enumeration.\<close>

definition rpc_get_services :: "(pyval \<Rightarrow> string) \<Rightarrow> registry \<Rightarrow> int \<Rightarrow> (int \<Rightarrow> string) \<Rightarrow> pyval \<Rightarrow> pyval" where
  "rpc_get_services str_of core now iso_of status =
     (case status of
        VNone \<Rightarrow> services_value (get_services core now iso_of None)
      | VStr w \<Rightarrow> (case service_status_of w of
          None \<Rightarrow> rpc_error ''INVALID_STATUS'' (''Invalid status: '' @ w)
        | Some st \<Rightarrow> services_value (get_services core now iso_of (Some w)))
      | v \<Rightarrow> rpc_error ''INVALID_STATUS'' (''Invalid status: '' @ str_of v))"

definition rpc_list_instances :: "registry \<Rightarrow> int \<Rightarrow> pyval \<Rightarrow> exn + pyval" where
  "rpc_list_instances core now service_name =
     map_sum id (\<lambda>live. VList (map VStr live)) (list_instances core now service_name)"

definition rpc_get_events :: "(8 word list \<Rightarrow> string) \<Rightarrow> activity \<Rightarrow> pyval" where
  "rpc_get_events decode s = get_events decode s"

definition rpc_get_exceptions :: "(8 word list \<Rightarrow> string) \<Rightarrow> activity \<Rightarrow> pyval" where
  "rpc_get_exceptions decode s = get_exceptions decode s"

text \<open>The periodic task of the registry.\<close>

definition monitor_instance_statuses :: "clock \<Rightarrow> (registry, unit) py" where
  "monitor_instance_statuses c = refresh_all_instance_statuses c"

definition entrypoint_unavailable :: "string \<Rightarrow> string \<Rightarrow> pyval" where
  "entrypoint_unavailable service_name name = rpc_error ''ENTRYPOINT_UNAVAILABLE''
     (''No live instance of '' @ service_name @ '' declares competing event '' @ name)"

definition when_declared ::
  "registry \<Rightarrow> int \<Rightarrow> string \<Rightarrow> string \<Rightarrow> (fm_state, pyval) py \<Rightarrow> (fm_state, pyval) py" where
  "when_declared core now service_name name operation =
     py_bind (py_lift (declares_competing_event core now service_name name)) (\<lambda>declared.
       if \<not> declared then py_return (entrypoint_unavailable service_name name) else operation)"

definition service_list_failed ::
  "decoder \<Rightarrow> registry \<Rightarrow> int \<Rightarrow> string \<Rightarrow> string \<Rightarrow> int \<Rightarrow> (fm_state, pyval) py" where
  "service_list_failed decode core now service_name name limit =
     when_declared core now service_name name (list_failed_messages decode service_name name limit)"

definition service_replay_failed ::
  "decoder \<Rightarrow> registry \<Rightarrow> int \<Rightarrow> string \<Rightarrow> string \<Rightarrow> int \<Rightarrow> (fm_state, pyval) py" where
  "service_replay_failed decode core now service_name name count =
     when_declared core now service_name name (replay_failed_messages decode service_name name count)"

definition service_drop_failed ::
  "registry \<Rightarrow> int \<Rightarrow> string \<Rightarrow> string \<Rightarrow> int \<Rightarrow> (fm_state, pyval) py" where
  "service_drop_failed core now service_name name count =
     when_declared core now service_name name (drop_failed_messages service_name name count)"

section \<open>What reaches the broker\<close>

lemma when_declared_run:
  assumes "declares_competing_event core now service_name name = Inr declared"
  shows "when_declared core now service_name name operation s =
    (if declared then operation s else (Inr (entrypoint_unavailable service_name name), s))"
  using assms by (simp add: when_declared_def py_simps)

text \<open>
  Requests about failed messages reach the broker exactly for work queues. After the registration
  and a heartbeat of a service's first instance, and as long as that instance counts as live, a request
  of the registry's RPC interface to list, replay or drop the failed messages of an event does what the
  operation on the failed queue does if the service has a handler whose queue retains them; for
  any other event it makes no call to the broker and answers with the error ENTRYPOINT_UNAVAILABLE.
\<close>

lemma failed_message_requests_are_gated:
  assumes "registration_body is_valid version h = Inr body"
    and "dget (services (registry_after t answers history)) (hs_service_name h) = None"
    and "interval_ok (wire_entries body)" "now - now_us c' \<le> silence_us (wire_entries body)"
    and "core = registry_after t answers (history @ [OnRegister c (Inr (VDict (wire_entries body))),
         OnHeartbeat c' (Inr (VDict (wire_entries (heartbeat_body h degraded reason))))])"
  shows "service_list_failed decode core now (hs_service_name h) ev n s =
      (if competes_for h ev then list_failed_messages decode (hs_service_name h) ev n s
       else (Inr (entrypoint_unavailable (hs_service_name h) ev), s)) \<and>
    service_replay_failed decode core now (hs_service_name h) ev n s =
      (if competes_for h ev then replay_failed_messages decode (hs_service_name h) ev n s
       else (Inr (entrypoint_unavailable (hs_service_name h) ev), s)) \<and>
    service_drop_failed core now (hs_service_name h) ev n s =
      (if competes_for h ev then drop_failed_messages (hs_service_name h) ev n s
       else (Inr (entrypoint_unavailable (hs_service_name h) ev), s))"
  unfolding assms(5) service_list_failed_def service_replay_failed_def service_drop_failed_def
  by (simp add: when_declared_run[OF declared_iff_competes[OF assms(1-4)]])

theorem failed_message_requests_are_gated_witness:
  "let core = registry_after 0 [] ([] @ [OnRegister (demo_clock 1) (Inr (VDict (wire_entries demo_body))),
         OnHeartbeat (demo_clock 2) (Inr (VDict (wire_entries (heartbeat_body demo_hosted True (VStr ''slow'')))))])
   in service_drop_failed core 5 (hs_service_name demo_hosted) ''paid'' 3 \<lparr>script = [], trace = []\<rparr> =
      (if competes_for demo_hosted ''paid''
       then drop_failed_messages (hs_service_name demo_hosted) ''paid'' 3 \<lparr>script = [], trace = []\<rparr>
       else (Inr (entrypoint_unavailable (hs_service_name demo_hosted) ''paid''), \<lparr>script = [], trace = []\<rparr>))"
proof -
  note gated = failed_message_requests_are_gated[OF demo_registration_body _ _ _ refl,
      where t = 0 and answers = "[]" and history = "[]" and c = "demo_clock 1" and c' = "demo_clock 2"
        and now = 5 and degraded = True and reason = "VStr ''slow''" and ev = "''paid''" and n = 3
        and s = "\<lparr>script = [], trace = []\<rparr>"]
  show ?thesis
    unfolding Let_def
    by (rule gated[THEN conjunct2, THEN conjunct2])
      (simp_all add: registry_after_def registry_init_def demo_body_def demo_clock_def identity_entries_def
        wire_entries_def interval_ok_def interval_of_def silence_us_def DAY_US_def MAX_DELTA_DAYS_def
        dget_default_def)
qed

section \<open>Filtered records\<close>

lemma matching_records_dicts:
  assumes "list_all is_dict records"
  shows "matching_records f v records =
    Inr (filter (\<lambda>r. case r of VDict d \<Rightarrow> py_eq (dget_default d f VNone) v | _ \<Rightarrow> False) records)"
  using assms
proof (induction records)
  case (Cons r rs)
  then show ?case by (cases r) simp_all
qed simp

text \<open>
  One record that is no mapping, which the tracker stores as it comes, makes every filtered query of
  the exceptions raise.
\<close>

lemma unreadable_record_breaks_filters:
  assumes "r \<in> set records" "\<not> is_dict r"
  shows "matching_records f v records = Inl (AttributeError ''get'')"
  using assms
proof (induction records)
  case (Cons q rs)
  then show ?case by (cases q) auto
qed simp

end
