(* ===== verification/Documentation.thy ===== *)
theory Documentation
  imports Http_Server
begin

text \<open>
  The documentation a service publishes of its HTTP endpoints (\<open>web/documentation/doc.py\<close>): the
  description of the endpoints with the responses derived from their mapped errors, the OpenAPI
  document built from it, and the routes under which it is served.

  The definitions that pydantic puts under \<open>$defs\<close> of a schema are moved to the components of the
  document, and references to them are rewritten. \<open>str_of\<close> is \<open>str(v)\<close> of a value that is neither text
  nor a number.
\<close>

section \<open>Describing the endpoints\<close>

definition digit_char :: "nat \<Rightarrow> char" where "digit_char n = char_of (48 + n)"

function nat_text :: "nat \<Rightarrow> string" where
  "nat_text n = (if n < 10 then [digit_char n] else nat_text (n div 10) @ [digit_char (n mod 10)])"
  by auto
termination by (relation "measure id") auto

declare nat_text.simps [simp del]

definition int_text :: "int \<Rightarrow> string" where
  "int_text i = (if i < 0 then CHR ''-'' # nat_text (nat (- i)) else nat_text (nat i))"

fun str :: "(pyval \<Rightarrow> string) \<Rightarrow> pyval \<Rightarrow> string" where
  "str str_of (VStr s) = s"
| "str str_of (VInt i) = int_text i"
| "str str_of v = str_of v"

text \<open>A dictionary whose keys are numbers or texts; equal numbers are one key.\<close>

fun vset :: "pyval \<Rightarrow> 'v \<Rightarrow> (pyval \<times> 'v) list \<Rightarrow> (pyval \<times> 'v) list" where
  "vset k v [] = [(k, v)]"
| "vset k v ((j, w) # d) = (if py_eq j k then (j, v) # d else (j, w) # vset k v d)"

definition vget :: "(pyval \<times> 'v) list \<Rightarrow> pyval \<Rightarrow> 'v option" where
  "vget d k = map_option snd (List.find (\<lambda>(j, v). py_eq j k) d)"

definition vunion :: "(pyval \<times> 'v) list \<Rightarrow> (pyval \<times> 'v) list \<Rightarrow> (pyval \<times> 'v) list" where
  "vunion d e = foldl (\<lambda>d (k, v). vset k v d) d e"

record endpoint_doc = http_documentation +
  ed_path :: pyval
  ed_method :: string
  ed_handler_name :: string

text \<open>The response a declared error leads to: only an entry for the very class counts.\<close>

definition derived_response :: "(string \<times> pyval) list \<Rightarrow> string \<Rightarrow> exn + (int \<times> pyval) option" where
  "derived_response error_handlers exc_type =
     (case dget error_handlers exc_type of
        None \<Rightarrow> Inr None
      | Some val \<Rightarrow> (case (case val of VTuple xs \<Rightarrow> xs | VList xs \<Rightarrow> xs | _ \<Rightarrow> []) of
          [] \<Rightarrow> Inr None
        | code # more_items \<Rightarrow> map_sum id (\<lambda>status. Some (status,
            case more_items of
              [] \<Rightarrow> VStr exc_type
            | m # _ \<Rightarrow> if m \<noteq> VNone then m else VStr exc_type)) (int_of code)))"

fun derived_responses ::
  "(string \<times> pyval) list \<Rightarrow> string list \<Rightarrow> (pyval \<times> pyval) list \<Rightarrow> exn + (pyval \<times> pyval) list" where
  "derived_responses error_handlers [] acc = Inr acc"
| "derived_responses error_handlers (exc_type # rest) acc =
     (case derived_response error_handlers exc_type of
        Inl e \<Rightarrow> Inl e
      | Inr None \<Rightarrow> derived_responses error_handlers rest acc
      | Inr (Some (status, desc)) \<Rightarrow> derived_responses error_handlers rest (vset (VInt status) desc acc))"

definition describe_endpoint ::
  "pyval \<Rightarrow> (string \<times> pyval) list \<Rightarrow> string \<times> http_endpoint \<times> http_documentation \<Rightarrow> exn + endpoint_doc" where
  "describe_endpoint config error_handlers = (\<lambda>(handler, ep, doc).
     case resolve_parameter_path config (he_path_or_key ep) (he_use_config ep) of
       Inl e \<Rightarrow> Inl e
     | Inr path \<Rightarrow> (case derived_responses error_handlers (ha_errors doc) [] of
         Inl e \<Rightarrow> Inl e
       | Inr derived \<Rightarrow> Inr (http_documentation.extend
           (doc\<lparr>ha_responses := vunion derived (ha_responses doc)\<rparr>)
           (endpoint_doc.fields path (he_method ep) handler))))"

text \<open>\<open>None\<close> as the version asks for every endpoint.\<close>

definition get_http_documentation ::
  "pyval \<Rightarrow> (string \<times> pyval) list \<Rightarrow> (string \<times> http_endpoint \<times> http_documentation) list \<Rightarrow> pyval \<Rightarrow>
   exn + endpoint_doc list" where
  "get_http_documentation config error_handlers entrypoints version =
     map_sum id (filter (\<lambda>doc. \<not> ha_skip_documentation doc \<and>
         (version \<noteq> VNone \<longrightarrow> py_eq (ha_version doc) version)))
       (map_res (describe_endpoint config error_handlers) entrypoints)"

text \<open>The set of versions; Python does not fix the order in which it is gone through.\<close>

definition detect_api_versions :: "(string \<times> http_endpoint \<times> http_documentation) list \<Rightarrow> pyval list" where
  "detect_api_versions entrypoints =
     remdups (filter truthy (List.map (\<lambda>(handler, ep, doc). ha_version doc) entrypoints))"

section \<open>Schemas\<close>

definition LOCAL_REF :: string where "LOCAL_REF = ''#/$defs/''"
definition COMPONENT_REF :: string where "COMPONENT_REF = ''#/components/schemas/''"

definition starts_with :: "string \<Rightarrow> string \<Rightarrow> bool" where
  "starts_with p s \<longleftrightarrow> take (length p) s = p"

text \<open>\<open>s.replace("#/$defs/", "")\<close>.\<close>

fun drop_local :: "string \<Rightarrow> string" where
  "drop_local [] = []"
| "drop_local (c # s) =
     (if starts_with LOCAL_REF (c # s) then drop_local (drop 7 s) else c # drop_local s)"

definition rewrite_ref :: "string \<Rightarrow> string" where
  "rewrite_ref s = (if starts_with LOCAL_REF s then COMPONENT_REF @ drop_local s else s)"

text \<open>
  \<open>_collect_defs_from_schema\<close> with the collected definitions as its state. Popping \<open>$defs\<close> is leaving
  that entry out; a value that is neither a dictionary nor a list is kept as it is, except the text of
  a reference.
\<close>

fun rewrite_value :: "string \<Rightarrow> pyval \<Rightarrow> pyval" where
  "rewrite_value k (VStr s) = VStr (if k = ''$ref'' then rewrite_ref s else s)"
| "rewrite_value k v = v"

definition local_defs :: "pydict \<Rightarrow> pydict" where
  "local_defs d = (case dget d ''$defs'' of Some (VDict defs) \<Rightarrow> defs | _ \<Rightarrow> [])"

function (sequential) collect_defs :: "pyval \<Rightarrow> pydict \<Rightarrow> pyval \<times> pydict"
  and collect_entries :: "pydict \<Rightarrow> pydict \<Rightarrow> pydict \<times> pydict"
  and collect_items :: "pyval list \<Rightarrow> pydict \<Rightarrow> pyval list \<times> pydict" where
  "collect_defs (VDict d) all_defs =
     (case collect_entries d (dunion all_defs (local_defs d)) of (e, all_defs1) \<Rightarrow> (VDict e, all_defs1))"
| "collect_defs (VList xs) all_defs =
     (case collect_items xs all_defs of (ys, all_defs1) \<Rightarrow> (VList ys, all_defs1))"
| "collect_defs v all_defs = (v, all_defs)"
| "collect_entries [] all_defs = ([], all_defs)"
| "collect_entries ((k, v) # d) all_defs =
     (if k = ''$defs'' then collect_entries d all_defs
      else (case collect_defs v all_defs of (w, all_defs1) \<Rightarrow>
        (case collect_entries d all_defs1 of (e, all_defs2) \<Rightarrow> ((k, rewrite_value k w) # e, all_defs2))))"
| "collect_items [] all_defs = ([], all_defs)"
| "collect_items (v # vs) all_defs =
     (case collect_defs v all_defs of
        (w, all_defs1) \<Rightarrow> (case collect_items vs all_defs1 of (ws, all_defs2) \<Rightarrow> (w # ws, all_defs2)))"
  by pat_completeness auto
termination
  by (relation "measure (\<lambda>a. case a of
        Inl (v, _) \<Rightarrow> 2 * size v
      | Inr (Inl (d, _)) \<Rightarrow> 2 * size_list (size_prod (\<lambda>_. 0) size) d + 1
      | Inr (Inr (xs, _)) \<Rightarrow> 2 * size_list size xs + 1)") auto

section \<open>The OpenAPI document\<close>

record openapi =
  oa_paths :: pydict
  oa_tags :: "string list"
  oa_defs :: pydict

definition described :: "string \<Rightarrow> pyval" where
  "described text = VDict [(''description'', VStr text)]"

definition json_content :: "pyval \<Rightarrow> pyval" where
  "json_content schema = VDict [(''application/json'', VDict [(''schema'', schema)])]"

definition add_response :: "(pyval \<Rightarrow> string) \<Rightarrow> pydict \<Rightarrow> pyval \<times> pyval \<Rightarrow> pydict" where
  "add_response str_of responses = (\<lambda>(sc, resp).
     case resp of
       VStr s \<Rightarrow> dset (str str_of sc) (described s) responses
     | VDict d \<Rightarrow> dset (str str_of sc) resp responses
     | _ \<Rightarrow> responses)"

definition set_content :: "string \<Rightarrow> pyval \<Rightarrow> pydict \<Rightarrow> pydict" where
  "set_content status schema responses =
     (let entry = (case dget responses status of Some (VDict d) \<Rightarrow> d
                   | _ \<Rightarrow> [(''description'', VStr ''Successful response'')])
      in dset status (VDict (dset ''content'' (json_content schema) entry)) responses)"

definition request_part :: "endpoint_doc \<Rightarrow> string \<Rightarrow> pydict \<Rightarrow> pydict \<times> pydict" where
  "request_part endpoint verb all_defs =
     (if truthy (hd_request_schema endpoint) \<and> verb \<in> {''post'', ''put'', ''patch''}
      then (case collect_defs (hd_request_schema endpoint) all_defs of (schema, all_defs1) \<Rightarrow>
        ([(''requestBody'', VDict [(''content'', json_content schema), (''required'', VBool True)])], all_defs1))
      else ([], all_defs))"

definition response_part :: "endpoint_doc \<Rightarrow> pydict \<Rightarrow> pydict \<Rightarrow> pydict \<times> pydict" where
  "response_part endpoint responses all_defs =
     (if truthy (hd_response_schema endpoint)
      then (case collect_defs (hd_response_schema endpoint) all_defs of (schema, all_defs1) \<Rightarrow>
        (set_content (int_text (ha_status_code endpoint)) schema responses, all_defs1))
      else (responses, all_defs))"

definition success_response :: "endpoint_doc \<Rightarrow> pydict" where
  "success_response endpoint =
     (let success_status = int_text (ha_status_code endpoint)
      in if vget (ha_responses endpoint) (VStr success_status) = None
         then [(success_status, described ''Successful response'')] else [])"

definition openapi_operation ::
  "(pyval \<Rightarrow> string) \<Rightarrow> endpoint_doc \<Rightarrow> string \<Rightarrow> string \<Rightarrow> pydict \<Rightarrow> pyval \<times> pydict" where
  "openapi_operation str_of endpoint path verb all_defs =
     (case request_part endpoint verb all_defs of (request, all_defs1) \<Rightarrow>
      (case response_part endpoint (success_response endpoint) all_defs1 of (responses, all_defs2) \<Rightarrow>
       (VDict ([(''summary'', if truthy (ha_summary endpoint) then ha_summary endpoint
                   else VStr (upper verb @ '' '' @ path)),
                (''description'', ha_description endpoint),
                (''tags'', VList (List.map VStr (ha_tags endpoint))),
                (''responses'', VDict (foldl (add_response str_of) responses (ha_responses endpoint)))]
               @ request), all_defs2)))"

text \<open>
  An endpoint with an empty path or method is left out; a path that cannot be the key of a
  dictionary raises.
\<close>

fun path_key :: "(pyval \<Rightarrow> string) \<Rightarrow> pyval \<Rightarrow> exn + string" where
  "path_key str_of (VList xs) = Inl (TypeError ''unhashable type'')"
| "path_key str_of (VDict d) = Inl (TypeError ''unhashable type'')"
| "path_key str_of (VSet xs) = Inl (TypeError ''unhashable type'')"
| "path_key str_of v = Inr (str str_of v)"

definition add_operation :: "string \<Rightarrow> string \<Rightarrow> pyval \<Rightarrow> pydict \<Rightarrow> pydict" where
  "add_operation path verb operation paths =
     (let entry = (case dget paths path of Some (VDict d) \<Rightarrow> d | _ \<Rightarrow> [])
      in dset path (VDict (dset verb operation entry)) paths)"

definition add_endpoint :: "(pyval \<Rightarrow> string) \<Rightarrow> openapi \<Rightarrow> endpoint_doc \<Rightarrow> exn + openapi" where
  "add_endpoint str_of doc endpoint =
     (let verb = lower (ed_method endpoint)
      in if \<not> truthy (ed_path endpoint) \<or> verb = [] then Inr doc
         else (case path_key str_of (ed_path endpoint) of
           Inl e \<Rightarrow> Inl e
         | Inr path \<Rightarrow> (case openapi_operation str_of endpoint path verb (oa_defs doc) of (operation, all_defs) \<Rightarrow>
             Inr \<lparr>oa_paths = add_operation path verb operation (oa_paths doc),
                  oa_tags = oa_tags doc @ ha_tags endpoint,
                  oa_defs = all_defs\<rparr>)))"

fun add_endpoints :: "(pyval \<Rightarrow> string) \<Rightarrow> openapi \<Rightarrow> endpoint_doc list \<Rightarrow> exn + openapi" where
  "add_endpoints str_of doc [] = Inr doc"
| "add_endpoints str_of doc (endpoint # rest) =
     (case add_endpoint str_of doc endpoint of Inl e \<Rightarrow> Inl e | Inr doc1 \<Rightarrow> add_endpoints str_of doc1 rest)"

definition openapi_document :: "string \<Rightarrow> string \<Rightarrow> string \<Rightarrow> openapi \<Rightarrow> pydict" where
  "openapi_document title version description doc =
     [(''openapi'', VStr ''3.0.0''),
      (''info'', VDict [(''title'', VStr title), (''description'', VStr description), (''version'', VStr version)]),
      (''paths'', VDict (oa_paths doc)),
      (''tags'', VList (List.map (\<lambda>t. VDict [(''name'', VStr t)]) (sort (remdups (oa_tags doc)))))]
     @ (if oa_defs doc \<noteq> [] then [(''components'', VDict [(''schemas'', VDict (oa_defs doc))])] else [])"

definition build_openapi_from_endpoints ::
  "(pyval \<Rightarrow> string) \<Rightarrow> endpoint_doc list \<Rightarrow> string \<Rightarrow> string \<Rightarrow> string \<Rightarrow> exn + pydict" where
  "build_openapi_from_endpoints str_of endpoints title version description =
     map_sum id (openapi_document title version description)
       (add_endpoints str_of \<lparr>oa_paths = [], oa_tags = [], oa_defs = []\<rparr> endpoints)"

section \<open>References\<close>

text \<open>
  The references of a value: the texts under \<open>$ref\<close> at any depth. \<open>body_refs\<close> leaves out what is under
  \<open>$defs\<close>.
\<close>

fun ref_text :: "string \<Rightarrow> pyval \<Rightarrow> string list" where
  "ref_text k (VStr s) = (if k = ''$ref'' then [s] else [])"
| "ref_text k v = []"

fun refs :: "pyval \<Rightarrow> string list" where
  "refs (VDict d) = concat (List.map (\<lambda>(k, v). ref_text k v @ refs v) d)"
| "refs (VList xs) = concat (List.map refs xs)"
| "refs v = []"

fun body_refs :: "pyval \<Rightarrow> string list" where
  "body_refs (VDict d) =
     concat (List.map (\<lambda>(k, v). if k = ''$defs'' then [] else ref_text k v @ body_refs v) d)"
| "body_refs (VList xs) = concat (List.map body_refs xs)"
| "body_refs v = []"

lemma ref_text_other: "k \<noteq> ''$ref'' \<Longrightarrow> ref_text k v = []"
  by (cases v) auto

lemma refs_rewrite_value [simp]: "refs (rewrite_value k v) = refs v"
  by (cases v) auto

lemma ref_text_collect:
  "ref_text k (rewrite_value k (fst (collect_defs v D))) = List.map rewrite_ref (ref_text k v)"
  by (cases v) (auto simp: split_def)

lemma collect_refs: "set (refs (fst (collect_defs v D))) = rewrite_ref ` set (body_refs v)"
proof (induction v arbitrary: D)
  case (VDict d)
  have "set (refs (VDict (fst (collect_entries d D)))) = rewrite_ref ` set (body_refs (VDict d))" for D
    using VDict
  proof (induction d arbitrary: D)
    case (Cons p d)
    obtain k v where p: "p = (k, v)" by fastforce
    have rest: "set (refs (VDict (fst (collect_entries d D)))) = rewrite_ref ` set (body_refs (VDict d))" for D
      by (rule Cons.IH, rule Cons.prems) simp_all
    have val: "set (refs (fst (collect_defs v D))) = rewrite_ref ` set (body_refs v)"
      using Cons.prems[of p v] p by simp
    show ?case
      using rest[of D] rest[of "snd (collect_defs v D)"] val
      by (simp add: p split_def ref_text_collect image_Un del: ref_text.simps rewrite_value.simps)
  qed simp
  then show ?case by (simp add: split_def)
next
  case (VList xs)
  have "set (refs (VList (fst (collect_items xs D)))) = rewrite_ref ` set (body_refs (VList xs))" for D
    using VList
  proof (induction xs arbitrary: D)
    case (Cons v xs)
    have "set (refs (VList (fst (collect_items xs D)))) = rewrite_ref ` set (body_refs (VList xs))" for D
      by (rule Cons.IH, rule Cons.prems) simp_all
    from this[of "snd (collect_defs v D)"] Cons.prems[of v D] show ?case
      by (simp add: split_def image_Un)
  qed simp
  then show ?case by (simp add: split_def)
qed simp_all

text \<open>Definitions are only added, and those at the root of a schema are.\<close>

definition names :: "pydict \<Rightarrow> string set" where
  "names d = fst ` set d"

lemma names_simps [simp]: "names [] = {}" "names (p # d) = insert (fst p) (names d)"
  by (simp_all add: names_def)

lemma names_dset: "names (dset k v d) = insert k (names d)"
  unfolding names_def by (induction d) auto

lemma names_dunion: "names (dunion d e) = names d \<union> names e"
  by (induction d e rule: dunion.induct) (auto simp: names_dset)

lemma collect_grows: "names D \<subseteq> names (snd (collect_defs v D))"
proof (induction v arbitrary: D)
  case (VDict d)
  have "names D \<subseteq> names (snd (collect_entries d D))" for D
    using VDict
  proof (induction d arbitrary: D)
    case (Cons p d)
    obtain k v where p: "p = (k, v)" by fastforce
    have rest: "names D \<subseteq> names (snd (collect_entries d D))" for D
      by (rule Cons.IH, rule Cons.prems) simp_all
    have "names D \<subseteq> names (snd (collect_defs v D))" using Cons.prems[of p v] p by simp
    with rest[of D] rest[of "snd (collect_defs v D)"] show ?case by (auto simp: p split_def)
  qed simp
  from this[of "dunion D (local_defs d)"] show ?case by (auto simp: split_def names_dunion)
next
  case (VList xs)
  have "names D \<subseteq> names (snd (collect_items xs D))" for D
    using VList
  proof (induction xs arbitrary: D)
    case (Cons v xs)
    have "names D \<subseteq> names (snd (collect_items xs D))" for D
      by (rule Cons.IH, rule Cons.prems) simp_all
    from this[of "snd (collect_defs v D)"] Cons.prems[of v D] show ?case by (auto simp: split_def)
  qed simp
  then show ?case by (simp add: split_def)
qed simp_all

lemma collect_root: "names (case v of VDict d \<Rightarrow> local_defs d | _ \<Rightarrow> []) \<subseteq> names (snd (collect_defs v D))"
proof (cases v)
  case (VDict d)
  have grows: "names D \<subseteq> names (snd (collect_entries e D))" for e D
  proof (induction e arbitrary: D)
    case (Cons p e)
    obtain k w where p: "p = (k, w)" by fastforce
    show ?case
      using Cons[of D] Cons[of "snd (collect_defs w D)"] collect_grows[of D w] by (auto simp: p split_def)
  qed simp
  from grows[of "dunion D (local_defs d)" d] VDict show ?thesis by (auto simp: split_def names_dunion)
qed auto

section \<open>Every reference of the document resolves\<close>

text \<open>
  A self-contained schema, as pydantic gives it: each of its references points to a definition at its
  root. An endpoint is plain when its texts and documented responses hold no references of their own.
\<close>

definition root_defs :: "pyval \<Rightarrow> pydict" where
  "root_defs schema = (case schema of VDict d \<Rightarrow> local_defs d | _ \<Rightarrow> [])"

definition self_contained :: "pyval \<Rightarrow> bool" where
  "self_contained schema \<longleftrightarrow>
     (\<forall>r \<in> set (body_refs schema). \<exists>n \<in> names (root_defs schema). r = LOCAL_REF @ n \<and> drop_local n = n)"

definition plain_endpoint :: "endpoint_doc \<Rightarrow> bool" where
  "plain_endpoint e \<longleftrightarrow> refs (ha_summary e) = [] \<and> refs (ha_description e) = [] \<and>
     (\<forall>(sc, resp) \<in> set (ha_responses e). refs resp = [])"

definition points_into :: "pydict \<Rightarrow> pyval \<Rightarrow> bool" where
  "points_into defs v \<longleftrightarrow> (\<forall>r \<in> set (refs v). \<exists>n \<in> names defs. r = COMPONENT_REF @ n)"

lemma drop_local_prefix: "drop_local (LOCAL_REF @ n) = drop_local n"
  by (simp add: LOCAL_REF_def starts_with_def)

lemma collect_points_into:
  assumes "self_contained v"
  shows "points_into (snd (collect_defs v D)) (fst (collect_defs v D))"
  unfolding points_into_def
proof
  fix r
  assume "r \<in> set (refs (fst (collect_defs v D)))"
  then obtain q where q: "q \<in> set (body_refs v)" "r = rewrite_ref q" by (auto simp: collect_refs)
  with assms obtain n where n: "n \<in> names (root_defs v)" "q = LOCAL_REF @ n" "drop_local n = n"
    by (auto simp: self_contained_def)
  then have "r = COMPONENT_REF @ n"
    using q(2) drop_local_prefix[of n] by (simp add: rewrite_ref_def starts_with_def)
  with n(1) collect_root[of v D] show "\<exists>n \<in> names (snd (collect_defs v D)). r = COMPONENT_REF @ n"
    by (auto simp: root_defs_def)
qed

lemma points_into_mono: "points_into D v \<Longrightarrow> names D \<subseteq> names E \<Longrightarrow> points_into E v"
  unfolding points_into_def by blast

lemma points_into_dict: "points_into D (VDict d) \<longleftrightarrow>
    (\<forall>(k, v) \<in> set d. points_into D v \<and> (\<forall>r \<in> set (ref_text k v). \<exists>n \<in> names D. r = COMPONENT_REF @ n))"
  by (fastforce simp: points_into_def)

lemma points_into_simps [simp]:
  "points_into D (VStr s)" "points_into D (VBool b)" "points_into D VNone"
  "points_into D (VList xs) \<longleftrightarrow> (\<forall>x \<in> set xs. points_into D x)"
  by (auto simp: points_into_def)

lemma points_dict_simps [simp]:
  "points_into D (VDict [])"
  "points_into D (VDict ((k, v) # d)) \<longleftrightarrow> points_into D v \<and>
     (\<forall>r \<in> set (ref_text k v). \<exists>n \<in> names D. r = COMPONENT_REF @ n) \<and> points_into D (VDict d)"
  "points_into D (VDict (d @ e)) \<longleftrightarrow> points_into D (VDict d) \<and> points_into D (VDict e)"
  by (auto simp: points_into_def split_def)

lemma no_refs_points: "refs v = [] \<Longrightarrow> points_into D v"
  by (simp add: points_into_def)

lemma set_dset: "set (dset k v d) \<subseteq> insert (k, v) (set d)"
  by (induction d) auto

lemma ref_text_dict [simp]: "ref_text k (VDict d) = []" "ref_text k (VList xs) = []" "ref_text k (VBool b) = []"
  by simp_all

lemma points_dset:
  assumes "points_into D (VDict d)" "points_into D v" "ref_text k v = []"
  shows "points_into D (VDict (dset k v d))"
  using assms set_dset[of k v d] unfolding points_into_dict by fastforce

lemma points_lookup:
  "points_into D (VDict d) \<Longrightarrow> dget d k = Some v \<Longrightarrow> points_into D v"
  unfolding points_into_dict by (fastforce dest: map_of_SomeD)

lemma points_described: "points_into D (described text)"
  by (simp add: described_def)

lemma points_content: "points_into D v \<Longrightarrow> points_into D (json_content v) \<longleftrightarrow>
    (\<forall>r \<in> set (ref_text ''schema'' v). \<exists>n \<in> names D. r = COMPONENT_REF @ n)"
  by (simp add: json_content_def)

lemma points_json_content: "points_into D v \<Longrightarrow> points_into D (json_content v)"
  by (simp add: points_content ref_text_other)

lemma points_add_response:
  assumes "points_into D (VDict d)" "refs resp = []"
  shows "points_into D (VDict (add_response str_of d (sc, resp)))"
  using assms points_dset[OF assms(1)] no_refs_points[OF assms(2), of D] points_described
  by (cases resp) (auto simp: add_response_def described_def)

lemma points_add_responses:
  assumes "points_into D (VDict d)" "\<forall>(sc, resp) \<in> set rs. refs resp = []"
  shows "points_into D (VDict (foldl (add_response str_of) d rs))"
  using assms
proof (induction rs arbitrary: d)
  case (Cons r rs)
  obtain sc resp where "r = (sc, resp)" by fastforce
  with Cons points_add_response[of D d resp str_of sc] show ?case by simp
qed simp

lemma points_set_content:
  assumes "points_into D (VDict d)" "points_into D schema"
  shows "points_into D (VDict (set_content status schema d))"
proof -
  define entry where "entry = (case dget d status of Some (VDict e) \<Rightarrow> e
                   | _ \<Rightarrow> [(''description'', VStr ''Successful response'')])"
  have "points_into D (VDict entry)"
    using points_lookup[OF assms(1)]
    by (auto simp: entry_def split: option.splits pyval.splits)
  from points_dset[OF this points_json_content[OF assms(2)], of "''content''"]
  have "points_into D (VDict (dset ''content'' (json_content schema) entry))"
    by (simp add: json_content_def)
  from points_dset[OF assms(1) this, of status] show ?thesis
    by (simp add: set_content_def entry_def Let_def)
qed

lemma request_part_points:
  assumes "request_part e verb D = (part, E)" "self_contained (hd_request_schema e)"
  shows "points_into E (VDict part) \<and> names D \<subseteq> names E"
proof (cases "truthy (hd_request_schema e) \<and> verb \<in> {''post'', ''put'', ''patch''}")
  case True
  obtain schema F where c: "collect_defs (hd_request_schema e) D = (schema, F)" by fastforce
  with collect_points_into[OF assms(2), of D] collect_grows[of D "hd_request_schema e"]
  have "points_into F schema" "names D \<subseteq> names F" by simp_all
  with True c assms(1) points_json_content[of F schema] show ?thesis
    by (auto simp: request_part_def json_content_def)
qed (use assms(1) in \<open>auto simp: request_part_def\<close>)

lemma response_part_points:
  assumes "response_part e responses D = (part, E)" "self_contained (hd_response_schema e)"
    "points_into D (VDict responses)"
  shows "points_into E (VDict part) \<and> names D \<subseteq> names E"
proof (cases "truthy (hd_response_schema e)")
  case True
  obtain schema F where c: "collect_defs (hd_response_schema e) D = (schema, F)" by fastforce
  with collect_points_into[OF assms(2), of D] collect_grows[of D "hd_response_schema e"]
  have "points_into F schema" "names D \<subseteq> names F" by simp_all
  with True c assms(1) points_set_content[OF points_into_mono[OF assms(3)]] show ?thesis
    by (auto simp: response_part_def)
qed (use assms in \<open>simp add: response_part_def\<close>)

lemma operation_points:
  assumes "openapi_operation str_of e path verb D = (operation, E)"
    and "self_contained (hd_request_schema e)" "self_contained (hd_response_schema e)" "plain_endpoint e"
  shows "points_into E operation \<and> names D \<subseteq> names E \<and> (\<exists>d. operation = VDict d)"
proof -
  obtain request D1 where r: "request_part e verb D = (request, D1)" by fastforce
  obtain responses D2 where p: "response_part e (success_response e) D1 = (responses, D2)" by fastforce
  have "points_into D1 (VDict (success_response e))"
    by (simp add: success_response_def Let_def described_def)
  from response_part_points[OF p assms(3) this] request_part_points[OF r assms(2)]
  have ok: "points_into D2 (VDict responses)" "points_into D2 (VDict request)" "names D \<subseteq> names D2"
    using points_into_mono by blast+
  have E: "E = D2" and op: "operation = VDict ([(''summary'', if truthy (ha_summary e) then ha_summary e
                   else VStr (upper verb @ '' '' @ path)),
                (''description'', ha_description e),
                (''tags'', VList (List.map VStr (ha_tags e))),
                (''responses'', VDict (foldl (add_response str_of) responses (ha_responses e)))] @ request)"
    using assms(1) r p by (simp_all add: openapi_operation_def)
  have "points_into D2 (VDict (foldl (add_response str_of) responses (ha_responses e)))"
    using points_add_responses[OF ok(1)] assms(4) by (simp add: plain_endpoint_def)
  with ok(2,3) assms(4) show ?thesis
    by (simp add: E op plain_endpoint_def no_refs_points ref_text_other)
qed

definition openapi_ok :: "openapi \<Rightarrow> bool" where
  "openapi_ok doc \<longleftrightarrow> points_into (oa_defs doc) (VDict (oa_paths doc))"

definition documentable :: "endpoint_doc \<Rightarrow> bool" where
  "documentable e \<longleftrightarrow> self_contained (hd_request_schema e) \<and> self_contained (hd_response_schema e) \<and>
     plain_endpoint e"

lemma add_endpoint_ok:
  assumes "openapi_ok doc" "add_endpoint str_of doc e = Inr doc1" "documentable e"
  shows "openapi_ok doc1"
proof (cases "\<not> truthy (ed_path e) \<or> lower (ed_method e) = []")
  case False
  define verb where "verb = lower (ed_method e)"
  obtain path where path: "path_key str_of (ed_path e) = Inr path"
    using assms(2) False by (auto simp: add_endpoint_def Let_def split: sum.splits)
  obtain operation D where op: "openapi_operation str_of e path verb (oa_defs doc) = (operation, D)" by fastforce
  have ok: "points_into D operation" "names (oa_defs doc) \<subseteq> names D" "\<And>k. ref_text k operation = []"
    using operation_points[OF op] assms(3) by (auto simp: documentable_def)
  from assms(1) ok(2) have paths: "points_into D (VDict (oa_paths doc))"
    unfolding openapi_ok_def by (rule points_into_mono)
  define entry where "entry = (case dget (oa_paths doc) path of Some (VDict d) \<Rightarrow> d | _ \<Rightarrow> [])"
  have "points_into D (VDict entry)"
    using points_lookup[OF paths, of path] by (auto simp: entry_def split: option.splits pyval.splits)
  then have "points_into D (VDict (dset verb operation entry))" using ok(1,3) by (rule points_dset)
  with paths have "points_into D (VDict (add_operation path verb operation (oa_paths doc)))"
    unfolding add_operation_def Let_def entry_def[symmetric] by (rule points_dset) simp
  moreover have "doc1 = \<lparr>oa_paths = add_operation path verb operation (oa_paths doc),
      oa_tags = oa_tags doc @ ha_tags e, oa_defs = D\<rparr>"
    using assms(2) False path op by (simp add: add_endpoint_def verb_def)
  ultimately show ?thesis by (simp add: openapi_ok_def)
qed (use assms in \<open>auto simp: add_endpoint_def\<close>)

lemma add_endpoints_ok:
  assumes "openapi_ok doc" "add_endpoints str_of doc es = Inr doc1" "\<forall>e \<in> set es. documentable e"
  shows "openapi_ok doc1"
  using assms by (induction es arbitrary: doc) (auto split: sum.splits intro: add_endpoint_ok)

definition paths_of :: "pydict \<Rightarrow> pyval" where
  "paths_of doc = dget_default doc ''paths'' VNone"

definition schemas_of :: "pydict \<Rightarrow> pydict" where
  "schemas_of doc = (case dget doc ''components'' of
     Some (VDict c) \<Rightarrow> (case dget c ''schemas'' of Some (VDict d) \<Rightarrow> d | _ \<Rightarrow> []) | _ \<Rightarrow> [])"

lemma document_parts:
  "paths_of (openapi_document title version description doc) = VDict (oa_paths doc)"
  "schemas_of (openapi_document title version description doc) = oa_defs doc"
  by (simp_all add: paths_of_def schemas_of_def openapi_document_def dget_default_def)


definition item_schema :: pyval where
  "item_schema = VDict [(''$defs'', VDict [(''Tag'', VDict [(''type'', VStr ''string'')])]),
     (''properties'', VDict [(''tag'', VDict [(''$ref'', VStr ''#/$defs/Tag'')])])]"

definition demo_endpoint :: endpoint_doc where
  "demo_endpoint = \<lparr>ha_version = VStr ''v1'', ha_summary = VNone, ha_description = VNone, ha_tags = [],
     ha_request_model = ModelValue VNone, ha_response_model = ModelValue VNone, ha_status_code = 200,
     ha_responses = [(VInt 404, VStr ''no such item'')], ha_errors = [], ha_skip_documentation = False,
     ha_validate_request = False, hd_request_schema = item_schema, hd_response_schema = VNone,
     ed_path = VStr ''/items'', ed_method = ''POST'', ed_handler_name = ''add_item''\<rparr>"

lemma demo_endpoint_documentable: "documentable demo_endpoint"
  by (simp add: documentable_def demo_endpoint_def item_schema_def self_contained_def plain_endpoint_def
      root_defs_def local_defs_def names_def LOCAL_REF_def starts_with_def)

lemma demo_document:
  "case build_openapi_from_endpoints (\<lambda>_. []) [demo_endpoint] ''items'' ''v1'' [] of
     Inl e \<Rightarrow> False
   | Inr doc \<Rightarrow> ''#/components/schemas/Tag'' \<in> set (refs (paths_of doc))"
  by code_simp


text \<open>
  The collected definitions themselves are not rewritten: a definition that refers to another one, as
  pydantic generates for nested models, keeps a reference into the \<open>$defs\<close> that were removed.
\<close>

definition nested_schema :: pyval where
  "nested_schema = VDict [(''$defs'', VDict [
       (''Tag'', VDict [(''type'', VStr ''string'')]),
       (''Item'', VDict [(''properties'', VDict [(''tag'', VDict [(''$ref'', VStr ''#/$defs/Tag'')])])])]),
     (''$ref'', VStr ''#/$defs/Item'')]"

lemma nested_definitions_dangle:
  "self_contained nested_schema"
  "''#/$defs/Tag'' \<in> set (refs (VDict (snd (collect_defs nested_schema []))))"
  by (simp_all add: nested_schema_def self_contained_def root_defs_def local_defs_def names_def
      LOCAL_REF_def starts_with_def)

section \<open>Serving the documentation\<close>

text \<open>
  \<open>str.format\<close> with named fields; \<open>field\<close> gives the text of a field, the first argument of the
  recursion the field being read.
\<close>

fun format_text :: "(string \<Rightarrow> exn + string) \<Rightarrow> string option \<Rightarrow> string \<Rightarrow> exn + string" where
  "format_text field None [] = Inr []"
| "format_text field (Some w) [] = Inl (ValueError ''expected } before end of string'')"
| "format_text field None (c # cs) =
     (if c = CHR ''{'' then
        (case cs of
           d # ds \<Rightarrow> if d = CHR ''{'' then map_sum id ((#) c) (format_text field None ds)
                   else format_text field (Some []) cs
         | [] \<Rightarrow> Inl (ValueError ''Single { encountered in format string''))
      else if c = CHR ''}'' then
        (case cs of
           d # ds \<Rightarrow> if d = CHR ''}'' then map_sum id ((#) c) (format_text field None ds)
                   else Inl (ValueError ''Single } encountered in format string'')
         | [] \<Rightarrow> Inl (ValueError ''Single } encountered in format string''))
      else map_sum id ((#) c) (format_text field None cs))"
| "format_text field (Some w) (c # cs) =
     (if c = CHR ''}'' then
        (case field (rev w) of Inl e \<Rightarrow> Inl e | Inr t \<Rightarrow> map_sum id ((@) t) (format_text field None cs))
      else format_text field (Some (c # w)) cs)"

text \<open>
  The path of the documentation of a version. \<open>other_field\<close> is what \<open>str.format\<close> makes of a field
  that is not plainly \<open>version\<close> (an unknown name raises).
\<close>

definition docs_path ::
  "(pyval \<Rightarrow> string) \<Rightarrow> (string \<Rightarrow> exn + string) \<Rightarrow> pyval \<Rightarrow> pyval \<Rightarrow> exn + string" where
  "docs_path str_of other_field path_template version =
     (case path_template of
        VStr template \<Rightarrow> format_text (\<lambda>name. if name = ''version'' then Inr (str str_of version)
                                     else other_field name) None template
      | _ \<Rightarrow> Inl (AttributeError ''format''))"

definition ends_with :: "string \<Rightarrow> string \<Rightarrow> bool" where
  "ends_with ending s \<longleftrightarrow> starts_with (rev ending) (rev s)"

definition openapi_path :: "string \<Rightarrow> string" where
  "openapi_path path =
     (if ends_with ''/docs'' path then take (length path - 5) path @ ''/openapi.json''
      else path @ ''.json'')"

definition register_docs_endpoint ::
  "(pyval \<Rightarrow> string) \<Rightarrow> (string \<Rightarrow> exn + string) \<Rightarrow> pyval \<Rightarrow> pyval \<Rightarrow> (web_server, unit) py" where
  "register_docs_endpoint str_of other_field path_template version =
     py_bind (py_lift (docs_path str_of other_field path_template version)) (\<lambda>path.
     py_bind (py_read (\<lambda>s. get_kontiki_parameter (ws_config s) ''http.documentation.title''
        (VStr (ws_service_name s)))) (\<lambda>doc_title.
     py_then (py_lift doc_title)
     (py_bind (py_read (\<lambda>s. get_kontiki_parameter (ws_config s) ''http.documentation.description''
        (VStr (''API documentation for '' @ ws_service_name s)))) (\<lambda>doc_desc.
     py_then (py_lift doc_desc)
     (py_then
       (py_except (py_then (add_route ''GET'' (VStr path) ''docs_handler'')
          (add_route ''GET'' (VStr (openapi_path path)) ''openapi_handler'')) (\<lambda>_. py_return ()))
       (py_except (add_route ''GET'' (VStr (path @ ''/swagger'')) ''swagger_handler'') (\<lambda>_. py_return ())))))))"

definition register_auto_docs_endpoints ::
  "(pyval \<Rightarrow> string) \<Rightarrow> (string \<Rightarrow> exn + string) \<Rightarrow> (web_server, unit) py" where
  "register_auto_docs_endpoints str_of other_field =
     py_bind (py_read ws_config) (\<lambda>config.
     py_bind (py_lift (get_kontiki_parameter config ''http.documentation.enabled'' (VBool True))) (\<lambda>enable.
     if \<not> truthy enable then py_return ()
     else py_bind (py_lift (get_kontiki_parameter config ''http.documentation.path_template''
             (VStr ''/api/{version}/docs''))) (\<lambda>path_template.
       py_bind (py_read ws_endpoints) (\<lambda>entrypoints.
         py_each (register_docs_endpoint str_of other_field path_template)
           (detect_api_versions entrypoints)))))"

definition http_setup :: "(pyval \<Rightarrow> string) \<Rightarrow> (string \<Rightarrow> exn + string) \<Rightarrow> (web_server, unit) py" where
  "http_setup str_of other_field =
     py_then (py_when (\<lambda>s. \<not> ws_docs_registered s)
       (py_except (py_then (register_auto_docs_endpoints str_of other_field)
          (py_modify (\<lambda>s. s\<lparr>ws_docs_registered := True\<rparr>))) (\<lambda>_. py_return ())))
     (py_then (py_modify (\<lambda>s. s\<lparr>ws_runner := True\<rparr>)) (web_call RunnerSetup))"

text \<open>The handlers: the document is built for the first request and kept.\<close>

definition openapi_handler ::
  "(pyval \<Rightarrow> string) \<Rightarrow> (string \<times> pyval) list \<Rightarrow> pyval \<Rightarrow> pyval \<Rightarrow> pyval \<Rightarrow> (web_server, response) py" where
  "openapi_handler str_of error_handlers doc_title doc_desc version =
     py_bind (py_read (\<lambda>s. vget (ws_openapi_cache s) version)) (\<lambda>cached.
       case cached of
         Some document \<Rightarrow> py_lift (json_response document 200)
       | None \<Rightarrow>
           py_bind (py_read (\<lambda>s. get_http_documentation (ws_config s) error_handlers (ws_endpoints s) version)) (\<lambda>r.
           py_bind (py_lift r) (\<lambda>endpoints.
           py_bind (py_lift (build_openapi_from_endpoints str_of endpoints (str str_of doc_title)
              (str str_of version) (str str_of doc_desc))) (\<lambda>document.
           py_then (py_modify (\<lambda>s. s\<lparr>ws_openapi_cache := vset version (VDict document) (ws_openapi_cache s)\<rparr>))
             (py_lift (json_response (VDict document) 200))))))"

definition docs_handler :: "string \<Rightarrow> exn + response" where
  "docs_handler path = Inl (OtherError ''HTTPFound'' (path @ ''/swagger''))"

lemma py_eq_VStr [simp]: "py_eq (VStr a) (VStr b) \<longleftrightarrow> a = b"
  by (auto simp: scalar_eq_def)

lemma vget_vset: "py_eq k k \<Longrightarrow> vget (vset k v d) k = Some v"
  by (induction d) (auto simp: vget_def)

lemma openapi_built_once:
  assumes "openapi_handler str_of h title desc (VStr v) s = (Inr r, u)"
  shows "openapi_handler str_of h title desc (VStr v) u = (Inr r, u)"
  using assms
  by (auto simp: openapi_handler_def py_simps vget_vset split: option.splits sum.splits)

lemma default_docs_paths:
  "docs_path str_of f (VStr ''/api/{version}/docs'') (VStr v) = Inr (''/api/'' @ v @ ''/docs'')"
  "openapi_path (''/api/'' @ v @ ''/docs'') = ''/api/'' @ v @ ''/openapi.json''"
  by (simp_all add: docs_path_def openapi_path_def ends_with_def starts_with_def)

text \<open>A failure while the routes of the documentation are added does not keep the server from starting.\<close>

lemma docs_failure_is_contained:
  assumes "register_auto_docs_endpoints str_of f s = (Inl e, u)" "is_Exception e" "script u = []"
    "\<not> ws_docs_registered s"
  shows "fst (http_setup str_of f s) = Inr ()" "ws_runner (snd (http_setup str_of f s))"
  using assms by (simp_all add: http_setup_def web_call_def py_simps)

end
