(* ===== verification/Container.thy ===== *)
theory Container
  imports Registry_Service Documentation
begin

text \<open>
  The service container (\<open>container.py\<close>): it owns the HTTP server, the consumer, the registry client with
  its heartbeat, the periodic tasks and the delegates, sets them up, starts them and stops them in order.

  The state holds the states of the components, whose operations are run with the container's script
  and trace (\<open>in_part\<close>). Delegates written by the user, and the messengers, which Messenger models,
  appear by the calls of their \<open>setup\<close>, \<open>start\<close> and \<open>stop\<close>. pydantic's validation of the declared models
  and croniter are parameters.
\<close>

section \<open>State\<close>

datatype delegate_kind = HeartbeatDelegate | MessengerDelegate | OtherDelegate

datatype ct_effect =
    CtWeb web_effect
  | CtConsumer su_effect
  | CtClient rc_effect
  | DelegateSetup string
  | DelegateStart string
  | DelegateStop string
  | StartBackground
  | CancelBackground
  | AwaitWork
  | AwaitTask string
  | CancelLoop string

record container = "ct_effect world" +
  cn_service :: hosted
  cn_http_endpoints :: "(string \<times> http_endpoint \<times> http_documentation) list"
  cn_declared_delegates :: "(string \<times> delegate_kind) list"
  cn_delegates :: "(string \<times> delegate_kind) list"
  cn_settings :: pyval
  cn_disable_registration :: bool
  cn_shutting_down :: bool
  cn_stop_started :: bool
  cn_amqp_required :: pyval
  cn_background :: bool
  cn_http :: "web_server option"
  cn_consumer :: "consumer option"
  cn_client :: "client option"
  cn_tasks :: "periodic list"

text \<open>
  \<open>resolve_service_name\<close>: the configured name, else the \<open>name\<close> of the first class in the method
  resolution order that declares one, else the name of the class.
\<close>

definition container_service_name :: "string \<Rightarrow> string list \<Rightarrow> pyval \<Rightarrow> exn + string" where
  "container_service_name class_name declared_names config =
     (case get_kontiki_parameter config ''service_name'' VNone of
        Inl e \<Rightarrow> Inl e
      | Inr configured \<Rightarrow>
          if configured = VNone then
            Inr (case declared_names of [] \<Rightarrow> class_name | n # _ \<Rightarrow> n)
          else (case configured of
             VStr n \<Rightarrow> if n = [] then Inl (ValueError ''kontiki.service_name must be a non-empty string'')
                       else Inr n
           | _ \<Rightarrow> Inl (ValueError ''kontiki.service_name must be a non-empty string'')))"

text \<open>
  The configuration: the documents of the configuration files when there are files, else the
  dictionary the caller gives, which must not be empty. Nothing checks what the files amount to.
\<close>

definition container_config :: "(exn + pyval) list \<Rightarrow> pyval \<Rightarrow> exn + pyval" where
  "container_config documents config =
     (if documents \<noteq> [] then map_sum id VDict (merge_documents documents)
      else if truthy config then Inr config
      else Inl (RuntimeError ''No service configuration provided.''))"

text \<open>The constructor, for the configuration just read, up to the configuration of logging.\<close>

definition container_init ::
  "hosted \<Rightarrow> (string \<times> http_endpoint \<times> http_documentation) list \<Rightarrow> (string \<times> delegate_kind) list \<Rightarrow> bool \<Rightarrow>
   string \<Rightarrow> string list \<Rightarrow> reply list \<Rightarrow> exn + container" where
  "container_init h endpoints delegates disable_registration class_name declared_names answers =
     (case container_service_name class_name declared_names (hs_config h) of
        Inl e \<Rightarrow> Inl e
      | Inr name \<Rightarrow> (case is_amqp_required (hs_config h) of
          Inl e \<Rightarrow> Inl e
        | Inr required \<Rightarrow> Inr \<lparr>script = answers, trace = [],
            cn_service = h\<lparr>hs_service_name := name, hs_http_server := False\<rparr>,
            cn_http_endpoints = endpoints, cn_declared_delegates = delegates, cn_delegates = [],
            cn_settings = VNone,
            cn_disable_registration = disable_registration, cn_shutting_down = False,
            cn_stop_started = False, cn_amqp_required = required, cn_background = False,
            cn_http = None, cn_consumer = None, cn_client = None, cn_tasks = []\<rparr>))"

definition ct_call :: "ct_effect \<Rightarrow> (container, unit) py" where
  "ct_call e = py_then (io e) (py_return ())"

text \<open>Running an operation of a component that is present; without it there is nothing to do.\<close>

definition in_http :: "(web_server, unit) py \<Rightarrow> (container, unit) py" where
  "in_http m = (\<lambda>s. case cn_http s of
     None \<Rightarrow> (Inr (), s)
   | Some p \<Rightarrow> (case m (p\<lparr>script := script s, trace := []\<rparr>) of
       (r, q) \<Rightarrow> (r, s\<lparr>script := script q, trace := trace s @ map (\<lambda>(e, b). (CtWeb e, b)) (trace q),
                       cn_http := Some (q\<lparr>script := [], trace := []\<rparr>)\<rparr>)))"

definition in_consumer :: "(consumer, unit) py \<Rightarrow> (container, unit) py" where
  "in_consumer m = (\<lambda>s. case cn_consumer s of
     None \<Rightarrow> (Inr (), s)
   | Some p \<Rightarrow> (case m (p\<lparr>script := script s, trace := []\<rparr>) of
       (r, q) \<Rightarrow> (r, s\<lparr>script := script q, trace := trace s @ map (\<lambda>(e, b). (CtConsumer e, b)) (trace q),
                       cn_consumer := Some (q\<lparr>script := [], trace := []\<rparr>)\<rparr>)))"

definition in_client :: "(client, unit) py \<Rightarrow> (container, unit) py" where
  "in_client m = (\<lambda>s. case cn_client s of
     None \<Rightarrow> (Inr (), s)
   | Some p \<Rightarrow> (case m (p\<lparr>script := script s, trace := [], rc_service := cn_service s,
                           rc_shutting_down := cn_shutting_down s\<rparr>) of
       (r, q) \<Rightarrow> (r, s\<lparr>script := script q, trace := trace s @ map (\<lambda>(e, b). (CtClient e, b)) (trace q),
                       cn_client := Some (q\<lparr>script := [], trace := []\<rparr>)\<rparr>)))"

definition amqp_ready :: "container \<Rightarrow> bool" where
  "amqp_ready s \<longleftrightarrow> (case cn_consumer s of None \<Rightarrow> False | Some co \<Rightarrow> co_connection co)"

section \<open>Setting up\<close>

definition configure_amqp :: "(container, unit) py" where
  "configure_amqp =
     py_bind (py_read (\<lambda>s. hs_config (cn_service s))) (\<lambda>config.
     py_then (py_lift (check_amqp_disable config))
     (py_bind (py_lift (is_amqp_disabled config)) (\<lambda>disabled.
        if \<not> truthy disabled then py_return ()
        else py_modify (\<lambda>s. s\<lparr>cn_disable_registration := True, cn_amqp_required := VNone\<rparr>))))"

text \<open>Only the keys declared on the model are validated.\<close>

definition settings_data :: "string list \<Rightarrow> pyval \<Rightarrow> pydict" where
  "settings_data model_fields config =
     (case config of
        VDict d \<Rightarrow> concat (map (\<lambda>n. case dget d n of None \<Rightarrow> [] | Some v \<Rightarrow> [(n, v)]) model_fields)
      | _ \<Rightarrow> [])"

definition load_settings :: "(string list \<times> (pydict \<Rightarrow> exn + pyval)) option \<Rightarrow> (container, unit) py" where
  "load_settings model =
     (case model of
        None \<Rightarrow> py_return ()
      | Some (model_fields, validate) \<Rightarrow>
          py_bind (py_read (\<lambda>s. validate (settings_data model_fields (hs_config (cn_service s))))) (\<lambda>r.
          py_bind (py_lift r) (\<lambda>settings. py_modify (\<lambda>s. s\<lparr>cn_settings := settings\<rparr>))))"

definition configure_registration :: "(container, unit) py" where
  "configure_registration =
     py_bind (py_read (\<lambda>s. get_kontiki_parameter (hs_config (cn_service s)) ''registration.disable''
        (VBool (cn_disable_registration s)))) (\<lambda>r.
     py_bind (py_lift r) (\<lambda>disable.
       py_modify (\<lambda>s. let off = truthy disable \<or> cn_disable_registration s
          in s\<lparr>cn_disable_registration := off,
               cn_client := (if off then cn_client s else Some (client_init (cn_service s) []))\<rparr>)))"

text \<open>The server is the container's only once its constructor, which adds the routes, has returned.\<close>

definition setup_http_endpoints :: "(pyval \<Rightarrow> string) \<Rightarrow> (string \<Rightarrow> exn + string) \<Rightarrow> (container, unit) py" where
  "setup_http_endpoints str_of other_field =
     py_if (\<lambda>s. cn_http_endpoints s = []) (py_return ())
       (py_bind (py_read (\<lambda>s. get_kontiki_parameter (hs_config (cn_service s)) ''http.disable'' (VBool False))) (\<lambda>r.
        py_bind (py_lift r) (\<lambda>disabled.
          if truthy disabled then py_return ()
          else py_then (py_modify (\<lambda>s. s\<lparr>cn_http := Some (http_server_init (hs_config (cn_service s))
                     (hs_service_name (cn_service s)) (cn_http_endpoints s) [])\<rparr>))
            (py_then (py_try (in_http add_entrypoints)
                 (\<lambda>e. Some (py_then (py_modify (\<lambda>s. s\<lparr>cn_http := None\<rparr>)) (py_raise e))))
            (py_then (py_modify (\<lambda>s. s\<lparr>cn_service := (cn_service s)\<lparr>hs_http_server := True\<rparr>\<rparr>))
               (in_http (http_setup str_of other_field)))))))"

definition setup_delegate :: "bool \<Rightarrow> string \<times> delegate_kind \<Rightarrow> (container, unit) py" where
  "setup_delegate has_condition = (\<lambda>(name, kind).
     case kind of
       MessengerDelegate \<Rightarrow> py_return ()
     | HeartbeatDelegate \<Rightarrow> in_client (heartbeat_setup has_condition)
     | OtherDelegate \<Rightarrow> ct_call (DelegateSetup name))"

text \<open>All delegates are bound before the first is set up.\<close>

definition setup_delegates :: "bool \<Rightarrow> (container, unit) py" where
  "setup_delegates has_condition =
     py_then (py_modify (\<lambda>s. s\<lparr>cn_delegates := cn_declared_delegates s\<rparr>))
       (py_bind (py_read cn_delegates) (py_each (setup_delegate has_condition)))"

definition setup_amqp_endpoints :: "(container, unit) py" where
  "setup_amqp_endpoints =
     py_bind (py_read cn_service) (\<lambda>h.
       if hs_events h = [] \<and> hs_rpcs h = [] then py_return ()
       else in_consumer (py_then consumer_setup
              (py_then (add_on_event_tasks (map snd (hs_events h))) (add_rpc_tasks (map snd (hs_rpcs h))))))"

definition setup_messengers :: "(container, unit) py" where
  "setup_messengers =
     py_bind (py_read cn_delegates) (py_each (\<lambda>(name, kind).
       if kind = MessengerDelegate then ct_call (DelegateSetup name) else py_return ()))"

definition setup_amqp :: "(string \<Rightarrow> bool) \<Rightarrow> string \<Rightarrow> (container, unit) py" where
  "setup_amqp is_valid version =
     py_then (py_modify (\<lambda>s. s\<lparr>cn_consumer := Some (consumer_init (hs_config (cn_service s))
        (hs_service_name (cn_service s)) (hs_instance_id (cn_service s)) [])\<rparr>))
     (py_then (in_client client_setup)
     (py_then setup_amqp_endpoints
     (py_then (in_client (register_service is_valid version))
     (py_then (py_when amqp_ready (in_consumer consumer_start))
        setup_messengers))))"

definition container_setup ::
  "(pyval \<Rightarrow> exn + unit) \<Rightarrow> (string list \<times> (pydict \<Rightarrow> exn + pyval)) option \<Rightarrow> (pyval \<Rightarrow> string) \<Rightarrow>
   (string \<Rightarrow> exn + string) \<Rightarrow> bool \<Rightarrow> (string \<Rightarrow> bool) \<Rightarrow> string \<Rightarrow> (container, unit) py" where
  "container_setup validate_kontiki model str_of other_field has_condition is_valid version =
     py_bind (py_read (\<lambda>s. case hs_config (cn_service s) of
         VDict d \<Rightarrow> validate_kontiki (dget_default d ''kontiki'' (VDict []))
       | _ \<Rightarrow> Inl (AttributeError ''get''))) (\<lambda>r.
     py_then (py_lift r)
     (py_then (load_settings model)
     (py_then configure_amqp
     (py_then configure_registration
     (py_then (setup_http_endpoints str_of other_field)
     (py_then (setup_delegates has_condition)
        (py_when (\<lambda>s. truthy (cn_amqp_required s)) (setup_amqp is_valid version))))))))"

section \<open>Starting\<close>

definition new_task :: "pyval \<Rightarrow> bool \<Rightarrow> string \<Rightarrow> task_schedule \<Rightarrow> bool \<Rightarrow> periodic" where
  "new_task config has_client name schedule immediate =
     \<lparr>script = [], trace = [], scope = scope_init, cns_config = config, cns_registry_client = has_client,
      cns_shutting_down = False, cns_handler_tasks = [], cns_rpc_pending = [], pt_name = name,
      pt_schedule = schedule, pt_immediate = immediate, pt_running = False, pt_point = NotStarted\<rparr>"

text \<open>The schedule a task runs by: the resolved cron expression or interval.\<close>

definition resolved_schedule :: "(string \<Rightarrow> bool) \<Rightarrow> pyval \<Rightarrow> task_mark \<Rightarrow> exn + task_schedule" where
  "resolved_schedule is_valid config m =
     map_sum id (\<lambda>v. case tm_schedule m of
         Cron c use_config \<Rightarrow> (case v of VStr e \<Rightarrow> Cron e False | _ \<Rightarrow> Cron c use_config)
       | Interval i \<Rightarrow> Interval v)
       (resolve_schedule is_valid config m)"

definition start_task :: "(string \<Rightarrow> bool) \<Rightarrow> string \<times> task_mark \<Rightarrow> (container, unit) py" where
  "start_task is_valid = (\<lambda>(name, m).
     py_bind (py_read (\<lambda>s. resolved_schedule is_valid (hs_config (cn_service s)) m)) (\<lambda>r.
     py_bind (py_lift r) (\<lambda>schedule.
       py_modify (\<lambda>s. s\<lparr>cn_tasks := cn_tasks s @
         [snd (task_start (new_task (hs_config (cn_service s)) (cn_client s \<noteq> None) name schedule
            (truthy (tm_immediate m))))]\<rparr>))))"

definition start_service_tasks :: "(string \<Rightarrow> bool) \<Rightarrow> (container, unit) py" where
  "start_service_tasks is_valid =
     py_bind (py_read (\<lambda>s. hs_tasks (cn_service s))) (py_each (start_task is_valid))"

definition start_delegate :: "string \<times> delegate_kind \<Rightarrow> (container, unit) py" where
  "start_delegate = (\<lambda>(name, kind).
     case kind of
       MessengerDelegate \<Rightarrow> py_return ()
     | HeartbeatDelegate \<Rightarrow> in_client heartbeat_start
     | OtherDelegate \<Rightarrow> ct_call (DelegateStart name))"

text \<open>With AMQP optional the connection is made by a task of its own.\<close>

definition container_start :: "(string \<Rightarrow> bool) \<Rightarrow> (container, unit) py" where
  "container_start is_valid =
     py_then (in_http http_start)
     (py_then (start_service_tasks is_valid)
     (py_then (py_bind (py_read cn_delegates) (py_each start_delegate))
        (py_when (\<lambda>s. cn_amqp_required s = VBool False)
           (py_then (record_effect StartBackground) (py_modify (\<lambda>s. s\<lparr>cn_background := True\<rparr>))))))"

text \<open>What the background task does when it runs to its end: afterwards it is done.\<close>

definition background_setup :: "(string \<Rightarrow> bool) \<Rightarrow> string \<Rightarrow> container \<Rightarrow> container" where
  "background_setup is_valid version s =
     (snd (setup_amqp is_valid version s))\<lparr>cn_background := False\<rparr>"

section \<open>Stopping\<close>

definition stop_task_loops :: "(container, unit) py" where
  "stop_task_loops = py_modify (\<lambda>s. s\<lparr>cn_tasks := map (\<lambda>p. snd (task_stop_accepting p)) (cn_tasks s)\<rparr>)"

definition accepting_phase :: "(container, unit) py" where
  "accepting_phase =
     py_then (in_http http_stop_accepting)
     (py_then (py_when amqp_ready (in_consumer stop_accepting))
     (py_then stop_task_loops
     (py_then (in_client heartbeat_stop)
     (py_then (in_client client_stop_accepting)
        (in_client (py_when rc_exchange rc_unregister))))))"

text \<open>
  The waits of the drain are begun together; taken one after the other, the first that is cut off by
  the end of the grace period (a cancellation) stands for all. A task is waited for only inside an
  iteration, and its loop ends with it, since it was told to stop.
\<close>

definition update_task :: "nat \<Rightarrow> (periodic \<Rightarrow> periodic) \<Rightarrow> container \<Rightarrow> container" where
  "update_task i f s = s\<lparr>cn_tasks := (cn_tasks s)[i := f (cn_tasks s ! i)]\<rparr>"

definition drain_task :: "nat \<times> periodic \<Rightarrow> (container, unit) py" where
  "drain_task = (\<lambda>(i, p).
     if drain_returns p then py_return ()
     else py_then (ct_call (AwaitTask (pt_name p)))
            (py_modify (update_task i (\<lambda>p. p\<lparr>pt_point := Ended None\<rparr>))))"

definition drain_in_flight :: "(container, unit) py" where
  "drain_in_flight =
     py_then (in_http http_drain)
     (py_then (py_when amqp_ready (ct_call AwaitWork))
        (py_bind (py_read (\<lambda>s. enumerate 0 (cn_tasks s))) (py_each drain_task)))"

definition drain_phase :: "(container, unit) py" where
  "drain_phase =
     py_try (py_try drain_in_flight (\<lambda>e. if e = CancelledError then Some (py_raise TimeoutError) else None))
       (\<lambda>e. if e = TimeoutError then Some (py_return ()) else None)"

text \<open>\<open>force_stop\<close>: the loop is cancelled and awaited, its cancellation swallowed.\<close>

definition loop_over :: "periodic \<Rightarrow> bool" where
  "loop_over p \<longleftrightarrow> (case pt_point p of NotStarted \<Rightarrow> True | Ended e \<Rightarrow> True | _ \<Rightarrow> False)"

definition force_stop_task :: "nat \<times> periodic \<Rightarrow> (container, unit) py" where
  "force_stop_task = (\<lambda>(i, p).
     if loop_over p then py_return ()
     else py_then (py_modify (update_task i (\<lambda>p. snd (cancel_loop p))))
            (py_try (ct_call (CancelLoop (pt_name p)))
               (\<lambda>e. if e = CancelledError then Some (py_return ()) else None)))"

definition stop_delegate :: "string \<times> delegate_kind \<Rightarrow> (container, unit) py" where
  "stop_delegate = (\<lambda>(name, kind).
     if kind = HeartbeatDelegate then py_return () else ct_call (DelegateStop name))"

definition closing_phase :: "(container, unit) py" where
  "closing_phase =
     py_then (py_when amqp_ready (in_consumer force_close))
     (py_then (py_bind (py_read (\<lambda>s. enumerate 0 (cn_tasks s))) (py_each force_stop_task))
     (py_then (py_bind (py_read (\<lambda>s. sort_key fst (cn_delegates s))) (py_each stop_delegate))
     (py_then (in_client client_stop)
        (in_http http_drain))))"

definition cancel_background :: "(container, unit) py" where
  "cancel_background = py_when cn_background
     (py_then (py_try (ct_call CancelBackground)
         (\<lambda>e. if e = CancelledError then Some (py_return ()) else None))
        (py_modify (\<lambda>s. s\<lparr>cn_background := False\<rparr>)))"

definition container_stop :: "(container, unit) py" where
  "container_stop =
     py_if cn_stop_started (py_return ())
       (py_then (py_modify (\<lambda>s. s\<lparr>cn_stop_started := True, cn_shutting_down := True\<rparr>))
       (py_then cancel_background
       (py_bind (py_read (\<lambda>s. get_grace_seconds (hs_config (cn_service s)))) (\<lambda>r.
        py_bind (py_lift r) (\<lambda>grace_seconds.
          py_then accepting_phase (py_then drain_phase closing_phase))))))"

section \<open>The calls of each phase\<close>

fun stops_accepting :: "ct_effect \<Rightarrow> bool" where
  "stops_accepting (CtWeb e) = (e = SiteStop)"
| "stops_accepting (CtConsumer e) = (case e of CancelConsumer q t \<Rightarrow> True | _ \<Rightarrow> False)"
| "stops_accepting (CtClient e) = (case e of RcHeartbeatEnd \<Rightarrow> True | RcCancel q \<Rightarrow> True | RcPublish k j \<Rightarrow> k = UNREGISTER_RKEY | _ \<Rightarrow> False)"
| "stops_accepting _ = False"

fun drains :: "ct_effect \<Rightarrow> bool" where
  "drains (CtWeb e) = (e = RunnerCleanup)"
| "drains AwaitWork = True"
| "drains (AwaitTask n) = True"
| "drains _ = False"

fun closes :: "ct_effect \<Rightarrow> bool" where
  "closes (CtWeb e) = (e = RunnerCleanup)"
| "closes (CtConsumer e) = (case e of CancelTask t \<Rightarrow> True | GatherTasks \<Rightarrow> True | CloseConnection \<Rightarrow> True | _ \<Rightarrow> False)"
| "closes (CtClient e) = (e = RcClose)"
| "closes (DelegateStop n) = True"
| "closes (CancelLoop n) = True"
| "closes _ = False"

lemma lifted_calls:
  assumes "emits P m" "\<And>e. P e \<Longrightarrow> Q (wrap e)" "trace p = []"
  shows "list_all (\<lambda>x. Q (fst x)) (map (\<lambda>(e, b). (wrap e, b)) (trace (snd (m p))))"
proof -
  obtain es where es: "trace (snd (m p)) = trace p @ es" "list_all (\<lambda>x. P (fst x)) es"
    using assms(1) by (rule emitsD)
  then have "P a" if "(a, b) \<in> set es" for a b using that by (auto simp: list_all_iff)
  with es(1) assms(2,3) show ?thesis by (auto simp: list_all_iff)
qed

lemma emits_in_http:
  assumes "emits P m" "\<And>e. P e \<Longrightarrow> Q (CtWeb e)"
  shows "emits Q (in_http m)"
  unfolding emits_def
proof
  fix s
  show "\<exists>es. trace (snd (in_http m s)) = trace s @ es \<and> list_all (\<lambda>p. Q (fst p)) es"
  proof (cases "cn_http s")
    case (Some p)
    obtain r q where run: "m (p\<lparr>script := script s, trace := []\<rparr>) = (r, q)"
      by fastforce
    have "list_all (\<lambda>x. Q (fst x)) (map (\<lambda>(e, b). (CtWeb e, b)) (trace q))"
      using lifted_calls[where P = P and Q = Q and wrap = CtWeb and m = m, OF assms, of "p\<lparr>script := script s, trace := []\<rparr>"]
        run by simp
    with Some run show ?thesis by (simp add: in_http_def)
  qed (simp add: in_http_def)
qed

lemma emits_in_consumer:
  assumes "emits P m" "\<And>e. P e \<Longrightarrow> Q (CtConsumer e)"
  shows "emits Q (in_consumer m)"
  unfolding emits_def
proof
  fix s
  show "\<exists>es. trace (snd (in_consumer m s)) = trace s @ es \<and> list_all (\<lambda>p. Q (fst p)) es"
  proof (cases "cn_consumer s")
    case (Some p)
    obtain r q where run: "m (p\<lparr>script := script s, trace := []\<rparr>) = (r, q)"
      by fastforce
    have "list_all (\<lambda>x. Q (fst x)) (map (\<lambda>(e, b). (CtConsumer e, b)) (trace q))"
      using lifted_calls[where P = P and Q = Q and wrap = CtConsumer and m = m, OF assms, of "p\<lparr>script := script s, trace := []\<rparr>"]
        run by simp
    with Some run show ?thesis by (simp add: in_consumer_def)
  qed (simp add: in_consumer_def)
qed

lemma emits_in_client:
  assumes "emits P m" "\<And>e. P e \<Longrightarrow> Q (CtClient e)"
  shows "emits Q (in_client m)"
  unfolding emits_def
proof
  fix s
  show "\<exists>es. trace (snd (in_client m s)) = trace s @ es \<and> list_all (\<lambda>p. Q (fst p)) es"
  proof (cases "cn_client s")
    case (Some p)
    obtain r q where run: "m (p\<lparr>script := script s, trace := [], rc_service := cn_service s,
      rc_shutting_down := cn_shutting_down s\<rparr>) = (r, q)"
      by fastforce
    have "list_all (\<lambda>x. Q (fst x)) (map (\<lambda>(e, b). (CtClient e, b)) (trace q))"
      using lifted_calls[where P = P and Q = Q and wrap = CtClient and m = m, OF assms, of "p\<lparr>script := script s, trace := [], rc_service := cn_service s,
      rc_shutting_down := cn_shutting_down s\<rparr>"]
        run by simp
    with Some run show ?thesis by (simp add: in_client_def)
  qed (simp add: in_client_def)
qed

lemma emits_record: "P e \<Longrightarrow> emits P (record_effect e)"
  by (simp add: emits_def record_effect_run)

lemma emits_ct_call: "P e \<Longrightarrow> emits P (ct_call e)"
  unfolding ct_call_def by (intro emits_rules)

definition cancels_consumer :: "su_effect \<Rightarrow> bool" where
  "cancels_consumer e \<longleftrightarrow> (\<exists>q t. e = CancelConsumer q t)"

lemma emits_stop_tasks:
  assumes "\<And>i tag s. trace (store i tag s) = trace s"
  shows "emits cancels_consumer (stop_tasks q store i ts)"
proof (induction ts arbitrary: i)
  case (Cons p ts)
  obtain t tag where p: "p = (t, tag)" by fastforce
  have "emits cancels_consumer
      (if truthy tag then py_then (call (CancelConsumer (q t) tag)) (py_modify (store i VNone)) else py_return ())"
    using assms by (simp add: call_def cancels_consumer_def emits_then emits_io emits_return emits_modify)
  with Cons show ?case by (simp add: p emits_then)
qed (simp add: emits_return)

lemma emits_stop_accepting: "emits cancels_consumer stop_accepting"
  unfolding stop_accepting_def
  by (rule emits_then; rule emits_state, rule emits_stop_tasks)
    (simp_all add: store_event_tag_def store_rpc_tag_def)

lemma emits_heartbeat_stop: "emits (\<lambda>e. e = RcHeartbeatEnd) heartbeat_stop"
  unfolding heartbeat_stop_def rcall_def
  by (intro emits_if emits_then emits_modify emits_return emits_try emits_io)
    (auto split: if_splits intro: emits_return)

lemma emits_accepting_parts:
  "emits (\<lambda>e. e = SiteStop) http_stop_accepting"
  "emits (\<lambda>e. \<exists>q. e = RcCancel q) client_stop_accepting"
  "emits (\<lambda>e. \<exists>j. e = RcPublish UNREGISTER_RKEY j) (py_when rc_exchange rc_unregister)"
  unfolding http_stop_accepting_def web_call_def client_stop_accepting_def rcall_def rc_unregister_def publish_body_def
  by (intro emits_rules; simp)+

lemma emits_accepting: "emits stops_accepting accepting_phase"
  unfolding accepting_phase_def stop_task_loops_def
  by (intro emits_then emits_if emits_return emits_modify emits_in_http[OF emits_accepting_parts(1)]
      emits_in_consumer[OF emits_stop_accepting] emits_in_client[OF emits_heartbeat_stop]
      emits_in_client[OF emits_accepting_parts(2)] emits_in_client[OF emits_accepting_parts(3)])
    (auto simp: cancels_consumer_def)

lemma emits_http_drain: "emits (\<lambda>e. e = RunnerCleanup) http_drain"
  unfolding http_drain_def web_call_def by (intro emits_rules; simp)

lemma emits_drain_task: "emits drains (drain_task x)"
  by (cases x) (simp add: drain_task_def emits_return emits_then emits_ct_call emits_modify update_task_def)

lemma emits_draining: "emits drains drain_phase"
proof -
  have "emits drains drain_in_flight"
    unfolding drain_in_flight_def
    by (intro emits_then emits_if emits_return emits_bind emits_read emits_each emits_drain_task
        emits_ct_call emits_in_http[OF emits_http_drain]) simp_all
  then show ?thesis
    unfolding drain_phase_def
    by (intro emits_try) (auto split: if_splits intro: emits_raise emits_return)
qed

definition closes_consumer :: "su_effect \<Rightarrow> bool" where
  "closes_consumer e \<longleftrightarrow> e = GatherTasks \<or> e = CloseConnection \<or> (\<exists>t. e = CancelTask t)"

lemma emits_force_close: "emits closes_consumer force_close"
proof -
  have "emits closes_consumer (\<lambda>s. py_each (\<lambda>(t, finished). if finished then py_return ()
      else record_effect (CancelTask t)) (co_handler_tasks s) s)"
    by (rule emits_state, rule emits_each)
      (simp add: split_def emits_return emits_record closes_consumer_def)
  then show ?thesis
    unfolding force_close_def call_def
    by (intro emits_then emits_if emits_return emits_modify emits_io) (simp_all add: closes_consumer_def)
qed

lemma emits_client_stop: "emits (\<lambda>e. e = RcClose) client_stop"
  unfolding client_stop_def rcall_def by (intro emits_rules; simp)

lemma emits_force_stop_task: "emits closes (force_stop_task x)"
  by (cases x) (auto simp: force_stop_task_def update_task_def emits_return split: if_splits
      intro!: emits_then emits_modify emits_try emits_ct_call intro: emits_return)

lemma emits_stop_delegate: "emits closes (stop_delegate x)"
  by (cases x) (simp add: stop_delegate_def emits_return emits_ct_call)

lemma emits_closing: "emits closes closing_phase"
  unfolding closing_phase_def
  by (intro emits_then emits_if emits_return emits_bind emits_read emits_each emits_force_stop_task
      emits_stop_delegate emits_in_consumer[OF emits_force_close] emits_in_client[OF emits_client_stop]
      emits_in_http[OF emits_http_drain])
    (auto simp: closes_consumer_def)

section \<open>What a phase leaves alone\<close>

text \<open>Running an operation in a part leaves the other parts and the flags of the container alone.\<close>

definition cn_flags :: "container \<Rightarrow> bool \<times> bool \<times> bool \<times> hosted \<times> (string \<times> delegate_kind) list" where
  "cn_flags s = (cn_stop_started s, cn_shutting_down s, cn_background s, cn_service s, cn_delegates s)"

lemma keeps_in_http:
  "keeps (\<lambda>s. (cn_consumer s, cn_client s, cn_tasks s, cn_flags s)) (in_http m)"
  by (simp add: keeps_def in_http_def cn_flags_def split: option.splits prod.splits)

lemma keeps_in_consumer:
  "keeps (\<lambda>s. (cn_http s, cn_client s, cn_tasks s, cn_flags s)) (in_consumer m)"
  by (simp add: keeps_def in_consumer_def cn_flags_def split: option.splits prod.splits)

lemma keeps_in_client:
  "keeps (\<lambda>s. (cn_http s, cn_consumer s, cn_tasks s, cn_flags s)) (in_client m)"
  by (simp add: keeps_def in_client_def cn_flags_def split: option.splits prod.splits)

lemma keeps_ct_call:
  "keeps (\<lambda>s. (cn_http s, cn_consumer s, cn_client s, cn_tasks s, cn_flags s)) (ct_call e)"
  unfolding ct_call_def by (intro keeps_then keeps_return keeps_io) (simp_all add: cn_flags_def)

lemma keeps_weaken: "keeps f m \<Longrightarrow> (\<And>s. g s = h (f s)) \<Longrightarrow> keeps g m"
  by (simp add: keeps_def)

lemma part_kept:
  "cn_consumer (snd (in_http m s)) = cn_consumer s" "cn_client (snd (in_http m s)) = cn_client s"
  "cn_tasks (snd (in_http m s)) = cn_tasks s" "cn_flags (snd (in_http m s)) = cn_flags s"
  "cn_http (snd (in_consumer n s)) = cn_http s" "cn_client (snd (in_consumer n s)) = cn_client s"
  "cn_tasks (snd (in_consumer n s)) = cn_tasks s" "cn_flags (snd (in_consumer n s)) = cn_flags s"
  "cn_http (snd (in_client k s)) = cn_http s" "cn_consumer (snd (in_client k s)) = cn_consumer s"
  "cn_tasks (snd (in_client k s)) = cn_tasks s" "cn_flags (snd (in_client k s)) = cn_flags s"
  "cn_http (snd (ct_call e s)) = cn_http s" "cn_consumer (snd (ct_call e s)) = cn_consumer s"
  "cn_client (snd (ct_call e s)) = cn_client s" "cn_tasks (snd (ct_call e s)) = cn_tasks s"
  "cn_flags (snd (ct_call e s)) = cn_flags s"
  using keepsD[OF keeps_in_http, of m s] keepsD[OF keeps_in_consumer, of n s]
    keepsD[OF keeps_in_client, of k s] keepsD[OF keeps_ct_call, of e s] by simp_all

text \<open>A property of a part that an operation of the part preserves holds in the container after it.\<close>

definition web_all :: "(web_server \<Rightarrow> bool) \<Rightarrow> container \<Rightarrow> bool" where
  "web_all P s \<longleftrightarrow> (\<forall>p. cn_http s = Some p \<longrightarrow> P p)"

definition consumer_all :: "(consumer \<Rightarrow> bool) \<Rightarrow> container \<Rightarrow> bool" where
  "consumer_all P s \<longleftrightarrow> (\<forall>p. cn_consumer s = Some p \<longrightarrow> P p)"

definition client_all :: "(client \<Rightarrow> bool) \<Rightarrow> container \<Rightarrow> bool" where
  "client_all P s \<longleftrightarrow> (\<forall>p. cn_client s = Some p \<longrightarrow> P p)"

lemma in_http_establishes:
  assumes "\<And>p q. m p = (Inr (), q) \<Longrightarrow> P q" "\<And>p x t. P (p\<lparr>script := x, trace := t\<rparr>) = P p"
    "in_http m s = (Inr (), u)"
  shows "web_all P u"
  using assms by (fastforce simp: web_all_def in_http_def split: option.splits prod.splits)

lemma in_consumer_establishes:
  assumes "\<And>p q. m p = (Inr (), q) \<Longrightarrow> P q" "\<And>p x t. P (p\<lparr>script := x, trace := t\<rparr>) = P p"
    "in_consumer m s = (Inr (), u)"
  shows "consumer_all P u"
  using assms by (fastforce simp: consumer_all_def in_consumer_def split: option.splits prod.splits)

lemma in_client_establishes:
  assumes "\<And>p q. m p = (Inr (), q) \<Longrightarrow> P q" "\<And>p x t. P (p\<lparr>script := x, trace := t\<rparr>) = P p"
    "in_client m s = (Inr (), u)"
  shows "client_all P u"
  using assms by (fastforce simp: client_all_def in_client_def split: option.splits prod.splits)

lemma preserves_in_http:
  assumes "preserves P m" "\<And>p x t. P (p\<lparr>script := x, trace := t\<rparr>) = P p"
  shows "preserves (web_all P) (in_http m)"
proof (rule preservesI)
  fix s
  assume s: "web_all P s"
  show "web_all P (snd (in_http m s))"
  proof (cases "cn_http s")
    case (Some p)
    obtain r q where run: "m (p\<lparr>script := script s, trace := []\<rparr>) = (r, q)" by fastforce
    with preservesD[OF assms(1), of "p\<lparr>script := script s, trace := []\<rparr>"] s Some assms(2)
    have "P q" by (simp add: web_all_def)
    with Some run assms(2) show ?thesis by (simp add: web_all_def in_http_def)
  qed (use s in \<open>simp add: in_http_def\<close>)
qed

lemma preserves_in_consumer:
  assumes "preserves P m" "\<And>p x t. P (p\<lparr>script := x, trace := t\<rparr>) = P p"
  shows "preserves (consumer_all P) (in_consumer m)"
proof (rule preservesI)
  fix s
  assume s: "consumer_all P s"
  show "consumer_all P (snd (in_consumer m s))"
  proof (cases "cn_consumer s")
    case (Some p)
    obtain r q where run: "m (p\<lparr>script := script s, trace := []\<rparr>) = (r, q)" by fastforce
    with preservesD[OF assms(1), of "p\<lparr>script := script s, trace := []\<rparr>"] s Some assms(2)
    have "P q" by (simp add: consumer_all_def)
    with Some run assms(2) show ?thesis by (simp add: consumer_all_def in_consumer_def)
  qed (use s in \<open>simp add: in_consumer_def\<close>)
qed

lemma preserves_in_client:
  assumes "preserves P m" "\<And>p x t. P (p\<lparr>script := x, trace := t\<rparr>) = P p"
    "\<And>p x t h b. P (p\<lparr>script := x, trace := t, rc_service := h, rc_shutting_down := b\<rparr>) = P p"
  shows "preserves (client_all P) (in_client m)"
proof (rule preservesI)
  fix s
  assume s: "client_all P s"
  show "client_all P (snd (in_client m s))"
  proof (cases "cn_client s")
    case (Some p)
    let ?p = "p\<lparr>script := script s, trace := [], rc_service := cn_service s, rc_shutting_down := cn_shutting_down s\<rparr>"
    obtain r q where run: "m ?p = (r, q)" by fastforce
    with preservesD[OF assms(1), of ?p] s Some assms(3) have "P q" by (simp add: client_all_def)
    with Some run assms(2) show ?thesis by (simp add: client_all_def in_client_def)
  qed (use s in \<open>simp add: in_client_def\<close>)
qed

lemma preserves_other_parts [preserves_rules]:
  "preserves (web_all P) (in_consumer n)" "preserves (web_all P) (in_client k)" "preserves (web_all P) (ct_call e)"
  "preserves (consumer_all Q) (in_http m)" "preserves (consumer_all Q) (in_client k)"
  "preserves (consumer_all Q) (ct_call e)"
  "preserves (client_all R) (in_http m)" "preserves (client_all R) (in_consumer n)"
  "preserves (client_all R) (ct_call e)"
  by (simp_all add: preserves_def web_all_def consumer_all_def client_all_def part_kept)

section \<open>Nothing is accepted any more\<close>

definition tags_gone :: "consumer \<Rightarrow> bool" where
  "tags_gone p \<longleftrightarrow> (\<forall>(t, tag) \<in> set (co_event_tasks p). \<not> truthy tag) \<and>
     (\<forall>(t, tag) \<in> set (co_rpc_tasks p). \<not> truthy tag)"

definition client_quiet :: "client \<Rightarrow> bool" where
  "client_quiet p \<longleftrightarrow> \<not> (rc_queue p \<and> truthy (rc_tag p)) \<and> \<not> hb_running p"

definition quiet :: "container \<Rightarrow> bool" where
  "quiet s \<longleftrightarrow> web_all (\<lambda>p. \<not> ws_site p) s \<and> consumer_all (\<lambda>p. co_connection p \<longrightarrow> tags_gone p) s \<and>
     client_all client_quiet s \<and> (\<forall>p \<in> set (cn_tasks s). \<not> pt_running p)"

lemma call_Inr:
  assumes "call e s = (Inr (), u)"
  obtains x y where "u = s\<lparr>script := x, trace := y\<rparr>"
proof (cases rule: io_cases[of e s])
  case (ok v r)
  with assms have "u = s\<lparr>script := r, trace := trace s @ [(e, True)]\<rparr>" by (simp add: call_def py_simps del: io_run)
  then show ?thesis by (rule that)
next
  case (fail x r)
  with assms show ?thesis by (simp add: call_def py_simps del: io_run)
qed

lemma stop_tasks_clears:
  assumes upd: "\<And>i tag s. get (store i tag s) = (get s)[i := (fst (get s ! i), tag)]"
    and frame: "\<And>s x y. get (s\<lparr>script := x, trace := y\<rparr>) = get s"
    and "stop_tasks q store i ts s = (Inr (), u)"
    and "get s = pre @ ts" "i = length pre" "\<forall>p \<in> set pre. \<not> truthy (snd p)"
  shows "\<forall>p \<in> set (get u). \<not> truthy (snd p)"
  using assms(3-)
proof (induction ts arbitrary: pre i s)
  case Nil
  then show ?case by (simp add: py_simps)
next
  case (Cons p ts)
  obtain t tag where p: "p = (t, tag)" by fastforce
  show ?case
  proof (cases "truthy tag")
    case False
    with Cons.prems p have "stop_tasks q store (Suc i) ts s = (Inr (), u)" by (simp add: py_simps)
    from Cons.IH[OF this, of "pre @ [p]"] Cons.prems False p show ?thesis by auto
  next
    case True
    then obtain s1 where c: "call (CancelConsumer (q t) tag) s = (Inr (), s1)"
      and rest: "stop_tasks q store (Suc i) ts (store i VNone s1) = (Inr (), u)"
      using Cons.prems(1) p by (cases "call (CancelConsumer (q t) tag) s") (auto simp: py_simps split: sum.splits)
    have "get s1 = get s" using c frame by (metis call_Inr)
    then have "get (store i VNone s1) = (pre @ [(t, VNone)]) @ ts"
      using upd[of i VNone s1] Cons.prems(2,3) p by simp
    from Cons.IH[OF rest this] Cons.prems(3,4) show ?thesis by auto
  qed
qed

lemma stop_tasks_other:
  assumes "\<And>i tag s. get (store i tag s) = get s" "\<And>s x y. get (s\<lparr>script := x, trace := y\<rparr>) = get s"
    "\<And>s y. get (s\<lparr>trace := y\<rparr>) = get s"
  shows "keeps get (stop_tasks q store i ts)"
proof (induction ts arbitrary: i)
  case (Cons p ts)
  obtain t tag where p: "p = (t, tag)" by fastforce
  have "keeps get (if truthy tag then py_then (call (CancelConsumer (q t) tag)) (py_modify (store i VNone))
      else py_return ())"
    using assms by (simp add: call_def keeps_then keeps_io keeps_return keeps_modify)
  with Cons show ?case by (simp add: p keeps_then)
qed (simp add: keeps_return)

lemma stop_accepting_clears:
  assumes "stop_accepting p = (Inr (), q)"
  shows "tags_gone q"
proof -
  obtain p1 where one: "stop_tasks et_queue store_event_tag 0 (co_event_tasks p) p = (Inr (), p1)"
    and two: "stop_tasks rt_queue store_rpc_tag 0 (co_rpc_tasks p1) p1 = (Inr (), q)"
    using assms by (auto simp: stop_accepting_def py_simps split: prod.splits sum.splits)
  have "\<forall>x \<in> set (co_event_tasks p1). \<not> truthy (snd x)"
    by (rule stop_tasks_clears[OF _ _ one, where pre = "[]"]) (simp_all add: store_event_tag_def)
  moreover have "co_event_tasks q = co_event_tasks p1"
    using keepsD[OF stop_tasks_other[where get = co_event_tasks], of store_rpc_tag rt_queue 0 "co_rpc_tasks p1" p1] two
    by (simp add: store_rpc_tag_def)
  moreover have "\<forall>x \<in> set (co_rpc_tasks q). \<not> truthy (snd x)"
    by (rule stop_tasks_clears[OF _ _ two, where pre = "[]"]) (simp_all add: store_rpc_tag_def)
  ultimately show ?thesis by (auto simp: tags_gone_def)
qed

lemma web_call_Inr: "web_call e p = (Inr (), q) \<Longrightarrow> \<exists>x y. q = p\<lparr>script := x, trace := y\<rparr>"
  by (cases rule: io_cases[of e p]) (auto simp: web_call_def py_simps simp del: io_run)

lemma rcall_Inr: "rcall e p = (Inr (), q) \<Longrightarrow> \<exists>x y. q = p\<lparr>script := x, trace := y\<rparr>"
  by (cases rule: io_cases[of e p]) (auto simp: rcall_def py_simps simp del: io_run)

lemma http_stop_accepting_closes: "http_stop_accepting p = (Inr (), q) \<Longrightarrow> \<not> ws_site q"
  by (auto simp: http_stop_accepting_def py_simps split: if_splits sum.splits prod.splits)

lemma client_stop_accepting_closes:
  "client_stop_accepting p = (Inr (), q) \<Longrightarrow> \<not> (rc_queue q \<and> truthy (rc_tag q))"
  by (auto simp: client_stop_accepting_def py_simps split: if_splits sum.splits prod.splits)

lemma keeps_heartbeat_end:
  "keeps hb_running
     (py_try (rcall RcHeartbeatEnd) (\<lambda>e. if e = CancelledError then Some (py_return ()) else None))"
  unfolding rcall_def
  by (intro keeps_try keeps_then keeps_io keeps_return) (auto split: if_splits intro: keeps_return)

lemma heartbeat_stop_ends: "heartbeat_stop p = (Inr (), q) \<Longrightarrow> \<not> hb_running q"
  using keepsD[OF keeps_heartbeat_end, of "p\<lparr>hb_running := False\<rparr>"]
  by (auto simp: heartbeat_stop_def py_if_run py_then_run py_modify_run py_return_run split: if_splits)

lemma keeps_hb_running: "keeps hb_running client_stop_accepting"
  unfolding client_stop_accepting_def rcall_def by (intro keeps_rules) simp_all

lemma py_then_Inr:
  assumes "py_then m n s = (Inr x, u)"
  obtains y t where "m s = (Inr y, t)" "n t = (Inr x, u)"
  using assms by (auto simp: py_then_run split: prod.splits sum.splits)

definition tasks_told :: "container \<Rightarrow> bool" where
  "tasks_told s \<longleftrightarrow> (\<forall>p \<in> set (cn_tasks s). \<not> pt_running p)"

lemma preserves_tasks_told [preserves_rules]:
  "preserves tasks_told (in_http m)" "preserves tasks_told (in_consumer n)"
  "preserves tasks_told (in_client k)" "preserves tasks_told (ct_call e)"
  by (simp_all add: preserves_def tasks_told_def part_kept)

lemma quiet_parts:
  "quiet s \<longleftrightarrow> web_all (\<lambda>p. \<not> ws_site p) s \<and> consumer_all (\<lambda>p. co_connection p \<longrightarrow> tags_gone p) s \<and>
     client_all client_quiet s \<and> tasks_told s"
  by (simp add: quiet_def tasks_told_def)

lemma preserves_tasks_modify:
  "preserves (web_all P) (py_modify (\<lambda>s. s\<lparr>cn_tasks := f s\<rparr>))"
  "preserves (consumer_all Q) (py_modify (\<lambda>s. s\<lparr>cn_tasks := f s\<rparr>))"
  "preserves (client_all R) (py_modify (\<lambda>s. s\<lparr>cn_tasks := f s\<rparr>))"
  by (simp_all add: preserves_def py_simps web_all_def consumer_all_def client_all_def)

lemma keeps_unregister: "keeps (\<lambda>p. (rc_queue p, rc_tag p, hb_running p)) (py_when rc_exchange rc_unregister)"
  unfolding rc_unregister_def publish_body_def rcall_def by (intro keeps_rules) simp_all

lemma part_frames:
  "in_http m s = (r, t) \<Longrightarrow> cn_consumer t = cn_consumer s \<and> cn_client t = cn_client s \<and> cn_tasks t = cn_tasks s"
  "in_consumer n s = (r, t) \<Longrightarrow> cn_http t = cn_http s \<and> cn_client t = cn_client s \<and> cn_tasks t = cn_tasks s"
  "in_client k s = (r, t) \<Longrightarrow> cn_http t = cn_http s \<and> cn_consumer t = cn_consumer s \<and> cn_tasks t = cn_tasks s"
  by (auto simp: in_http_def in_consumer_def in_client_def split: option.splits prod.splits)

lemma client_phase_quiet:
  assumes "in_client heartbeat_stop s3 = (Inr (), s4)" "in_client client_stop_accepting s4 = (Inr (), s5)"
    and "in_client (py_when rc_exchange rc_unregister) s5 = (Inr (), u)"
  shows "client_all client_quiet u"
proof -
  have "client_all (\<lambda>p. \<not> hb_running p) s4"
    using heartbeat_stop_ends by (rule in_client_establishes[OF _ _ assms(1)]) simp_all
  moreover have "preserves (client_all (\<lambda>p. \<not> hb_running p)) (in_client client_stop_accepting)"
    by (rule preserves_in_client, rule keeps_preserves, rule keeps_weaken[OF keeps_hb_running,
          where h = Not]) simp_all
  ultimately have "client_all (\<lambda>p. \<not> hb_running p) s5"
    using assms(2) by (metis preservesD snd_conv)
  moreover have "client_all (\<lambda>p. \<not> (rc_queue p \<and> truthy (rc_tag p))) s5"
    using client_stop_accepting_closes by (rule in_client_establishes[OF _ _ assms(2)]) simp_all
  ultimately have "client_all client_quiet s5" by (simp add: client_all_def client_quiet_def)
  moreover have "preserves (client_all client_quiet) (in_client (py_when rc_exchange rc_unregister))"
    by (rule preserves_in_client, rule keeps_preserves, rule keeps_weaken[OF keeps_unregister,
          where h = "\<lambda>(q, t, b). \<not> (q \<and> truthy t) \<and> \<not> b"]) (simp_all add: client_quiet_def)
  ultimately show ?thesis
    using assms(3) by (metis preservesD snd_conv)
qed

lemma accepting_quiet:
  assumes "accepting_phase s = (Inr (), u)"
  shows "quiet u"
proof -
  obtain s1 s2 s3 s4 s5 where run: "in_http http_stop_accepting s = (Inr (), s1)"
    "py_when amqp_ready (in_consumer stop_accepting) s1 = (Inr (), s2)" "stop_task_loops s2 = (Inr (), s3)"
    "in_client heartbeat_stop s3 = (Inr (), s4)" "in_client client_stop_accepting s4 = (Inr (), s5)"
    "in_client (py_when rc_exchange rc_unregister) s5 = (Inr (), u)"
    using assms unfolding accepting_phase_def by (auto elim!: py_then_Inr)
  have s3: "cn_http s3 = cn_http s2" "cn_consumer s3 = cn_consumer s2" "tasks_told s3"
    using run(3) by (auto simp: stop_task_loops_def py_simps tasks_told_def task_stop_accepting_def)
  have s2: "cn_http s2 = cn_http s1"
    using run(2) part_frames(2) by (auto simp: py_if_run py_return_run split: if_splits)
  have "cn_http u = cn_http s1" "cn_consumer u = cn_consumer s2" "cn_tasks u = cn_tasks s3"
    using part_frames(3)[OF run(4)] part_frames(3)[OF run(5)] part_frames(3)[OF run(6)] s2 s3 by simp_all
  note kept = this
  have "web_all (\<lambda>p. \<not> ws_site p) s1"
    using http_stop_accepting_closes by (rule in_http_establishes[OF _ _ run(1)]) simp_all
  then have web: "web_all (\<lambda>p. \<not> ws_site p) u" using kept by (simp add: web_all_def)
  have "consumer_all (\<lambda>p. co_connection p \<longrightarrow> tags_gone p) s2"
  proof (cases "amqp_ready s1")
    case True
    with run(2) have "in_consumer stop_accepting s1 = (Inr (), s2)" by (simp add: py_if_run)
    then show ?thesis
      using stop_accepting_clears by (intro in_consumer_establishes) (auto simp: tags_gone_def)
  next
    case False
    with run(2) show ?thesis
      by (auto simp: py_if_run py_return_run consumer_all_def amqp_ready_def split: option.splits)
  qed
  then have consumer: "consumer_all (\<lambda>p. co_connection p \<longrightarrow> tags_gone p) u"
    using kept by (simp add: consumer_all_def)
  have "client_all client_quiet u" using run(4-6) by (rule client_phase_quiet)
  with web consumer s3(3) kept(3) show ?thesis by (simp add: quiet_parts tasks_told_def)
qed

lemma preserves_conj: "preserves I m \<Longrightarrow> preserves J m \<Longrightarrow> preserves (\<lambda>s. I s \<and> J s) m"
  by (simp add: preserves_def)

lemma keeps_http_drain: "keeps ws_site http_drain"
  unfolding http_drain_def web_call_def by (intro keeps_rules) simp_all

lemma keeps_client_stop: "keeps (\<lambda>p. (rc_queue p, rc_tag p, hb_running p)) client_stop"
  unfolding client_stop_def rcall_def by (intro keeps_rules) simp_all

lemma preserves_consumer_io:
  "(\<And>s x y. I (s\<lparr>script := x, trace := y\<rparr>) = I s) \<Longrightarrow> (\<And>s y. I (s\<lparr>trace := y\<rparr>) = I s) \<Longrightarrow>
    preserves I (io (e::su_effect) :: (consumer, pyval) py)"
  by (rule keeps_preserves, rule keeps_io) simp_all

lemma preserves_state: "(\<And>t. preserves I (m t)) \<Longrightarrow> preserves I (\<lambda>s. m s s)"
  by (simp add: preserves_def)

lemma preserves_force_close: "preserves (\<lambda>p. co_connection p \<longrightarrow> tags_gone p) force_close"
proof -
  have one: "preserves (\<lambda>p. co_connection p \<longrightarrow> tags_gone p)
      ((\<lambda>(t, finished). if finished then py_return () else record_effect (CancelTask t)) x)" for x
    by (cases x) (simp add: preserves_def record_effect_run py_return_run tags_gone_def)
  have each: "preserves (\<lambda>p. co_connection p \<longrightarrow> tags_gone p)
      (\<lambda>s. py_each (\<lambda>(t, finished). if finished then py_return () else record_effect (CancelTask t))
         (co_handler_tasks s) s)"
    by (rule preserves_state, rule preserves_each, rule one)
  show ?thesis
    unfolding force_close_def call_def
    by (intro preserves_then preserves_if preserves_return preserves_modify preserves_consumer_io each)
      (simp_all add: tags_gone_def)
qed

lemma preserves_quiet_parts:
  "preserves quiet (in_http http_drain)" "preserves quiet (in_consumer force_close)"
  "preserves quiet (in_client client_stop)" "preserves quiet (ct_call e)"
  unfolding quiet_parts[abs_def]
  by (intro preserves_conj preserves_other_parts preserves_tasks_told
      preserves_in_http[OF keeps_preserves] preserves_in_consumer[OF preserves_force_close]
      preserves_in_client[OF keeps_preserves] keeps_weaken[OF keeps_http_drain, where h = Not]
      keeps_weaken[OF keeps_client_stop, where h = "\<lambda>(q, t, b). \<not> (q \<and> truthy t) \<and> \<not> b"];
      simp add: tags_gone_def client_quiet_def)+

lemma preserves_quiet_update:
  assumes "\<And>p. pt_running (f p) = pt_running p"
  shows "preserves quiet (py_modify (update_task i f))"
proof (rule preservesI)
  fix s
  assume "quiet s"
  moreover have "tasks_told (update_task i f s)" if "tasks_told s"
  proof (cases "i < length (cn_tasks s)")
    case True
    with that assms show ?thesis
      by (auto simp: tasks_told_def update_task_def dest!: subsetD[OF set_update_subset_insert])
  qed (use that in \<open>simp add: tasks_told_def update_task_def list_update_beyond not_less\<close>)
  ultimately show "quiet (snd (py_modify (update_task i f) s))"
    by (simp add: quiet_parts py_modify_run web_all_def consumer_all_def client_all_def update_task_def tasks_told_def)
qed

lemma preserves_quiet_draining: "preserves quiet drain_phase"
proof -
  have task: "preserves quiet (drain_task x)" for x
    by (cases x) (simp add: drain_task_def preserves_return preserves_then preserves_quiet_parts preserves_quiet_update)
  have "preserves quiet drain_in_flight"
    unfolding drain_in_flight_def
    by (intro preserves_rules preserves_quiet_parts task)
  then show ?thesis
    unfolding drain_phase_def
    by (intro preserves_try) (auto split: if_splits intro: preserves_raise preserves_return)
qed

lemma cancel_loop_snd: "pt_running (snd (cancel_loop p)) = pt_running p" "loop_over (snd (cancel_loop p))"
  by (simp_all add: cancel_loop_def py_modify_run loop_over_def split: point.splits)

lemma preserves_quiet_closing: "preserves quiet closing_phase"
proof -
  have task: "preserves quiet (force_stop_task x)" for x
    by (cases x) (auto simp: force_stop_task_def preserves_return cancel_loop_snd split: if_splits
        intro!: preserves_then preserves_try preserves_quiet_parts preserves_quiet_update intro: preserves_return)
  have delegate: "preserves quiet (stop_delegate x)" for x
    by (cases x) (simp add: stop_delegate_def preserves_return preserves_quiet_parts)
  show ?thesis
    unfolding closing_phase_def
    by (intro preserves_rules preserves_quiet_parts task delegate)
qed

section \<open>Everything is closed\<close>

definition all_closed :: "container \<Rightarrow> bool" where
  "all_closed s \<longleftrightarrow> web_all (\<lambda>p. \<not> ws_runner p) s \<and> consumer_all (\<lambda>p. \<not> co_connection p) s \<and>
     client_all (\<lambda>p. \<not> rc_connection p) s \<and> (\<forall>p \<in> set (cn_tasks s). loop_over p)"

lemma http_drain_closes: "http_drain p = (Inr (), q) \<Longrightarrow> \<not> ws_runner q"
  by (auto simp: http_drain_def py_simps split: if_splits sum.splits prod.splits)

lemma client_stop_closes: "client_stop p = (Inr (), q) \<Longrightarrow> \<not> rc_connection q"
  by (auto simp: client_stop_def py_simps split: if_splits sum.splits prod.splits)

lemma force_close_closes: "force_close p = (Inr (), q) \<Longrightarrow> \<not> co_connection q"
  by (auto simp: force_close_def py_then_run py_if_run py_modify_run py_return_run
      split: if_splits sum.splits prod.splits)

text \<open>The loops are ended one after the other; what was ended stays so.\<close>

lemma force_stop_task_run:
  assumes "force_stop_task (i, p) s = (Inr (), u)" "i < length (cn_tasks s)" "cn_tasks s ! i = p"
  shows "\<exists>p'. cn_tasks u = (cn_tasks s)[i := p'] \<and> loop_over p'"
proof (cases "loop_over p")
  case True
  with assms show ?thesis
    by (intro exI[of _ p]) (auto simp: force_stop_task_def py_return_run)
next
  case False
  define s1 where "s1 = update_task i (\<lambda>p. snd (cancel_loop p)) s"
  have "cn_tasks u = cn_tasks s1"
    using assms(1) False part_kept(16)[of "CancelLoop (pt_name p)" s1]
    by (auto simp: force_stop_task_def py_then_run py_try_run py_modify_run py_return_run s1_def
        split: prod.splits sum.splits if_splits)
  then show ?thesis using cancel_loop_snd(2) by (auto simp: s1_def update_task_def)
qed

lemma force_stop_tasks_run:
  assumes "py_each force_stop_task (enumerate i ts) s = (Inr (), u)"
    and "cn_tasks s = pre @ ts" "i = length pre" "\<forall>p \<in> set pre. loop_over p"
  shows "\<forall>p \<in> set (cn_tasks u). loop_over p"
  using assms
proof (induction ts arbitrary: i pre s)
  case Nil
  then show ?case by (simp add: py_simps)
next
  case (Cons p ts)
  then obtain s1 where one: "force_stop_task (i, p) s = (Inr (), s1)"
    and rest: "py_each force_stop_task (enumerate (Suc i) ts) s1 = (Inr (), u)"
    by (auto simp: py_each_run_Cons split: prod.splits sum.splits)
  obtain p' where "cn_tasks s1 = (cn_tasks s)[i := p']" "loop_over p'"
    using force_stop_task_run[OF one] Cons.prems(2,3) by auto
  then have "cn_tasks s1 = (pre @ [p']) @ ts" "\<forall>q \<in> set (pre @ [p']). loop_over q"
    using Cons.prems(2-4) by auto
  from Cons.IH[OF rest this(1) _ this(2)] Cons.prems(3) show ?case by simp
qed

definition part_states :: "container \<Rightarrow> web_server option \<times> consumer option \<times> client option \<times> periodic list" where
  "part_states s = (cn_http s, cn_consumer s, cn_client s, cn_tasks s)"

lemma keeps_stop_delegates: "keeps part_states (py_each stop_delegate ds)"
proof (rule keeps_each)
  fix d
  show "keeps part_states (stop_delegate d)"
    by (cases d) (auto simp: stop_delegate_def part_states_def part_kept keeps_def py_return_run)
qed

lemma keeps_force_stop_tasks: "keeps cn_consumer (py_each force_stop_task ts)"
proof (rule keeps_each)
  fix x
  have "keeps cn_consumer (ct_call e)" for e by (simp add: keeps_def part_kept)
  then show "keeps cn_consumer (force_stop_task x)"
    by (cases x) (auto simp: force_stop_task_def update_task_def keeps_return split: if_splits
        intro!: keeps_then keeps_try keeps_modify intro: keeps_return)
qed

lemma closing_closed:
  assumes "closing_phase s = (Inr (), u)"
  shows "all_closed u"
proof -
  obtain s1 s2 s3 s4 where run: "py_when amqp_ready (in_consumer force_close) s = (Inr (), s1)"
    "py_each force_stop_task (enumerate 0 (cn_tasks s1)) s1 = (Inr (), s2)"
    "py_each stop_delegate (sort_key fst (cn_delegates s2)) s2 = (Inr (), s3)"
    "in_client client_stop s3 = (Inr (), s4)" "in_http http_drain s4 = (Inr (), u)"
    using assms unfolding closing_phase_def
    by (auto simp: py_bind_run py_read_run elim!: py_then_Inr)
  have "consumer_all (\<lambda>p. \<not> co_connection p) s1"
  proof (cases "amqp_ready s")
    case True
    with run(1) have "in_consumer force_close s = (Inr (), s1)" by (simp add: py_if_run)
    then show ?thesis using force_close_closes by (intro in_consumer_establishes) auto
  next
    case False
    with run(1) show ?thesis
      by (auto simp: py_if_run py_return_run consumer_all_def amqp_ready_def split: option.splits)
  qed
  moreover have "cn_consumer s2 = cn_consumer s1"
    using keepsD[OF keeps_force_stop_tasks, of "enumerate 0 (cn_tasks s1)" s1] run(2) by simp
  moreover have tasks: "\<forall>p \<in> set (cn_tasks s2). loop_over p"
    by (rule force_stop_tasks_run[OF run(2), where pre = "[]"]) simp_all
  moreover have "part_states s3 = part_states s2"
    using keepsD[OF keeps_stop_delegates, of "sort_key fst (cn_delegates s2)" s2] run(3) by simp
  moreover note part_frames(3)[OF run(4)] part_frames(1)[OF run(5)]
  moreover have "client_all (\<lambda>p. \<not> rc_connection p) s4"
    using client_stop_closes by (rule in_client_establishes[OF _ _ run(4)]) simp_all
  moreover have "web_all (\<lambda>p. \<not> ws_runner p) u"
    using http_drain_closes by (rule in_http_establishes[OF _ _ run(5)]) simp_all
  ultimately show ?thesis
    by (simp add: all_closed_def part_states_def consumer_all_def client_all_def)
qed

section \<open>The shutdown\<close>

definition began_stop :: "container \<Rightarrow> container" where
  "began_stop s = s\<lparr>cn_stop_started := True, cn_shutting_down := True\<rparr>"

lemma keeps_started_phases:
  "keeps cn_stop_started cancel_background" "keeps cn_stop_started accepting_phase"
  "keeps cn_stop_started drain_phase" "keeps cn_stop_started closing_phase"
proof -
  have parts: "keeps cn_stop_started (in_http m)" "keeps cn_stop_started (in_consumer n)"
    "keeps cn_stop_started (in_client k)" "keeps cn_stop_started (ct_call e)" for m n k e
    using part_kept(4,8,12,17) by (simp_all add: keeps_def cn_flags_def)
  have tasks: "keeps cn_stop_started (force_stop_task x)" "keeps cn_stop_started (drain_task x)"
    "keeps cn_stop_started (stop_delegate d)" for x d
    by (cases x; cases d; auto simp: force_stop_task_def drain_task_def stop_delegate_def update_task_def
        keeps_return parts split: if_splits intro!: keeps_then keeps_try keeps_modify intro: keeps_return)+
  show "keeps cn_stop_started cancel_background"
    unfolding cancel_background_def
    by (auto intro!: keeps_if keeps_then keeps_try parts keeps_modify intro: keeps_return split: if_splits)
  show "keeps cn_stop_started accepting_phase"
    unfolding accepting_phase_def stop_task_loops_def by (intro keeps_then keeps_if keeps_modify keeps_return parts) simp
  have "keeps cn_stop_started drain_in_flight"
    unfolding drain_in_flight_def by (intro keeps_rules parts tasks)
  then show "keeps cn_stop_started drain_phase"
    unfolding drain_phase_def
    by (intro keeps_try) (auto split: if_splits intro: keeps_raise keeps_return)
  show "keeps cn_stop_started closing_phase"
    unfolding closing_phase_def by (intro keeps_rules parts tasks)
qed

lemma emits_cancel_background: "emits (\<lambda>e. e = CancelBackground) cancel_background"
  unfolding cancel_background_def
  by (auto intro!: emits_if emits_then emits_try emits_ct_call emits_modify intro: emits_return split: if_splits)

lemma emits_calls:
  assumes "emits P m" "m s = (r, u)"
  obtains es where "attempted u = attempted s @ es" "list_all P es"
  using emitsD[OF assms(1), of s] assms(2)
  by (metis (no_types, lifting) attempted_def list.pred_map map_append comp_def list.pred_cong snd_conv)

lemma container_stop_run:
  assumes "\<not> cn_stop_started s"
  shows "container_stop s =
    (case cancel_background (began_stop s) of
       (Inl e, s1) \<Rightarrow> (Inl e, s1)
     | (Inr _, s1) \<Rightarrow> (case get_grace_seconds (hs_config (cn_service s1)) of
         Inl e \<Rightarrow> (Inl e, s1)
       | Inr g \<Rightarrow> (case accepting_phase s1 of
           (Inl e, s2) \<Rightarrow> (Inl e, s2)
         | (Inr _, s2) \<Rightarrow> (case drain_phase s2 of
             (Inl e, s3) \<Rightarrow> (Inl e, s3) | (Inr _, s3) \<Rightarrow> closing_phase s3))))"
  using assms
  by (simp add: container_stop_def py_if_run py_then_run py_bind_run py_modify_run py_read_run py_lift_run began_stop_def
      split: prod.splits sum.splits)

lemma stopped_stays: "cn_stop_started (snd (container_stop s))"
proof (cases "cn_stop_started s")
  case False
  define rest where "rest = py_then cancel_background
       (py_bind (py_read (\<lambda>s. get_grace_seconds (hs_config (cn_service s)))) (\<lambda>r.
        py_bind (py_lift r) (\<lambda>grace_seconds.
          py_then accepting_phase (py_then drain_phase closing_phase))))"
  have "preserves cn_stop_started rest"
    unfolding rest_def by (intro preserves_rules keeps_preserves[OF keeps_started_phases(1)]
        keeps_preserves[OF keeps_started_phases(2)] keeps_preserves[OF keeps_started_phases(3)]
        keeps_preserves[OF keeps_started_phases(4)])
  then have "cn_stop_started (snd (rest (began_stop s)))"
    by (rule preservesD) (simp add: began_stop_def)
  moreover have "container_stop s = rest (began_stop s)"
    using False by (simp add: container_stop_def py_if_run py_then_run[of "py_modify f" for f] py_modify_run
        began_stop_def rest_def)
  ultimately show ?thesis by simp
qed (simp add: container_stop_def py_if_run py_return_run)

lemma second_stop: "container_stop (snd (container_stop s)) = (Inr (), snd (container_stop s))"
  using stopped_stays[of s] by (simp add: container_stop_def py_if_run py_return_run)

definition in_phases :: "container \<Rightarrow> container \<Rightarrow> ct_effect list \<Rightarrow> ct_effect list \<Rightarrow> ct_effect list \<Rightarrow> ct_effect list \<Rightarrow> bool" where
  "in_phases s u background accepting draining closing \<longleftrightarrow>
     attempted u = attempted s @ background @ accepting @ draining @ closing \<and>
     list_all (\<lambda>e. e = CancelBackground) background \<and> list_all stops_accepting accepting \<and>
     list_all drains draining \<and> list_all closes closing"

lemma stop_in_phases:
  assumes "\<not> cn_stop_started s" "container_stop s = (r, u)"
  obtains background accepting draining closing where
    "in_phases s u background accepting draining closing" "draining @ closing \<noteq> [] \<Longrightarrow> quiet u"
    "r = Inr () \<Longrightarrow> quiet u \<and> all_closed u"
proof -
  have start: "attempted (began_stop s) = attempted s" by (simp add: began_stop_def attempted_def)
  obtain b s1 where b: "cancel_background (began_stop s) = (b, s1)" by fastforce
  obtain B where B: "attempted s1 = attempted s @ B" "list_all (\<lambda>e. e = CancelBackground) B"
    using emits_calls[OF emits_cancel_background b] start by metis
  obtain a s2 where a: "accepting_phase s1 = (a, s2)" by fastforce
  obtain A where A: "attempted s2 = attempted s1 @ A" "list_all stops_accepting A"
    using emits_calls[OF emits_accepting a] by metis
  obtain d s3 where d: "drain_phase s2 = (d, s3)" by fastforce
  obtain D where D: "attempted s3 = attempted s2 @ D" "list_all drains D"
    using emits_calls[OF emits_draining d] by metis
  obtain c s4 where c: "closing_phase s3 = (c, s4)" by fastforce
  obtain C where C: "attempted s4 = attempted s3 @ C" "list_all closes C"
    using emits_calls[OF emits_closing c] by metis
  have quiet: "quiet s2" "quiet s3" "quiet s4" if "a = Inr ()"
    using accepting_quiet[of s1 s2] a that preservesD[OF preserves_quiet_draining, of s2] d
      preservesD[OF preserves_quiet_closing, of s3] c by auto
  note run = assms(2)[unfolded container_stop_run[OF assms(1)] b]
  show ?thesis
  proof (cases "(\<exists>e. b = Inl e) \<or> (\<exists>e. get_grace_seconds (hs_config (cn_service s1)) = Inl e)")
    case True
    with run have "u = s1" "r \<noteq> Inr ()" by (auto split: sum.splits)
    with B that[of B "[]" "[]" "[]"] show ?thesis by (simp add: in_phases_def)
  next
    case False
    then obtain g where going: "b = Inr ()" "get_grace_seconds (hs_config (cn_service s1)) = Inr g"
      by (metis (full_types) old.unit.exhaust sumE)
    show ?thesis
    proof (cases a)
      case (Inl e)
      with run going a have "u = s2" "r \<noteq> Inr ()" by auto
      with A B that[of B A "[]" "[]"] show ?thesis by (simp add: in_phases_def)
    next
      case (Inr x)
      note q = quiet[unfolded Inr]
      show ?thesis
      proof (cases d)
        case (Inl e)
        with run going a Inr d have "u = s3" "r \<noteq> Inr ()" by auto
        with A B D q that[of B A D "[]"] show ?thesis by (simp add: in_phases_def)
      next
        case (Inr y)
        with run going a \<open>a = Inr x\<close> d c have "u = s4" "r = c" by auto
        with A B C D q c closing_closed[of s3 s4] that[of B A D C] show ?thesis
          by (simp add: in_phases_def)
      qed
    qed
  qed
qed


definition demo_container :: container where
  "demo_container = \<lparr>script = [], trace = [], cn_service = demo_hosted, cn_http_endpoints = [],
     cn_declared_delegates = [(''bus'', MessengerDelegate), (''_kontiki_heartbeat'', HeartbeatDelegate)],
     cn_delegates = [(''bus'', MessengerDelegate), (''_kontiki_heartbeat'', HeartbeatDelegate)],
     cn_settings = VNone, cn_disable_registration = False, cn_shutting_down = False, cn_stop_started = False,
     cn_amqp_required = VBool True, cn_background = False,
     cn_http = Some ((http_server_init (VDict []) ''orders'' [] [])\<lparr>ws_site := True, ws_runner := True\<rparr>),
     cn_consumer = Some ((consumer_init (VDict []) ''orders'' ''i1'' [])\<lparr>co_connection := True,
        co_event_tasks := [(demo_event_task, VStr ''tag1'')], co_handler_tasks := [(7, False)]\<rparr>),
     cn_client = Some ((client_init demo_hosted [])\<lparr>rc_connection := True, rc_exchange := True, rc_queue := True,
        rc_tag := VStr ''tag2'', hb_running := True\<rparr>),
     cn_tasks = [(new_task (VDict []) True ''poll'' (Interval (VInt 5)) True)\<lparr>pt_running := True, pt_point := Asleep\<rparr>]\<rparr>"

lemma demo_container_stops:
  "fst (container_stop demo_container) = Inr () \<and> length (attempted (snd (container_stop demo_container))) = 13"
  by code_simp


text \<open>
  A failure while accepting is stopped (the broker refuses the unregistration, say) leaves everything
  open: the connections are never closed, not even by a second \<open>stop\<close>.
\<close>

lemma failed_stop_leaves_open:
  assumes "\<not> cn_stop_started s" "\<not> cn_background s" "get_grace_seconds (hs_config (cn_service s)) = Inr g"
    and "accepting_phase (began_stop s) = (Inl e, u)"
  shows "container_stop s = (Inl e, u)" "container_stop u = (Inr (), u)"
    "\<exists>es. attempted u = attempted s @ es \<and> list_all stops_accepting es"
proof -
  have "cancel_background (began_stop s) = (Inr (), began_stop s)"
    using assms(2) by (simp add: cancel_background_def began_stop_def py_simps)
  with assms show run: "container_stop s = (Inl e, u)"
    by (simp add: container_stop_run began_stop_def)
  with second_stop[of s] show "container_stop u = (Inr (), u)" by simp
  show "\<exists>es. attempted u = attempted s @ es \<and> list_all stops_accepting es"
    by (rule emits_calls[OF emits_accepting assms(4)]) (auto simp: began_stop_def attempted_def)
qed

end
