(* ===== verification/Logging_Config.thy ===== *)
theory Logging_Config
  imports Configuration Handler_Scope "HOL-Library.Sublist"
begin

text \<open>
  The logging configuration handed to \<open>logging.config.dictConfig\<close> (\<open>messaging/flow.py\<close>,
  \<open>configuration/configuration.py\<close>): Kontiki's own key is taken out, the files of file handlers are
  imposed, defaults are filled in and the two filters of Kontiki are added to every handler.

  Importing a handler class and asking whether it writes to a file (\<open>writes_file\<close>), joining a
  directory and a name (\<open>join_path\<close>) and creating the directory (\<open>mkdir\<close>) are parameters. A section
  or handler that is not a dictionary raises in every case; which of \<open>TypeError\<close> and \<open>AttributeError\<close>
  comes first is not told apart.
\<close>

definition DEFAULT_LOG_FORMAT :: string where
  "DEFAULT_LOG_FORMAT =
     ''%(asctime)s - %(short_instance_id)s - %(levelname)s - %(flow_id)-19s - %(message)s''"

definition DEFAULT_LOGGING_CONFIGURATION :: pyval where
  "DEFAULT_LOGGING_CONFIGURATION = VDict
     [(''version'', VInt 1),
      (''disable_existing_loggers'', VBool True),
      (''formatters'', VDict [(''default'', VDict [(''format'', VStr DEFAULT_LOG_FORMAT)])]),
      (''handlers'', VDict [(''console'', VDict [(''class'', VStr ''logging.StreamHandler''),
          (''formatter'', VStr ''default''), (''level'', VStr ''DEBUG'')])]),
      (''loggers'', VDict [(''kontiki'', VDict [(''level'', VStr ''INFO''), (''propagate'', VBool True)])]),
      (''root'', VDict [(''handlers'', VList [VStr ''console'']), (''level'', VStr ''DEBUG'')])]"

text \<open>\<open>re.sub(r"[^A-Za-z0-9._-]", "_", service_name)\<close>.\<close>

definition plain_char :: "char \<Rightarrow> bool" where
  "plain_char c \<longleftrightarrow> (let n = of_char c :: nat in
     (65 \<le> n \<and> n \<le> 90) \<or> (97 \<le> n \<and> n \<le> 122) \<or> (48 \<le> n \<and> n \<le> 57) \<or> c = CHR ''.'' \<or> c = CHR ''_'' \<or> c = CHR ''-'')"

definition sanitize_service_name_for_log :: "string \<Rightarrow> string" where
  "sanitize_service_name_for_log service_name = map (\<lambda>c. if plain_char c then c else CHR ''_'') service_name"

definition short_instance_id :: "string \<Rightarrow> string" where
  "short_instance_id instance_id = take 12 (filter (\<lambda>c. c \<noteq> CHR ''-'') instance_id)"

text \<open>The module part of a class path, before its last dot, must not be empty.\<close>

definition module_part :: "string \<Rightarrow> string" where
  "module_part path = rev (drop 1 (dropWhile (\<lambda>c. c \<noteq> CHR ''.'') (rev path)))"

definition is_file_handler :: "(pyval \<Rightarrow> exn + bool) \<Rightarrow> pydict \<Rightarrow> exn + bool" where
  "is_file_handler writes_file handler_conf =
     (case dget_default handler_conf ''class'' VNone of
        VNone \<Rightarrow> Inr False
      | VStr path \<Rightarrow>
          if module_part path = [] then Inl (ValueError ''Invalid logging handler class'')
          else writes_file (VStr path)
      | cls \<Rightarrow> writes_file cls)"

text \<open>A section that is a dictionary, empty when it is missing.\<close>

definition logging_section :: "string \<Rightarrow> pydict \<Rightarrow> exn + pydict" where
  "logging_section name config =
     (case dget config name of
        None \<Rightarrow> Inr []
      | Some (VDict d) \<Rightarrow> Inr d
      | Some _ \<Rightarrow> Inl (AttributeError ''values''))"

fun map_handlers :: "(pydict \<Rightarrow> exn + pydict) \<Rightarrow> pydict \<Rightarrow> exn + pydict" where
  "map_handlers f [] = Inr []"
| "map_handlers f ((name, handler) # rest) =
     (case handler of
        VDict h \<Rightarrow> (case f h of
            Inl e \<Rightarrow> Inl e
          | Inr h1 \<Rightarrow> map_sum id ((#) (name, VDict h1)) (map_handlers f rest))
      | _ \<Rightarrow> Inl (AttributeError ''get''))"

text \<open>Changing the handlers of a configuration that has some.\<close>

definition update_handlers :: "(pydict \<Rightarrow> exn + pydict) \<Rightarrow> pydict \<Rightarrow> exn + pydict" where
  "update_handlers f config =
     (case logging_section ''handlers'' config of
        Inl e \<Rightarrow> Inl e
      | Inr handlers \<Rightarrow> (case map_handlers f handlers of
          Inl e \<Rightarrow> Inl e
        | Inr updated \<Rightarrow> Inr (if dget config ''handlers'' = None then config
                             else dset ''handlers'' (VDict updated) config)))"

fun any_file_handler :: "(pyval \<Rightarrow> exn + bool) \<Rightarrow> pydict \<Rightarrow> exn + bool" where
  "any_file_handler writes_file [] = Inr False"
| "any_file_handler writes_file ((name, handler) # rest) =
     (case handler of
        VDict h \<Rightarrow> (case is_file_handler writes_file h of
            Inl e \<Rightarrow> Inl e
          | Inr b \<Rightarrow> map_sum id (\<lambda>r. b \<or> r) (any_file_handler writes_file rest))
      | _ \<Rightarrow> Inl (AttributeError ''get''))"

definition impose_filename :: "(pyval \<Rightarrow> exn + bool) \<Rightarrow> string \<Rightarrow> pydict \<Rightarrow> exn + pydict" where
  "impose_filename writes_file path h =
     map_sum id (\<lambda>b. if b then dset ''filename'' (VStr path) h else h) (is_file_handler writes_file h)"

definition impose_log_filenames ::
  "(pyval \<Rightarrow> exn + bool) \<Rightarrow> (string \<Rightarrow> string \<Rightarrow> string) \<Rightarrow> (string \<Rightarrow> exn + unit) \<Rightarrow>
   pydict \<Rightarrow> string \<Rightarrow> string \<Rightarrow> string \<Rightarrow> exn + pydict" where
  "impose_log_filenames writes_file join_path mkdir config directory safe_name short_id =
     (let path = join_path directory (safe_name @ ''-'' @ short_id @ ''.log'')
      in case logging_section ''handlers'' config of
           Inl e \<Rightarrow> Inl e
         | Inr handlers \<Rightarrow> (case any_file_handler writes_file handlers of
             Inl e \<Rightarrow> Inl e
           | Inr some_file \<Rightarrow>
               if \<not> some_file then Inr config
               else (case mkdir directory of
                  Inl e \<Rightarrow> Inl e
                | Inr _ \<Rightarrow> update_handlers (impose_filename writes_file path) config)))"

definition setdefault :: "string \<Rightarrow> pyval \<Rightarrow> pydict \<Rightarrow> pydict" where
  "setdefault k v d = (if dget d k = None then dset k v d else d)"

definition default_formatters :: "pydict \<Rightarrow> exn + pydict" where
  "default_formatters config =
     (if dget config ''formatters'' \<noteq> None then Inr config
      else update_handlers (\<lambda>h. Inr (setdefault ''formatter'' (VStr ''default'') h))
        (dset ''formatters'' (VDict [(''default'', VDict [(''format'', VStr DEFAULT_LOG_FORMAT)])]) config))"

definition kontiki_logger :: pyval where
  "kontiki_logger = VDict [(''level'', VStr ''INFO''), (''propagate'', VBool True)]"

text \<open>\<open>name in v\<close> for a text \<open>name\<close>: an element, a key or a part of a text.\<close>

fun py_contains :: "string \<Rightarrow> pyval \<Rightarrow> exn + bool" where
  "py_contains name (VList xs) = Inr (VStr name \<in> set xs)"
| "py_contains name (VTuple xs) = Inr (VStr name \<in> set xs)"
| "py_contains name (VSet xs) = Inr (VStr name \<in> set xs)"
| "py_contains name (VDict d) = Inr (dget d name \<noteq> None)"
| "py_contains name (VStr s) = Inr (sublist name s)"
| "py_contains name v = Inl (TypeError ''argument is not iterable'')"

text \<open>A \<open>loggers\<close> section that is not a dictionary is left alone if it contains the name.\<close>

definition default_loggers :: "pydict \<Rightarrow> exn + pydict" where
  "default_loggers config =
     (case dget config ''loggers'' of
        None \<Rightarrow> Inr (dset ''loggers'' (VDict [(''kontiki'', kontiki_logger)]) config)
      | Some (VDict d) \<Rightarrow> Inr (dset ''loggers'' (VDict (setdefault ''kontiki'' kontiki_logger d)) config)
      | Some v \<Rightarrow> (case py_contains ''kontiki'' v of
          Inl e \<Rightarrow> Inl e
        | Inr there \<Rightarrow> if there then Inr config else Inl (TypeError ''item assignment'')))"

definition inject_defaults :: "pydict \<Rightarrow> exn + pydict" where
  "inject_defaults config =
     (case default_formatters
         (setdefault ''disable_existing_loggers'' (VBool True) (setdefault ''version'' (VInt 1) config)) of
        Inl e \<Rightarrow> Inl e
      | Inr config1 \<Rightarrow> default_loggers config1)"

definition FLOW_FILTER :: string where "FLOW_FILTER = ''kontiki_flow_id''"
definition IDENTITY_FILTER :: string where "IDENTITY_FILTER = ''kontiki_service_identity''"

definition append_missing :: "string \<Rightarrow> pyval list \<Rightarrow> pyval list" where
  "append_missing name xs = (if VStr name \<in> set xs then xs else xs @ [VStr name])"

text \<open>Only a list can be appended to; anything else passes when it contains both names already.\<close>

definition add_filters :: "pydict \<Rightarrow> exn + pydict" where
  "add_filters h =
     (case dget h ''filters'' of
        None \<Rightarrow> Inr (dset ''filters'' (VList [VStr FLOW_FILTER, VStr IDENTITY_FILTER]) h)
      | Some (VList xs) \<Rightarrow> Inr (dset ''filters''
          (VList (append_missing IDENTITY_FILTER (append_missing FLOW_FILTER xs))) h)
      | Some v \<Rightarrow> (case py_contains FLOW_FILTER v of
          Inl e \<Rightarrow> Inl e
        | Inr flow_there \<Rightarrow> if \<not> flow_there then Inl (AttributeError ''append'')
            else (case py_contains IDENTITY_FILTER v of
                Inl e \<Rightarrow> Inl e
              | Inr there \<Rightarrow> if there then Inr h else Inl (AttributeError ''append''))))"

definition identity_filter :: "string \<Rightarrow> string \<Rightarrow> pyval" where
  "identity_filter safe_name short_id = VDict [(''()'', VStr ''kontiki.messaging.flow.ServiceIdentityFilter''),
     (''service_name'', VStr safe_name), (''short_instance_id'', VStr short_id)]"

definition flow_filter :: pyval where
  "flow_filter = VDict [(''()'', VStr ''kontiki.messaging.flow.FlowIdFilter'')]"

definition add_kontiki_filters :: "string \<Rightarrow> string \<Rightarrow> pydict \<Rightarrow> exn + pydict" where
  "add_kontiki_filters safe_name short_id config =
     (case logging_section ''filters'' config of
        Inl e \<Rightarrow> Inl e
      | Inr filters \<Rightarrow> update_handlers add_filters
          (dset ''filters'' (VDict (dset IDENTITY_FILTER (identity_filter safe_name short_id)
             (dset FLOW_FILTER flow_filter filters))) config))"

definition prepare_logging_config ::
  "(pyval \<Rightarrow> exn + bool) \<Rightarrow> (string \<Rightarrow> string \<Rightarrow> string) \<Rightarrow> (string \<Rightarrow> exn + unit) \<Rightarrow>
   pyval \<Rightarrow> string \<Rightarrow> string \<Rightarrow> exn + pydict" where
  "prepare_logging_config writes_file join_path mkdir logging_config service_name instance_id =
     (case logging_config of
        VDict d \<Rightarrow>
          (let config = dpop ''directory'' d;
               safe_name = sanitize_service_name_for_log service_name;
               short_id = short_instance_id instance_id
           in case (case dget_default d ''directory'' VNone of
                  VNone \<Rightarrow> Inr config
                | VStr directory \<Rightarrow>
                    if directory = [] then Inl (ValueError ''logging.directory must be a non-empty string'')
                    else impose_log_filenames writes_file join_path mkdir config directory safe_name short_id
                | _ \<Rightarrow> Inl (ValueError ''logging.directory must be a string'')) of
                Inl e \<Rightarrow> Inl e
              | Inr config1 \<Rightarrow> (case inject_defaults config1 of
                  Inl e \<Rightarrow> Inl e
                | Inr config2 \<Rightarrow> add_kontiki_filters safe_name short_id config2))
      | _ \<Rightarrow> Inl (AttributeError ''pop''))"


section \<open>What a prepared configuration holds\<close>

definition every_handler :: "(pydict \<Rightarrow> bool) \<Rightarrow> pydict \<Rightarrow> bool" where
  "every_handler P config \<longleftrightarrow>
     (case dget config ''handlers'' of
        None \<Rightarrow> True
      | Some (VDict handlers) \<Rightarrow> list_all (\<lambda>(name, h). case h of VDict d \<Rightarrow> P d | _ \<Rightarrow> False) handlers
      | Some _ \<Rightarrow> False)"

lemma map_handlers_all:
  assumes "map_handlers f handlers = Inr updated" and "\<And>h u. f h = Inr u \<Longrightarrow> P u"
  shows "list_all (\<lambda>(name, h). case h of VDict d \<Rightarrow> P d | _ \<Rightarrow> False) updated"
  using assms(1)
proof (induction handlers arbitrary: updated)
  case (Cons entry rest)
  obtain name handler where e: "entry = (name, handler)" by (cases entry)
  with Cons.prems obtain h where h: "handler = VDict h" by (cases handler) auto
  with Cons.prems e obtain h1 us where step: "f h = Inr h1" "map_handlers f rest = Inr us"
      and u: "updated = (name, VDict h1) # us"
    by (cases "map_handlers f rest") (auto split: sum.splits)
  show ?case using Cons.IH[OF step(2)] assms(2)[OF step(1)] u by simp
qed simp

lemma logging_section_Inr:
  "logging_section name config = Inr d \<Longrightarrow>
     dget config name = None \<and> d = [] \<or> dget config name = Some (VDict d)"
  by (auto simp: logging_section_def split: option.splits pyval.splits)

lemma update_handlers_all:
  assumes "update_handlers f config = Inr c" and "\<And>h u. f h = Inr u \<Longrightarrow> P u"
  shows "every_handler P c"
proof -
  from assms(1) obtain hs us where s: "logging_section ''handlers'' config = Inr hs" and m: "map_handlers f hs = Inr us"
      and c: "c = (if dget config ''handlers'' = None then config else dset ''handlers'' (VDict us) config)"
    by (auto simp: update_handlers_def split: sum.splits)
  then show ?thesis using map_handlers_all[OF m assms(2)] logging_section_Inr[OF s]
    by (cases "dget config ''handlers''") (auto simp: every_handler_def)
qed

lemma update_handlers_keeps:
  assumes "update_handlers f config = Inr c" and "k \<noteq> ''handlers''"
  shows "dget c k = dget config k"
  using assms by (auto simp: update_handlers_def split: sum.splits if_splits)

definition filtered :: "pydict \<Rightarrow> bool" where
  "filtered h \<longleftrightarrow> (case dget h ''filters'' of
     None \<Rightarrow> False
   | Some v \<Rightarrow> py_contains FLOW_FILTER v = Inr True \<and> py_contains IDENTITY_FILTER v = Inr True)"

lemma add_filters_filtered: "add_filters h = Inr u \<Longrightarrow> filtered u"
  by (auto simp: add_filters_def filtered_def append_missing_def split: option.splits pyval.splits sum.splits if_splits)

lemma dget_setdefault [dict_simps]:
  "dget (setdefault k v d) j = (if j = k \<and> dget d k = None then Some v else dget d j)"
  by (simp add: setdefault_def)

lemma default_formatters_keeps:
  assumes "default_formatters config = Inr c" and "k \<noteq> ''handlers''" and "k \<noteq> ''formatters''"
  shows "dget c k = dget config k"
  using assms by (auto simp: default_formatters_def split: if_splits dest: update_handlers_keeps)

lemma default_loggers_keeps:
  "default_loggers config = Inr c \<Longrightarrow> k \<noteq> ''loggers'' \<Longrightarrow> dget c k = dget config k"
  by (auto simp: default_loggers_def split: option.splits pyval.splits sum.splits if_splits)

lemma inject_defaults_parts:
  assumes "inject_defaults config = Inr c"
    and "k \<notin> {''handlers'', ''formatters'', ''loggers''}"
  shows "dget c k = dget (setdefault ''disable_existing_loggers'' (VBool True)
     (setdefault ''version'' (VInt 1) config)) k"
  using assms by (auto simp: inject_defaults_def split: sum.splits
      dest!: default_loggers_keeps[where k = k] default_formatters_keeps[where k = k])

lemma inject_defaults_keeps:
  assumes "inject_defaults config = Inr c"
    and "k \<notin> {''handlers'', ''formatters'', ''version'', ''disable_existing_loggers'', ''loggers''}"
  shows "dget c k = dget config k"
  using inject_defaults_parts[OF assms(1)] assms(2) by (simp add: dict_simps)

lemma inject_defaults_version:
  assumes "inject_defaults config = Inr c"
  shows "dget c ''version'' = Some (case dget config ''version'' of None \<Rightarrow> VInt 1 | Some v \<Rightarrow> v)"
  using inject_defaults_parts[OF assms, of "''version''"] by (simp add: dict_simps split: option.splits)

lemma impose_log_filenames_keeps:
  assumes "impose_log_filenames writes_file join_path mkdir config directory safe_name short_id = Inr c"
    and "k \<noteq> ''handlers''"
  shows "dget c k = dget config k"
  using assms by (auto simp: impose_log_filenames_def Let_def split: sum.splits if_splits dest: update_handlers_keeps)

lemma add_kontiki_filters_parts:
  assumes "add_kontiki_filters safe_name short_id config = Inr c"
  shows "every_handler filtered c" and "\<lbrakk>k \<noteq> ''handlers''; k \<noteq> ''filters''\<rbrakk> \<Longrightarrow> dget c k = dget config k"
  using assms by (auto simp: add_kontiki_filters_def split: sum.splits
      intro: update_handlers_all[OF _ add_filters_filtered] dest: update_handlers_keeps)

text \<open>
  Whatever the configuration says, when the preparation succeeds every handler has both filters,
  without which the default format could not be rendered; Kontiki's own key is gone, which
  \<open>dictConfig\<close> would ignore but a strict reader would not; and a version is present.
\<close>

lemma prepared_for_dictConfig:
  assumes "prepare_logging_config writes_file join_path mkdir (VDict d) service_name instance_id = Inr c"
  shows "every_handler filtered c \<and> dget c ''directory'' = None \<and>
    dget c ''version'' = Some (case dget d ''version'' of None \<Rightarrow> VInt 1 | Some v \<Rightarrow> v)"
proof -
  let ?safe = "sanitize_service_name_for_log service_name" and ?short = "short_instance_id instance_id"
  from assms obtain c1 c2 where
      c1: "c1 = dpop ''directory'' d \<or> (\<exists>directory. impose_log_filenames writes_file join_path mkdir
             (dpop ''directory'' d) directory ?safe ?short = Inr c1)"
      and c2: "inject_defaults c1 = Inr c2" and c: "add_kontiki_filters ?safe ?short c2 = Inr c"
    by (auto simp: prepare_logging_config_def Let_def split: sum.splits pyval.splits if_splits)
  have "dget c1 k = dget (dpop ''directory'' d) k" if "k \<noteq> ''handlers''" for k
    using c1 impose_log_filenames_keeps that by blast
  then show ?thesis
    using inject_defaults_keeps[OF c2] inject_defaults_version[OF c2] add_kontiki_filters_parts[OF c]
    by (simp add: dict_simps)
qed

lemma default_configuration_is_prepared:
  "prepare_logging_config writes_file join_path mkdir DEFAULT_LOGGING_CONFIGURATION ''shop/eu'' ''12ab-34cd-56ef-78'' =
     Inr [(''version'', VInt 1), (''disable_existing_loggers'', VBool True),
       (''formatters'', VDict [(''default'', VDict [(''format'', VStr DEFAULT_LOG_FORMAT)])]),
       (''handlers'', VDict [(''console'', VDict [(''class'', VStr ''logging.StreamHandler''),
          (''formatter'', VStr ''default''), (''level'', VStr ''DEBUG''),
          (''filters'', VList [VStr FLOW_FILTER, VStr IDENTITY_FILTER])])]),
       (''loggers'', VDict [(''kontiki'', kontiki_logger)]),
       (''root'', VDict [(''handlers'', VList [VStr ''console'']), (''level'', VStr ''DEBUG'')]),
       (''filters'', VDict [(FLOW_FILTER, flow_filter), (IDENTITY_FILTER, identity_filter ''shop_eu'' ''12ab34cd56ef'')])]"
  by code_simp

text \<open>With a directory, every handler that writes to a file writes to the service's own file there.\<close>

lemma is_file_handler_filename:
  "is_file_handler writes_file (dset ''filename'' v h) = is_file_handler writes_file h"
  by (simp add: is_file_handler_def dget_default_def)

lemma impose_filename_file:
  assumes "impose_filename writes_file path h = Inr u"
  shows "is_file_handler writes_file u = Inr True \<longrightarrow> dget u ''filename'' = Some (VStr path)"
  using assms by (cases "is_file_handler writes_file h")
    (auto simp: impose_filename_def is_file_handler_filename split: if_splits)

lemma file_handlers_share_the_path:
  assumes imposed: "impose_log_filenames writes_file join_path mkdir config directory safe_name short_id = Inr c"
    and "c \<noteq> config"
  shows "every_handler (\<lambda>h. is_file_handler writes_file h = Inr True \<longrightarrow>
     dget h ''filename'' = Some (VStr (join_path directory (safe_name @ ''-'' @ short_id @ ''.log'')))) c"
proof -
  from assms have "update_handlers (impose_filename writes_file
      (join_path directory (safe_name @ ''-'' @ short_id @ ''.log''))) config = Inr c"
    by (auto simp: impose_log_filenames_def Let_def split: sum.splits if_splits)
  then show ?thesis by (rule update_handlers_all) (rule impose_filename_file)
qed

section \<open>The filters at work\<close>

text \<open>
  The attributes of a log record, as far as the filters set them. \<open>str_of\<close> is \<open>str(v)\<close> of a flow
  identifier that is not text.
\<close>

definition flow_for_log :: "(pyval \<Rightarrow> string) \<Rightarrow> pyval \<Rightarrow> string option" where
  "flow_for_log str_of v = (case v of VNone \<Rightarrow> None | VStr f \<Rightarrow> Some f | w \<Rightarrow> Some (str_of w))"

definition flow_id_filter :: "(pyval \<Rightarrow> string) \<Rightarrow> nat \<Rightarrow> scope_state \<Rightarrow> pydict \<Rightarrow> pydict \<times> bool" where
  "flow_id_filter str_of t s record =
     (dset ''flow_id'' (VStr (format_flow_id_for_log (flow_for_log str_of (current_flow_id t s)))) record, True)"

definition service_identity_filter :: "string \<Rightarrow> string \<Rightarrow> pydict \<Rightarrow> pydict \<times> bool" where
  "service_identity_filter service_name short_id record =
     (dset ''short_instance_id'' (VStr short_id) (dset ''service_name'' (VStr service_name) record), True)"

text \<open>
  A record that passes both filters has the attributes of Kontiki that the default format names, in
  a handler as well as outside, and none is dropped.
\<close>

lemma filtered_records_have_their_fields:
  assumes "service_identity_filter service_name short_id (fst (flow_id_filter str_of t s record)) = (r, keep)"
  shows "dget r ''flow_id'' = Some (VStr (format_flow_id_for_log (flow_for_log str_of (current_flow_id t s))))"
    and "dget r ''short_instance_id'' = Some (VStr short_id)" and "keep"
  using assms by (auto simp: service_identity_filter_def flow_id_filter_def)

lemma records_outside_a_handler: "ctx_var s t = None \<Longrightarrow>
    dget (fst (flow_id_filter str_of t s record)) ''flow_id'' = Some (VStr FLOW_ID_UNSET)"
  by (simp add: flow_id_filter_def flow_for_log_def current_flow_id_def get_raw_context_def format_flow_id_for_log_def)

end
