(* ===== verification/Service_Runner.thy ===== *)
theory Service_Runner
  imports Container Logging_Config
begin

text \<open>
  Running a service (\<open>runner/runner.py\<close>, \<open>runner/cli.py\<close>, \<open>runner/__main__.py\<close>): the container is built
  from its configuration, set up, started, and stopped when a signal arrives.

  A \<open>service_launch\<close> holds what the container is built from, and the parameters of its parts: pydantic's
  validation, croniter, the import of handler classes. The call of \<open>dictConfig\<close>, the constructor of
  the user's class, the installation of the signal handlers and the wait for a signal are scripted.
\<close>

record service_launch =
  sl_hosted :: hosted
  sl_endpoints :: "(string \<times> http_endpoint \<times> http_documentation) list"
  sl_delegates :: "(string \<times> delegate_kind) list"
  sl_documents :: "(exn + pyval) list"
  sl_config :: pyval
  sl_disable_registration :: bool
  sl_class_name :: string
  sl_declared_names :: "string list"
  sl_version :: string
  sl_validate_kontiki :: "pyval \<Rightarrow> exn + unit"
  sl_model :: "(string list \<times> (pydict \<Rightarrow> exn + pyval)) option"
  sl_str_of :: "pyval \<Rightarrow> string"
  sl_other_field :: "string \<Rightarrow> exn + string"
  sl_has_condition :: bool
  sl_is_valid :: "string \<Rightarrow> bool"
  sl_writes_file :: "pyval \<Rightarrow> exn + bool"
  sl_join_path :: "string \<Rightarrow> string \<Rightarrow> string"
  sl_mkdir :: "string \<Rightarrow> exn + unit"

datatype run_effect =
    NewService
  | ConfigureLogging pydict
  | InstallSignals
  | AwaitShutdown
  | CtEffect ct_effect

record runner = "run_effect world" +
  rn_container :: "container option"

definition run_call :: "run_effect \<Rightarrow> (runner, unit) py" where
  "run_call e = py_then (io e) (py_return ())"

section \<open>Building the container\<close>

definition sl_logging :: "service_launch \<Rightarrow> container \<Rightarrow> exn + pydict" where
  "sl_logging l c =
     (case hs_config (cn_service c) of
        VDict config \<Rightarrow> prepare_logging_config (sl_writes_file l) (sl_join_path l) (sl_mkdir l)
          (dget_default config ''logging'' DEFAULT_LOGGING_CONFIGURATION)
          (hs_service_name (cn_service c)) (hs_instance_id (cn_service c))
      | _ \<Rightarrow> Inl (AttributeError ''get''))"

definition sl_container :: "service_launch \<Rightarrow> exn + container" where
  "sl_container l =
     (case container_config (sl_documents l) (sl_config l) of
        Inl e \<Rightarrow> Inl e
      | Inr config \<Rightarrow> container_init ((sl_hosted l)\<lparr>hs_config := config, hs_version := VStr (sl_version l)\<rparr>)
          (sl_endpoints l) (sl_delegates l) (sl_disable_registration l) (sl_class_name l)
          (sl_declared_names l) [])"

definition build_container :: "service_launch \<Rightarrow> (runner, container) py" where
  "build_container l =
     py_then (run_call NewService)
     (py_bind (py_lift (sl_container l)) (\<lambda>c.
      py_bind (py_lift (sl_logging l c)) (\<lambda>logging_config.
      py_then (run_call (ConfigureLogging logging_config)) (py_return c))))"

section \<open>Running it\<close>

definition in_container :: "(container, unit) py \<Rightarrow> (runner, unit) py" where
  "in_container m = (\<lambda>s. case rn_container s of
     None \<Rightarrow> (Inr (), s)
   | Some c \<Rightarrow> (case m (c\<lparr>script := script s, trace := []\<rparr>) of
       (r, d) \<Rightarrow> (r, s\<lparr>script := script d, trace := trace s @ map (\<lambda>(e, b). (CtEffect e, b)) (trace d),
                       rn_container := Some (d\<lparr>script := [], trace := []\<rparr>)\<rparr>)))"

definition sl_setup :: "service_launch \<Rightarrow> (container, unit) py" where
  "sl_setup l = container_setup (sl_validate_kontiki l) (sl_model l) (sl_str_of l) (sl_other_field l)
     (sl_has_condition l) (sl_is_valid l) (sl_version l)"

definition run_setup :: "service_launch \<Rightarrow> (runner, unit) py" where
  "run_setup l =
     py_except (in_container (sl_setup l)) (\<lambda>e. py_then (in_container container_stop) (py_raise e))"

definition run_until_shutdown :: "(runner, unit) py" where
  "run_until_shutdown = py_finally (run_call AwaitShutdown) (in_container container_stop)"

definition run_service :: "service_launch \<Rightarrow> (runner, unit) py" where
  "run_service l =
     py_bind (build_container l) (\<lambda>c.
     py_then (py_modify (\<lambda>s. s\<lparr>rn_container := Some c\<rparr>))
     (py_then (run_call InstallSignals)
     (py_then (run_setup l)
     (py_then (in_container (container_start (sl_is_valid l)))
        run_until_shutdown))))"

section \<open>The command line\<close>

text \<open>
  \<open>import_service_class\<close>: a path without a dot cannot be unpacked (\<open>ValueError\<close>, not turned into an
  \<open>ImportError\<close>). Importing the module and taking the class from it is the parameter \<open>import_class\<close>.
\<close>

definition is_ImportError :: "exn \<Rightarrow> bool" where
  "is_ImportError e \<longleftrightarrow> (case e of OtherError c m \<Rightarrow> c \<in> {''ImportError'', ''ModuleNotFoundError''} | _ \<Rightarrow> False)"

definition import_service_class ::
  "(string \<Rightarrow> string \<Rightarrow> exn + service_launch) \<Rightarrow> string \<Rightarrow> exn + service_launch" where
  "import_service_class import_class path =
     (if CHR ''.'' \<notin> set path then Inl (ValueError ''not enough values to unpack'')
      else (case import_class (rev (drop 1 (dropWhile (\<lambda>c. c \<noteq> CHR ''.'') (rev path))))
              (rev (takeWhile (\<lambda>c. c \<noteq> CHR ''.'') (rev path))) of
         Inl e \<Rightarrow> Inl (if is_ImportError e \<or> is_AttributeError e
                       then OtherError ''ImportError'' (''Cannot import service class '' @ path) else e)
       | Inr l \<Rightarrow> Inr l))"

text \<open>How the process ends: with a status and the start of what it prints, or by an exception.\<close>

datatype process_end = Exits nat string | Escapes exn

definition run_main ::
  "(string \<Rightarrow> bool) \<Rightarrow> (string \<Rightarrow> string \<Rightarrow> exn + service_launch) \<Rightarrow> (string list \<Rightarrow> (exn + pyval) list) \<Rightarrow>
   string \<Rightarrow> string list \<Rightarrow> string \<Rightarrow> bool \<Rightarrow> runner \<Rightarrow> process_end \<times> runner" where
  "run_main exists_path import_class read_documents service_class config_paths version disable s =
     (if \<exists>p \<in> set config_paths. \<not> exists_path p then (Exits 1 ''Error: Config file'', s)
      else (case import_service_class import_class service_class of
         Inl e \<Rightarrow> ((if is_ImportError e then Exits 1 ''Error: ''
                   else if is_Exception e then Exits 1 ''Error running service: '' else Escapes e), s)
       | Inr l \<Rightarrow> (case run_service (l\<lparr>sl_documents := read_documents config_paths, sl_version := version,
                                   sl_disable_registration := disable\<rparr>) s of
            (Inr _, t) \<Rightarrow> (Exits 0 [], t)
          | (Inl e, t) \<Rightarrow> ((if is_ImportError e then Exits 1 ''Error: ''
                          else if is_Exception e then Exits 1 ''Error running service: '' else Escapes e), t))))"

section \<open>Every service that was set up is stopped\<close>

definition stopping :: "runner \<Rightarrow> bool" where
  "stopping s \<longleftrightarrow> (case rn_container s of None \<Rightarrow> False | Some c \<Rightarrow> cn_stop_started c)"

lemma stop_is_begun: "rn_container s \<noteq> None \<Longrightarrow> stopping (snd (in_container container_stop s))"
proof -
  assume "rn_container s \<noteq> None"
  then obtain c where c: "rn_container s = Some c" by blast
  have "cn_stop_started (snd (container_stop (c\<lparr>script := script s, trace := []\<rparr>)))"
    by (rule stopped_stays)
  with c show ?thesis by (auto simp: stopping_def in_container_def split: prod.split)
qed

lemma container_stays: "rn_container s \<noteq> None \<Longrightarrow> rn_container (snd (in_container m s)) \<noteq> None"
  by (auto simp: in_container_def split: prod.split option.split)

lemma call_keeps_container: "rn_container (snd (run_call e s)) = rn_container s"
  by (cases rule: io_cases[where e = e and s = s]) (simp_all add: run_call_def py_simps)

text \<open>Whatever ends the wait for a signal, the container is stopped.\<close>

lemma shutdown_stops:
  assumes "rn_container s \<noteq> None"
  shows "stopping (snd (run_until_shutdown s))"
proof -
  have "rn_container (snd (run_call AwaitShutdown s)) \<noteq> None"
    using assms by (simp add: call_keeps_container)
  then have "stopping (snd (in_container container_stop (snd (run_call AwaitShutdown s))))"
    by (rule stop_is_begun)
  then show ?thesis
    by (auto simp: run_until_shutdown_def py_finally_run split: prod.splits sum.splits)
qed

text \<open>A set-up that fails with an \<open>Exception\<close> stops what it had set up, and its error goes on.\<close>

lemma failed_setup_stops:
  assumes failing: "in_container (sl_setup l) s = (Inl e, t)" and "is_Exception e" "rn_container s \<noteq> None"
  shows "stopping (snd (run_setup l s))"
    and "fst (in_container container_stop t) = Inr () \<Longrightarrow> fst (run_setup l s) = Inl e"
proof -
  have run: "run_setup l s =
      (case in_container container_stop t of (Inl x, u) \<Rightarrow> (Inl x, u) | (Inr _, u) \<Rightarrow> (Inl e, u))"
    using failing assms(2) 
    by (auto simp: run_setup_def py_try_run py_then_run py_raise_run split: prod.splits sum.splits)
  have "rn_container t \<noteq> None" using container_stays[OF assms(3)] failing by (metis snd_conv)
  then have "stopping (snd (in_container container_stop t))" by (rule stop_is_begun)
  then show "stopping (snd (run_setup l s))" by (auto simp: run split: prod.splits sum.splits)
  show "fst (run_setup l s) = Inl e" if "fst (in_container container_stop t) = Inr ()"
    using that by (auto simp: run split: prod.splits)
qed

lemma run_setup_keeps_container: "rn_container s \<noteq> None \<Longrightarrow> rn_container (snd (run_setup l s)) \<noteq> None"
  using container_stays[of s "sl_setup l"] container_stays[of "snd (in_container (sl_setup l) s)" container_stop]
  by (auto simp: run_setup_def py_simps split: prod.splits sum.splits)

text \<open>A service that returns has been stopped, whatever the broker and the user's code did.\<close>

lemma run_service_returns_stopped:
  assumes "fst (run_service l s) = Inr ()"
  shows "stopping (snd (run_service l s))"
proof -
  from assms obtain c s1 s2 s3 s4 where
      "build_container l s = (Inr c, s1)" "run_call InstallSignals (s1\<lparr>rn_container := Some c\<rparr>) = (Inr (), s2)"
      "run_setup l s2 = (Inr (), s3)" "in_container (container_start (sl_is_valid l)) s3 = (Inr (), s4)"
      and run: "run_service l s = run_until_shutdown s4"
    by (auto simp: run_service_def py_bind_run py_then_run py_modify_run split: prod.splits sum.splits)
  then have "rn_container s4 \<noteq> None"
    using call_keeps_container[of InstallSignals "s1\<lparr>rn_container := Some c\<rparr>"] run_setup_keeps_container[of s2 l]
      container_stays[of s3 "container_start (sl_is_valid l)"]
    by simp
  then show ?thesis unfolding run by (rule shutdown_stops)
qed

text \<open>
  A start that fails is not inside any \<open>try\<close>: the connections of the set-up stay open. The service of
  the example reads the interval of its task from a key the configuration does not have.
\<close>

lemma failed_start_is_not_stopped:
  assumes "build_container l s = (Inr c, s1)"
    and "run_call InstallSignals (s1\<lparr>rn_container := Some c\<rparr>) = (Inr (), s2)"
    and "run_setup l s2 = (Inr (), s3)"
    and "in_container (container_start (sl_is_valid l)) s3 = (Inl e, s4)"
  shows "run_service l s = (Inl e, s4)"
  using assms by (simp add: run_service_def py_bind_run py_then_run py_modify_run)

definition demo_launch :: service_launch where
  "demo_launch = \<lparr>sl_hosted = demo_hosted\<lparr>hs_tasks := [(''poll'',
       \<lparr>tm_schedule = Interval (VStr ''poll.every''), tm_immediate = VBool False\<rparr>)]\<rparr>,
     sl_endpoints = [], sl_delegates = [], sl_documents = [Inr (VDict [(''kontiki'', VDict [])])],
     sl_config = VNone, sl_disable_registration = True, sl_class_name = ''Orders'', sl_declared_names = [],
     sl_version = ''1'', sl_validate_kontiki = (\<lambda>_. Inr ()), sl_model = None, sl_str_of = (\<lambda>_. []),
     sl_other_field = (\<lambda>f. Inr f), sl_has_condition = False, sl_is_valid = (\<lambda>_. True),
     sl_writes_file = (\<lambda>_. Inr False), sl_join_path = (@), sl_mkdir = (\<lambda>_. Inr ())\<rparr>"

definition demo_runner :: runner where
  "demo_runner = \<lparr>script = [], trace = [], rn_container = None\<rparr>"

lemma failed_start_leaves_connection_open:
  "let (r, t) = run_service demo_launch demo_runner
   in (\<exists>e. r = Inl e) \<and> \<not> stopping t \<and>
      (case rn_container t of None \<Rightarrow> False | Some c \<Rightarrow>
         (case cn_consumer c of None \<Rightarrow> False | Some co \<Rightarrow> co_connection co))"
proof -
  have "isl (fst (run_service demo_launch demo_runner)) \<and> \<not> stopping (snd (run_service demo_launch demo_runner)) \<and>
      (case rn_container (snd (run_service demo_launch demo_runner)) of None \<Rightarrow> False | Some c \<Rightarrow>
         (case cn_consumer c of None \<Rightarrow> False | Some co \<Rightarrow> co_connection co))"
    by code_simp
  then show ?thesis by (auto simp: Let_def isl_def split: prod.splits)
qed

section \<open>How the process ends\<close>

text \<open>The process ends with status 0 only when the service ran to its end, and then it was stopped.\<close>

lemma exit_zero_means_stopped:
  assumes "run_main exists_path import_class read_documents service_class config_paths version disable s = (Exits 0 m, t)"
  shows "stopping t \<and> (\<forall>p \<in> set config_paths. exists_path p)"
proof -
  from assms obtain l u where "run_service l s = (Inr u, t)" and paths: "\<forall>p \<in> set config_paths. exists_path p"
    by (auto simp: run_main_def split: if_splits sum.splits prod.splits)
  then show ?thesis using run_service_returns_stopped[of l s] by simp
qed

lemma missing_file_runs_nothing:
  "p \<in> set config_paths \<Longrightarrow> \<not> exists_path p \<Longrightarrow>
     run_main exists_path import_class read_documents service_class config_paths version disable s =
       (Exits 1 ''Error: Config file'', s)"
  by (auto simp: run_main_def)

lemma files_may_merge_to_nothing:
  "container_config [Inr VNone] VNone = Inr (VDict [])"
  "container_config [] (VDict []) = Inl (RuntimeError ''No service configuration provided.'')"
  by code_simp+

end
