(* ===== verification/Service_Classes.thy ===== *)
theory Service_Classes
  imports Container Remote_Calls "HOL-Library.Multiset"
begin

text \<open>
  How the container finds what a service class declares (\<open>container.py\<close>, \<open>delegate.py\<close>): the functions
  that carry the mark of a decorator and the attributes that are delegates, in the order of
  \<open>inspect.getmembers\<close>, which sorts by name.
\<close>

section \<open>Members\<close>

text \<open>A member with the marks the decorators left on it; \<open>cm_delegate\<close> is set when it is a delegate.\<close>

record class_member =
  cm_name :: string
  cm_event :: "(event_endpoint \<times> signature) option"
  cm_rpc :: "(rpc_endpoint \<times> signature) option"
  cm_http :: "(http_endpoint \<times> http_documentation) option"
  cm_task :: "task_mark option"
  cm_delegate :: "delegate_kind option"

definition getmembers :: "class_member list \<Rightarrow> class_member list" where
  "getmembers cls = sort_key cm_name cls"

definition get_endpoints :: "(class_member \<Rightarrow> 'a option) \<Rightarrow> class_member list \<Rightarrow> (string \<times> 'a) list" where
  "get_endpoints mark cls =
     concat (map (\<lambda>m. case mark m of None \<Rightarrow> [] | Some data \<Rightarrow> [(cm_name m, data)]) (getmembers cls))"

definition has_endpoints :: "(class_member \<Rightarrow> 'a option) \<Rightarrow> class_member list \<Rightarrow> bool" where
  "has_endpoints mark cls = list_ex (\<lambda>m. mark m \<noteq> None) (getmembers cls)"

definition internal_delegates :: "(string \<times> delegate_kind) list" where
  "internal_delegates = [(''_kontiki_heartbeat'', HeartbeatDelegate)]"

definition get_delegates :: "class_member list \<Rightarrow> (string \<times> delegate_kind) list" where
  "get_delegates cls = dunion internal_delegates (get_endpoints cm_delegate cls)"

text \<open>The data the components take from a class.\<close>

definition hosted_class :: "class_member list \<Rightarrow> hosted \<Rightarrow> hosted" where
  "hosted_class cls h = h\<lparr>
     hs_events := get_endpoints cm_event cls,
     hs_rpcs := get_endpoints cm_rpc cls,
     hs_https := map (\<lambda>(n, ep, doc). (n, ep)) (get_endpoints cm_http cls),
     hs_tasks := get_endpoints cm_task cls\<rparr>"

lemma get_endpoints_mem:
  "(n, data) \<in> set (get_endpoints mark cls) \<longleftrightarrow> (\<exists>m \<in> set cls. cm_name m = n \<and> mark m = Some data)"
  by (auto simp: get_endpoints_def getmembers_def split: option.splits) (metis option.inject)+

lemma has_endpoints_iff: "has_endpoints mark cls \<longleftrightarrow> get_endpoints mark cls \<noteq> []"
  by (auto simp: has_endpoints_def get_endpoints_def list_ex_iff split: option.splits)

lemma getmembers_sorted: "sorted (map cm_name (getmembers cls))"
  by (simp add: getmembers_def)

lemma endpoint_names_sorted: "sorted (map fst (get_endpoints mark cls))"
proof -
  have "sorted (map fst (concat (map (\<lambda>m. case mark m of None \<Rightarrow> [] | Some data \<Rightarrow> [(cm_name m, data)]) ms)))"
    if "sorted (map cm_name ms)" for ms
    using that by (induction ms) (auto split: option.splits)
  then show ?thesis by (simp add: get_endpoints_def getmembers_sorted)
qed

text \<open>
  The endpoints do not depend on the order in which the class declares its members, as long as the
  names are distinct, as the attributes of a class are.
\<close>

lemma endpoints_ignore_declaration_order:
  assumes "distinct (map cm_name cls)" "mset cls = mset cls'"
  shows "get_endpoints mark cls = get_endpoints mark cls'"
proof -
  have "distinct (map cm_name cls')"
    using assms mset_eq_imp_distinct_iff[of "map cm_name cls" "map cm_name cls'"] by simp
  moreover have "set cls = set cls'" using assms(2) by (rule mset_eq_setD)
  ultimately have "getmembers cls = getmembers cls'" unfolding getmembers_def
    using assms(1) by (intro map_sorted_distinct_set_unique[where f = cm_name]) (auto simp: distinct_map)
  then show ?thesis by (simp add: get_endpoints_def)
qed

text \<open>The heartbeat is always among the delegates, but an attribute of its name takes its place.\<close>

lemma dunion_keeps_keys: "dget d k \<noteq> None \<Longrightarrow> dget (dunion d e) k \<noteq> None"
  by (induction d e rule: dunion.induct) (auto simp: dict_simps)

lemma internal_delegate_present: "dget (get_delegates cls) ''_kontiki_heartbeat'' \<noteq> None"
  unfolding get_delegates_def by (rule dunion_keeps_keys) (simp add: internal_delegates_def)

lemma declared_delegate_takes_its_place:
  "dget (get_delegates [\<lparr>cm_name = ''_kontiki_heartbeat'', cm_event = None, cm_rpc = None, cm_http = None,
     cm_task = None, cm_delegate = Some OtherDelegate\<rparr>]) ''_kontiki_heartbeat'' = Some OtherDelegate"
  by code_simp

section \<open>Operations of the container around its parts\<close>

definition load_config_files :: "(exn + pyval) list \<Rightarrow> (exn + pydict) \<times> bool" where
  "load_config_files documents =
     (let r = merge_documents documents in (r, (case r of Inl e \<Rightarrow> is_RuntimeError e | Inr c \<Rightarrow> False)))"

definition setup_service_registry :: "(container, unit) py" where
  "setup_service_registry = in_client client_setup"

definition ensure_heartbeat_running :: "(container, unit) py" where
  "ensure_heartbeat_running = in_client ensure_running"

text \<open>The number of handlers in flight is the consumer's; \<open>str_int\<close> is \<open>str(n)\<close>.\<close>

definition in_flight_summary :: "(int \<Rightarrow> string) \<Rightarrow> work_in_flight \<Rightarrow> container \<Rightarrow> string" where
  "in_flight_summary str_int work s =
     (if amqp_ready s then ''amqp_in_flight='' @ str_int (wif_count work) else ''none'')"

text \<open>
  A merge that fails raises \<open>ConfigMergeError\<close>, which the handler of \<open>RuntimeError\<close> does not see.
\<close>

lemma merge_failure_is_not_logged:
  "load_config_files [Inr (VDict [(''a'', VInt 1)]), Inr (VDict [(''a'', VInt 2)])] =
     (Inl (ConfigMergeError ''Configuration file merge has failed due to param definition inconsistency.''), False)"
  by code_simp

section \<open>Delegates\<close>

text \<open>What every delegate of the user can ask of its container; its life cycle does nothing by default.\<close>

definition delegate_publish_exception ::
  "nat \<Rightarrow> string \<Rightarrow> string \<Rightarrow> string \<Rightarrow> string \<Rightarrow> (client, unit) py" where
  "delegate_publish_exception t class_name text ts exception_id =
     container_report_exception t class_name text ts exception_id"

definition delegate_add_context :: "nat \<Rightarrow> pyval \<Rightarrow> string \<Rightarrow> string \<Rightarrow> (client, unit) py" where
  "delegate_add_context t context_data ts context_id = container_add_context t context_data ts context_id"

definition delegate_lifecycle :: "('s, unit) py" where
  "delegate_lifecycle = py_return ()"

section \<open>The proxy of the registry\<close>

definition registry_proxy :: "exn + rpc_proxy" where
  "registry_proxy = rpc_proxy_new (Some ''ServiceRegistry'') VNone VNone"

lemma registry_proxy_calls_the_registry:
  "registry_proxy = Inr \<lparr>px_peer = None, px_service_name = Some ''ServiceRegistry'', px_instance_id = VNone\<rparr>"
  by code_simp

end
