(* ===== verification/Typed_Settings.thy ===== *)
theory Typed_Settings
  imports Documentation Registry_Client
begin

text \<open>
  The declared shape of the \<open>kontiki\<close> section (\<open>configuration/model.py\<close>) and the readers of settings all
  over the code. pydantic checks the section against the declarations when the container is set up
  (strict types, no unknown keys); what it accepts is the predicate \<open>conforms\<close>. Every reader takes a
  path and a default: on a section that conforms it raises nothing and gives a value of the declared
  type.
\<close>

section \<open>Declarations\<close>

text \<open>A field with its type and default; a number is \<open>int | float\<close>, an integer may have a least value.\<close>

datatype setting =
    SBool bool
  | SInteger "int option" int
  | SNumber pyval
  | SText string
  | SOptionalText
  | STextMap
  | SSection "(string \<times> setting) list"

definition RpcConfig :: setting where
  "RpcConfig = SSection [(''timeout'', SNumber (VInt 10))]"

definition TlsConfig :: setting where
  "TlsConfig = SSection [(''enabled'', SBool False), (''ca_cert'', SOptionalText),
     (''client_cert'', SOptionalText), (''client_key'', SOptionalText)]"

definition AmqpConfig :: setting where
  "AmqpConfig = SSection [(''url'', SText AMQP_DEFAULT_URL), (''disable'', SBool False),
     (''required'', SBool True), (''rpc'', RpcConfig), (''max_pending_messages'', SInteger None 10),
     (''max_attempts'', SInteger (Some 1) 3), (''tls'', TlsConfig)]"

definition ShutdownConfig :: setting where
  "ShutdownConfig = SSection [(''grace_seconds'', SNumber (VInt 25))]"

definition RegistrationConfig :: setting where
  "RegistrationConfig = SSection [(''disable'', SBool False), (''delay'', SNumber (VInt 2)),
     (''group'', SText ''business''), (''report_uncaught_exceptions'', SBool True)]"

definition HeartbeatConfig :: setting where
  "HeartbeatConfig = SSection [(''interval'', SNumber (VInt 60))]"

definition HttpDocumentationConfig :: setting where
  "HttpDocumentationConfig = SSection [(''enabled'', SBool True),
     (''path_template'', SText ''/api/{version}/docs''), (''title'', SOptionalText),
     (''description'', SOptionalText)]"

definition HttpConfig :: setting where
  "HttpConfig = SSection [(''disable'', SBool False), (''address'', SText ''0.0.0.0''),
     (''port'', SInteger None 8080), (''documentation'', HttpDocumentationConfig)]"

definition KontikiConfig :: setting where
  "KontikiConfig = SSection [(''service_name'', SOptionalText), (''peers'', STextMap),
     (''amqp'', AmqpConfig), (''shutdown'', ShutdownConfig), (''registration'', RegistrationConfig),
     (''heartbeat'', HeartbeatConfig), (''http'', HttpConfig)]"

lemmas declarations = RpcConfig_def TlsConfig_def AmqpConfig_def ShutdownConfig_def RegistrationConfig_def
  HeartbeatConfig_def HttpDocumentationConfig_def HttpConfig_def KontikiConfig_def

lemma size_setting_entry [termination_simp]: "(k, s) \<in> set fs \<Longrightarrow> size s < Suc (size_list (size_prod (\<lambda>x. 0) size) fs)"
  by (induction fs) auto

fun conforms :: "setting \<Rightarrow> pyval \<Rightarrow> bool" where
  "conforms (SBool b) v = (case v of VBool _ \<Rightarrow> True | _ \<Rightarrow> False)"
| "conforms (SInteger least i) v =
     (case v of VInt n \<Rightarrow> (case least of None \<Rightarrow> True | Some m \<Rightarrow> m \<le> n) | _ \<Rightarrow> False)"
| "conforms (SNumber n) v = (case v of VInt _ \<Rightarrow> True | VFloat _ \<Rightarrow> True | _ \<Rightarrow> False)"
| "conforms (SText s) v = is_str v"
| "conforms SOptionalText v = (v = VNone \<or> is_str v)"
| "conforms STextMap v = (case v of VDict d \<Rightarrow> list_all (\<lambda>(k, w). is_str w) d | _ \<Rightarrow> False)"
| "conforms (SSection fs) v =
     (case v of
        VDict d \<Rightarrow> list_all (\<lambda>(k, w). k \<in> fst ` set fs) d \<and>
          list_all (\<lambda>(k, s). case dget d k of None \<Rightarrow> True | Some w \<Rightarrow> conforms s w) fs
      | _ \<Rightarrow> False)"

fun declared :: "string list \<Rightarrow> setting \<Rightarrow> setting option" where
  "declared [] s = Some s"
| "declared (k # ks) (SSection fs) = (case dget fs k of None \<Rightarrow> None | Some s \<Rightarrow> declared ks s)"
| "declared (k # ks) s = None"

fun declared_default :: "setting \<Rightarrow> pyval" where
  "declared_default (SBool b) = VBool b"
| "declared_default (SInteger least i) = VInt i"
| "declared_default (SNumber n) = n"
| "declared_default (SText s) = VStr s"
| "declared_default SOptionalText = VNone"
| "declared_default STextMap = VDict []"
| "declared_default (SSection fs) = VDict []"

section \<open>Reading a section that conforms\<close>

lemma walk_conforms:
  assumes "conforms s v" and "declared ks s = Some t"
  shows "(\<exists>w. walk v ks = Inr w \<and> conforms t w) \<or> (\<exists>k. walk v ks = Inl (KeyError k))"
  using assms
proof (induction ks arbitrary: s v)
  case (Cons k ks)
  from Cons.prems(2) obtain fs s1 where s: "s = SSection fs" "dget fs k = Some s1" "declared ks s1 = Some t"
    by (cases s) (auto split: option.splits)
  with Cons.prems(1) obtain d where v: "v = VDict d"
      and all: "list_all (\<lambda>(k, s). case dget d k of None \<Rightarrow> True | Some w \<Rightarrow> conforms s w) fs"
    by (auto split: pyval.splits)
  show ?case
  proof (cases "dget d k")
    case (Some w)
    from all map_of_SomeD[OF s(2)] Some have "conforms s1 w" by (auto simp: list_all_iff)
    from Cons.IH[OF this s(3)] show ?thesis by (simp add: v Some)
  qed (simp add: v)
qed simp

definition section_conforms :: "pydict \<Rightarrow> bool" where
  "section_conforms config \<longleftrightarrow> conforms KontikiConfig (dget_default config ''kontiki'' (VDict []))"

lemma setting_read:
  assumes "section_conforms config" and "declared (path_keys path) KontikiConfig = Some t"
    and "dflt \<noteq> VMissing" "dflt \<noteq> VNone"
  shows "\<exists>w. get_kontiki_parameter (VDict config) path dflt = Inr w \<and> (w = dflt \<or> conforms t w)"
proof -
  have read: "get_kontiki_parameter (VDict config) path dflt =
      (case walk (VDict config) (''kontiki'' # path_keys path) of
         Inr v \<Rightarrow> Inr v | Inl e \<Rightarrow> if is_KeyError e then Inr dflt else Inl e)" if "config \<noteq> []"
    using that assms(3) path_keys_kontiki[of path]
    by (simp add: get_kontiki_parameter_def get_parameter_def config_parameter_get_def KONTIKI_def split: sum.split)
  show ?thesis
  proof (cases "dget config ''kontiki''")
    case None
    then show ?thesis using read assms(3,4)
      by (cases "config = []") (simp_all add: get_kontiki_parameter_def get_parameter_def)
  next
    case (Some kontiki)
    with assms(1) have "conforms KontikiConfig kontiki" by (simp add: section_conforms_def dget_default_def)
    from walk_conforms[OF this assms(2)] Some read show ?thesis by (cases "config = []") auto
  qed
qed

text \<open>
  Every setting the code reads is declared, and the default it gives is the declared one. The title
  and the description of the documentation are declared without a default: the readers take one
  from the service's name, and a group that is not written is the empty text, which the reader turns
  into the declared group.
\<close>

definition declares :: "string \<Rightarrow> pyval \<Rightarrow> bool" where
  "declares path dflt \<longleftrightarrow>
     (case declared (path_keys path) KontikiConfig of None \<Rightarrow> False | Some t \<Rightarrow> declared_default t = dflt)"

lemma readers_use_the_declared_defaults:
  "declares ''amqp.url'' (VStr AMQP_DEFAULT_URL)" "declares ''amqp.required'' (VBool True)"
  "declares ''amqp.disable'' (VBool False)" "declares ''amqp.rpc.timeout'' (VInt 10)"
  "declares ''amqp.tls'' (VDict [])" "declares ''amqp.max_pending_messages'' (VInt 10)"
  "declares ''amqp.max_attempts'' (VInt 3)" "declares ''shutdown.grace_seconds'' (VInt 25)"
  "declares ''registration.disable'' (VBool False)" "declares ''registration.delay'' (VInt 2)"
  "declares ''registration.report_uncaught_exceptions'' (VBool True)"
  "declares ''registration.group'' (VStr (normalize_registration_group (VStr [])))"
  "declares ''heartbeat.interval'' (VInt HEARTBEAT_DEFAULT_INTERVAL)"
  "declares ''http.disable'' (VBool False)" "declares ''http.address'' (VStr ''0.0.0.0'')"
  "declares ''http.port'' (VInt 8080)" "declares ''http.documentation.enabled'' (VBool True)"
  "declares ''http.documentation.path_template'' (VStr ''/api/{version}/docs'')"
  by code_simp+

lemma declared_paths:
  "declared (path_keys ''amqp.url'') KontikiConfig = Some (SText AMQP_DEFAULT_URL)"
  "declared (path_keys ''amqp.required'') KontikiConfig = Some (SBool True)"
  "declared (path_keys ''amqp.disable'') KontikiConfig = Some (SBool False)"
  "declared (path_keys ''amqp.rpc.timeout'') KontikiConfig = Some (SNumber (VInt 10))"
  "declared (path_keys ''shutdown.grace_seconds'') KontikiConfig = Some (SNumber (VInt 25))"
  "declared (path_keys ''heartbeat.interval'') KontikiConfig = Some (SNumber (VInt 60))"
  "declared (path_keys ''registration.group'') KontikiConfig = Some (SText ''business'')"
  by code_simp+

lemma is_str_iff: "is_str v \<longleftrightarrow> (\<exists>t. v = VStr t)"
  by (cases v) auto

lemma conforms_SBool_iff: "conforms (SBool b) v \<longleftrightarrow> (\<exists>b. v = VBool b)"
  by (cases v) auto

text \<open>On a section that conforms the readers answer, with a value of the declared type.\<close>

lemma readers_are_typed:
  assumes "section_conforms config"
  shows "\<exists>t. get_amqp_url (VDict config) (VStr AMQP_DEFAULT_URL) = Inr (VStr t)"
    and "\<exists>b. is_amqp_required (VDict config) = Inr (VBool b)"
    and "\<exists>b. is_amqp_disabled (VDict config) = Inr (VBool b)"
    and "\<exists>n. get_rpc_timeout (VDict config) = Inr n \<and> conforms (SNumber (VInt 10)) n"
    and "\<exists>n. get_grace_seconds (VDict config) = Inr n \<and> conforms (SNumber (VInt 25)) n"
    and "\<exists>n. get_heartbeat_interval (VDict config) = Inr n \<and> conforms (SNumber (VInt 60)) n"
    and "\<exists>g. get_registration_group (VDict config) = Inr g \<and> g \<noteq> []"
proof -
  note read = setting_read[OF assms]
  show "\<exists>t. get_amqp_url (VDict config) (VStr AMQP_DEFAULT_URL) = Inr (VStr t)"
    using read[OF declared_paths(1), of "VStr AMQP_DEFAULT_URL"] by (auto simp: get_amqp_url_def is_str_iff)
  show "\<exists>b. is_amqp_required (VDict config) = Inr (VBool b)"
    using read[OF declared_paths(2), of "VBool True"] by (auto simp: is_amqp_required_def conforms_SBool_iff simp del: conforms.simps)
  show "\<exists>b. is_amqp_disabled (VDict config) = Inr (VBool b)"
    using read[OF declared_paths(3), of "VBool False"] by (auto simp: is_amqp_disabled_def conforms_SBool_iff simp del: conforms.simps)
  show "\<exists>n. get_rpc_timeout (VDict config) = Inr n \<and> conforms (SNumber (VInt 10)) n"
    using read[OF declared_paths(4), of "VInt 10"] by (auto simp: get_rpc_timeout_def)
  show "\<exists>n. get_grace_seconds (VDict config) = Inr n \<and> conforms (SNumber (VInt 25)) n"
    using read[OF declared_paths(5), of "VInt 25"] by (auto simp: get_grace_seconds_def)
  show "\<exists>n. get_heartbeat_interval (VDict config) = Inr n \<and> conforms (SNumber (VInt 60)) n"
    using read[OF declared_paths(6), of "VInt HEARTBEAT_DEFAULT_INTERVAL"] by (auto simp: get_heartbeat_interval_def)
  have "normalize_registration_group v \<noteq> []" for v
    by (cases v) (simp_all add: REGISTRATION_GROUP_DEFAULT_def)
  then show "\<exists>g. get_registration_group (VDict config) = Inr g \<and> g \<noteq> []"
    using read[OF declared_paths(7), of "VStr []"] by (auto simp: get_registration_group_def simp del: normalize_registration_group.simps)
qed

text \<open>
  The paths that are read in place, with the defaults given there, and what is declared for them.
\<close>

definition read_settings :: "(string \<times> pyval) list" where
  "read_settings =
     [(''amqp.max_pending_messages'', VInt 10), (''amqp.max_attempts'', VInt 3),
      (''registration.disable'', VBool False), (''registration.delay'', VInt 2),
      (''registration.report_uncaught_exceptions'', VBool True), (''http.disable'', VBool False),
      (''http.address'', VStr ''0.0.0.0''), (''http.port'', VInt 8080),
      (''http.documentation.enabled'', VBool True),
      (''http.documentation.path_template'', VStr ''/api/{version}/docs'')]"

definition conforms_at :: "string \<Rightarrow> pyval \<Rightarrow> bool" where
  "conforms_at path v \<longleftrightarrow>
     (case declared (path_keys path) KontikiConfig of None \<Rightarrow> False | Some t \<Rightarrow> conforms t v)"

lemma read_settings_declared:
  "list_all (\<lambda>(path, dflt). dflt \<noteq> VMissing \<and> dflt \<noteq> VNone \<and> conforms_at path dflt) read_settings"
  by code_simp

lemma settings_in_place_are_typed:
  assumes "section_conforms config"
  shows "list_all (\<lambda>(path, dflt). \<exists>w. get_kontiki_parameter (VDict config) path dflt = Inr w \<and> conforms_at path w)
     read_settings"
proof -
  have "\<exists>w. get_kontiki_parameter (VDict config) path dflt = Inr w \<and> conforms_at path w"
    if "dflt \<noteq> VMissing" "dflt \<noteq> VNone" and c: "conforms_at path dflt" for path dflt
  proof -
    from c obtain t where t: "declared (path_keys path) KontikiConfig = Some t"
      by (auto simp: conforms_at_def split: option.splits)
    from setting_read[OF assms t that(1,2)] c t show ?thesis by (auto simp: conforms_at_def)
  qed
  then show ?thesis using read_settings_declared by (auto simp: list_all_iff)
qed

text \<open>The TLS section as it is written, and what the validator of \<open>TlsConfig\<close> sees of it.\<close>

definition tls_values :: "pydict \<Rightarrow> pydict" where
  "tls_values config =
     (case get_kontiki_parameter (VDict config) ''amqp.tls'' (VDict []) of Inr (VDict d) \<Rightarrow> d | _ \<Rightarrow> [])"

definition text_value :: "pyval \<Rightarrow> string option" where
  "text_value v = (case v of VStr t \<Rightarrow> Some t | _ \<Rightarrow> None)"

definition parsed_tls :: "pydict \<Rightarrow> tls_config" where
  "parsed_tls d = \<lparr>tls_enabled = (dget_default d ''enabled'' (VBool False) = VBool True),
     tls_ca_cert = text_value (dget_default d ''ca_cert'' VNone),
     tls_client_cert = text_value (dget_default d ''client_cert'' VNone),
     tls_client_key = text_value (dget_default d ''client_key'' VNone)\<rparr>"

lemma tls_declared: "declared (path_keys ''amqp.tls'') KontikiConfig = Some TlsConfig"
  by code_simp

lemma tls_enabled_is_bool:
  assumes "conforms TlsConfig (VDict tls)"
  shows "\<exists>b. dget_default tls ''enabled'' (VBool False) = VBool b"
  using assms by (auto simp: TlsConfig_def dget_default_def conforms_SBool_iff split: option.splits simp del: conforms.simps(1))

lemma tls_context_answers:
  assumes "section_conforms config" and "certificate_when_enabled (parsed_tls (tls_values config)) = Inr m"
  shows "\<exists>ctx. create_tls_context (VDict config) = Inr ctx"
proof -
  obtain w where w: "get_kontiki_parameter (VDict config) ''amqp.tls'' (VDict []) = Inr w"
      "w = VDict [] \<or> conforms TlsConfig w"
    using setting_read[OF assms(1) tls_declared, of "VDict []"] by auto
  then obtain tls where tls: "w = VDict tls" by (auto simp: TlsConfig_def split: pyval.splits)
  have "\<exists>b. dget_default tls ''enabled'' (VBool False) = VBool b"
    using w(2) tls_enabled_is_bool unfolding tls by (auto simp: dget_default_def)
  moreover have "dget tls ''ca_cert'' \<noteq> None" if "dget_default tls ''enabled'' (VBool False) = VBool True"
    using assms(2) that w(1) tls
    by (auto simp: tls_values_def parsed_tls_def certificate_when_enabled_def blank_def text_value_def
        dget_default_def[of tls "''ca_cert''"] split: option.splits if_splits)
  ultimately show ?thesis using w(1) tls by (auto simp: create_tls_context_def Let_def split: option.split)
qed


definition demo_settings :: pydict where
  "demo_settings = [(''kontiki'', VDict
     [(''amqp'', VDict [(''url'', VStr ''amqp://mq/''), (''rpc'', VDict [(''timeout'', VFloat (5 / 2))]),
        (''tls'', VDict [(''enabled'', VBool True), (''ca_cert'', VStr ''/ca.pem'')])]),
      (''http'', VDict [(''port'', VInt 80)])])]"

lemma demo_settings_valid:
  "conforms KontikiConfig (dget_default demo_settings ''kontiki'' (VDict []))"
  "certificate_when_enabled (parsed_tls (tls_values demo_settings)) = Inr (parsed_tls (tls_values demo_settings))"
  by code_simp+


text \<open>
  The declarations allow \<open>title: null\<close>; the reader then finds a value, \<open>None\<close>, and does not fall back
  to the name of the service.
\<close>

lemma null_title_is_kept:
  "section_conforms [(''kontiki'', VDict [(''http'', VDict [(''documentation'', VDict [(''title'', VNone)])])])] \<and>
   get_kontiki_parameter (VDict [(''kontiki'', VDict [(''http'', VDict [(''documentation'',
     VDict [(''title'', VNone)])])])]) ''http.documentation.title'' (VStr ''orders'') = Inr VNone"
  by code_simp

text \<open>
  The constructor of the container reads before the section is validated: what it meets then is the
  error of the lookup.
\<close>

lemma null_section_breaks_the_constructor:
  "is_amqp_required (VDict [(''kontiki'', VDict [(''amqp'', VNone)])]) = Inl (TypeError ''not subscriptable by a string'') \<and>
   \<not> section_conforms [(''kontiki'', VDict [(''amqp'', VNone)])]"
  by code_simp

end
