(* ===== verification/Swagger_Page.thy ===== *)
theory Swagger_Page
  imports Documentation "HOL-Library.Sublist"
begin

text \<open>
  The page of the Swagger viewer (\<open>web/documentation/swagger.py\<close>) and the handler that serves it, line by line as the template has it.
  The doubled braces of the template stand for single ones.
\<close>

definition swagger_lines :: "string \<Rightarrow> string \<Rightarrow> string \<Rightarrow> string list" where
  \<open>swagger_lines title spec_url description =
     [[],
      ''<!DOCTYPE html>'',
      ''<html>'',
      ''<head>'',
      ''  <meta charset="utf-8">'',
      ''  <title>'' @ title @ '' - Swagger UI</title>'',
      ''  <meta name="viewport" content="width=device-width, initial-scale=1">'',
      ''  <link rel="stylesheet" href="https://unpkg.com/swagger-ui-dist@5/swagger-ui.css">'',
      ''  <style> body { margin:0; background:#fafafa; } .topbar { display:none; } </style>'',
      ''  <meta name="description" content="'' @ description @ ''">'',
      ''  <script>window.specUrl = '' @ [CHR 0x27] @ spec_url @ [CHR 0x27] @ '';</script>'',
      ''  <script src="https://unpkg.com/swagger-ui-dist@5/swagger-ui-bundle.js"></script>'',
      ''  <script src="https://unpkg.com/swagger-ui-dist@5/swagger-ui-standalone-preset.js"></script>'',
      ''  <script>'',
      ''  window.onload = function() {'',
      ''    window.ui = SwaggerUIBundle({'',
      ''      url: window.specUrl,'',
      ''      dom_id: '#swagger-ui','',
      ''      presets: [SwaggerUIBundle.presets.apis, SwaggerUIStandalonePreset],'',
      ''      layout: 'BaseLayout'' @ [CHR 0x27],
      ''    });'',
      ''  }'',
      ''  </script>'',
      ''  </head>'',
      ''  <body>'',
      ''    <div id="swagger-ui"></div>'',
      ''  </body>'',
      ''</html>'',
      []]\<close>

definition build_swagger_ui_html :: "string \<Rightarrow> string \<Rightarrow> string \<Rightarrow> string" where
  "build_swagger_ui_html title spec_url description =
     concat (map (\<lambda>l. l @ [CHR 0x0A]) (butlast (swagger_lines title spec_url description)))"

text \<open>The title, the address and the description go into the page as they are, nothing is escaped.\<close>

lemma line_in_page:
  assumes "a @ s @ b \<in> set (butlast (swagger_lines title spec_url description))"
  shows "sublist s (build_swagger_ui_html title spec_url description)"
proof -
  obtain before after where l: "butlast (swagger_lines title spec_url description) = before @ (a @ s @ b) # after"
    using split_list[OF assms] by blast
  have "build_swagger_ui_html title spec_url description =
      (concat (map (\<lambda>l. l @ [CHR 0x0A]) before) @ a) @ s @ (b @ [CHR 0x0A] @ concat (map (\<lambda>l. l @ [CHR 0x0A]) after))"
    by (simp add: build_swagger_ui_html_def l)
  then show ?thesis by (metis sublist_appendI)
qed

lemma page_holds_its_inputs:
  "sublist title (build_swagger_ui_html title spec_url description)"
  "sublist spec_url (build_swagger_ui_html title spec_url description)"
  "sublist description (build_swagger_ui_html title spec_url description)"
  by (rule line_in_page[of "''  <title>''" _ "'' - Swagger UI</title>''"], simp add: swagger_lines_def,
      rule line_in_page[of "''  <script>window.specUrl = '' @ [CHR 0x27]" _ "[CHR 0x27] @ '';</script>''"], simp add: swagger_lines_def,
      rule line_in_page[of \<open>''  <meta name="description" content="''\<close> _ \<open>''">''\<close>], simp add: swagger_lines_def)

definition swagger_handler :: "(pyval \<Rightarrow> string) \<Rightarrow> pyval \<Rightarrow> pyval \<Rightarrow> string \<Rightarrow> pyval \<Rightarrow> string" where
  "swagger_handler str_of doc_title version path doc_desc =
     build_swagger_ui_html (str str_of doc_title @ '' ('' @ str str_of version @ '')'') (openapi_path path)
       (str str_of doc_desc)"

lemma description_is_not_escaped:
  "sublist description (swagger_handler str_of title version path (VStr description))"
  by (simp add: swagger_handler_def page_holds_its_inputs(3))

end
