(* ===== verification/Spec2Isabelle.thy ===== *)
theory Spec2Isabelle
  imports Merge_In_Place Event_Delivery Registry_Properties Testing_Support Service_Classes Typed_Settings Swagger_Page
begin

text \<open>
  Verification library of Kontiki, a runtime for Python micro-services on AMQP.

  A service is a class whose methods are declared as event handlers, remote procedures, HTTP
  endpoints and periodic tasks. The container (\<open>container.py\<close>) merges the configuration, connects a
  consumer (\<open>messaging/consumer\<close>) and a messenger (\<open>messaging/publisher\<close>) to the broker, and runs
  the handlers in a scope that carries flow and hop identifiers (\<open>runtime/handler_scope.py\<close>). A
  registry service (\<open>registry/server\<close>) keeps the table of instances from their registrations and
  heartbeats and publishes status events.

  \<^bold>\<open>How code becomes definitions.\<close> A Python value is a \<open>pyval\<close>, a dictionary an association list in
  insertion order, an exception an \<open>exn\<close>. A coroutine is a function from a state record to an
  outcome (\<open>Inl\<close> the exception raised, \<open>Inr\<close> the value returned) and the new state. What lies
  outside (broker, user handlers, sleeping) answers awaited calls from a script, a list of return
  values and exceptions over which the theorems quantify, and every call is recorded in a trace.
  Text of exceptions is kept where the code reads it, and shortened in the messages it only shows.

  \<^bold>\<open>Theories.\<close>
  \<^item> Kontiki_Prelude: values, exceptions, dictionaries with their laws, string helpers.
  \<^item> Python_Effects: the state-and-exception combinators, scripted calls and traces, the calculi
    \<open>emits\<close> (which calls can be made), \<open>keeps\<close> and \<open>preserves\<close> (what a computation leaves alone), and
    the locale of systems with an invariant.
  \<^item> Configuration: \<open>configuration/parameter.py\<close>, \<open>merge.py\<close>, \<open>model.py\<close>, \<open>messaging/common.py\<close>.
  \<^item> Merge_In_Place: \<open>configuration/merge.py\<close> again, on objects in a store that are changed in place, and
    its refinement of the merge of values.
  \<^item> Handler_Scope: \<open>runtime/handler_scope.py\<close>, \<open>messaging/flow.py\<close>, \<open>WorkInFlight\<close>, reserved headers.
  \<^item> Serialization: \<open>messaging/serialization.py\<close>, \<open>reconstruct.py\<close>, \<open>rpc.py\<close>.
  \<^item> Event_Consumer, Rpc_Consumer, Consumer_Setup: \<open>messaging/consumer/event.py\<close>, \<open>rpc.py\<close>, \<open>core.py\<close>.
  \<^item> Messenger, Remote_Calls, Event_Delivery: \<open>messaging/publisher/messenger.py\<close>, \<open>rpc.py\<close>,
    \<open>session.py\<close>, and the properties that span caller and callee, publisher and subscriber.
  \<^item> Registry_Server, Failed_Messages, Registry_Properties: \<open>registry/server/core.py\<close> and its delegates,
    \<open>registry/events.py\<close>, \<open>registry/common.py\<close>.
  \<^item> Activity: the timeline, the exception records and their retention
    (\<open>registry/server/delegates/activity_tracking.py\<close>).
  \<^item> Task_Scheduling: \<open>task/task.py\<close>, schedules and the loop of a periodic task.
  \<^item> Entrypoint_Catalog, Registry_Client: what a service announces (\<open>registry/catalog.py\<close>), the
    messages it sends the registry (\<open>registry/client/registry_client.py\<close>) and its heartbeats
    (\<open>registry/client/heartbeat_publisher.py\<close>).
  \<^item> Http_Server, Documentation, Swagger_Page: \<open>web/web.py\<close>, \<open>web/utils.py\<close>,
    \<open>web/documentation/doc.py\<close>, \<open>swagger.py\<close>.
  \<^item> Typed_Settings: the declarations of \<open>configuration/model.py\<close> and what they promise to the readers of
    settings: a section that conforms is read without errors and with the declared types and defaults.
  \<^item> Registry_Service: \<open>registry/server/service.py\<close>, the HTTP and RPC interface of the registry.
  \<^item> Container: \<open>container.py\<close>, which runs the operations of the components above on their states.
  \<^item> Service_Classes: how \<open>container.py\<close> finds the entrypoints and delegates of a class, \<open>delegate.py\<close>,
    \<open>registry/client/proxy.py\<close>.
  \<^item> Logging_Config, Service_Runner: what \<open>messaging/flow.py\<close> makes of the logging section, and
    \<open>runner\<close>, which builds, runs and stops a container.
  \<^item> Testing_Support: \<open>testing\<close>, the mocks and recorders for integration tests; the queues of prepared
    answers are two interpretations of one interface.

  \<^bold>\<open>What the lemmas show.\<close> C1 to C4: merging and looking up configuration; C3 relates
  the merge in place to the merge of values. C5 to C7: scopes, draining
  and the chain of flows and hops. C8 to C13: the registry, whose published events are a faithful
  account of its records (\<open>feed\<close> is the abstract subscriber, and the history of handlers refines
  it). C14: references in OpenAPI documents. C15 and C16: failed messages. C17: the serialization
  round trip. C18: a published event reaches its handlers, in the flow of its publisher. C19 to C21: each
  delivery is handled and settled once. C22: the queue topology. C23 to C26: the messenger. C27 and
  C28: remote calls and sessions from end to end. C29 and C30: retention and the timeline as an
  expiring log. C31 and C32: a stopped task starts no iteration, a running one keeps running. C33 to
  C36: what a service sends reaches the records of the registry (registration, failed-message gate,
  reported exceptions, degraded state). C37: every HTTP request is answered under its flow. C38: the
  phases of the shutdown. C39: a validated configuration is read without errors. C40: waiting for
  recorded events ends.

  \<^bold>\<open>Bounds.\<close> Integers are Python's, so unbounded; the one width that matters is that of a time difference
  (\<open>MAX_DELTA_DAYS\<close> in Registry_Server). The merge in place takes the depth of recursion the interpreter
  allows, and its theorem holds from some depth on. Waiting for recorded events (\<open>wait_loop\<close> in
  Testing_Support) may not end and is a partial function, with C40 saying when it ends. Every other loop
  is a total function.

  \<^bold>\<open>Not modelled.\<close> The text syntax of YAML and JSON and UTF-8; pydantic's own type checks; aiohttp and
  aio-pika, whose documented behaviour enters as scripted answers; argparse and the import of modules;
  log output and its rendering; the examples under \<open>src/examples\<close>, which only use the library, and
  \<open>cli.py\<close> and \<open>registry/server/main.py\<close>, which call the runner. Handlers run to
  completion in the registry's history; interleavings are modelled where the code relies on them
  (tasks in Handler_Scope, calls in Messenger).
\<close>

end
